theory Spec2Isabelle
  imports Main "HOL-Library.List_Lexorder" "HOL-Library.Char_ord"
begin

section \<open>JavaScript strings and values\<close>

text \<open>
  A JavaScript string is modelled as a \<open>string\<close>, one \<open>char\<close> per UTF-16 code unit;
  the model therefore covers the strings whose code units are below 256 (Latin-1).
  The built-in string methods used by the console and by the send route are written
  out below for that range.
\<close>

definition isWhiteSpace :: "char \<Rightarrow> bool" where
  \<comment> \<open>the code units below 256 that \<open>String.prototype.trim\<close> strips and \<open>\<bsol>s\<close> matches\<close>
  "isWhiteSpace c =
     (c = CHR 0x09 \<or> c = CHR 0x0A \<or> c = CHR 0x0B \<or> c = CHR 0x0C \<or> c = CHR 0x0D
      \<or> c = CHR 0x20 \<or> c = CHR 0xA0)"

definition js_trim :: "string \<Rightarrow> string" where
  "js_trim s = rev (dropWhile isWhiteSpace (rev (dropWhile isWhiteSpace s)))"

definition toLowerChar :: "char \<Rightarrow> char" where
  "toLowerChar c =
     (let n = (of_char c :: nat)
      in if (65 \<le> n \<and> n \<le> 90) \<or> (192 \<le> n \<and> n \<le> 222 \<and> n \<noteq> 215)
         then char_of (n + 32) else c)"

definition toLowerCase :: "string \<Rightarrow> string" where
  "toLowerCase s = map toLowerChar s"

definition startsWith :: "string \<Rightarrow> string \<Rightarrow> bool" where
  "startsWith s p = (take (length p) s = p)"

definition endsWith :: "string \<Rightarrow> string \<Rightarrow> bool" where
  "endsWith s p = (length p \<le> length s \<and> drop (length s - length p) s = p)"

fun split_on :: "char \<Rightarrow> string \<Rightarrow> string list" where
  "split_on d [] = [[]]"
| "split_on d (c # cs) =
     (if c = d then [] # split_on d cs
      else (case split_on d cs of
              [] \<Rightarrow> [[c]]
            | p # ps \<Rightarrow> (c # p) # ps))"

fun indexOf :: "string \<Rightarrow> char \<Rightarrow> int" where
  \<comment> \<open>\<open>s.indexOf(c)\<close> for a one-character search string: the first index, or -1\<close>
  "indexOf [] d = -1"
| "indexOf (c # cs) d =
     (if c = d then 0 else (let i = indexOf cs d in if i < 0 then -1 else i + 1))"

definition js_slice :: "string \<Rightarrow> int \<Rightarrow> int \<Rightarrow> string" where
  \<comment> \<open>\<open>s.slice(a, b)\<close>: negative arguments count from the end, both are clamped\<close>
  "js_slice s a b =
     (let n = int (length s);
          from = (if a < 0 then max (n + a) 0 else min a n);
          to = (if b < 0 then max (n + b) 0 else min b n)
      in take (nat (to - from)) (drop (nat from) s))"

definition js_slice_from :: "string \<Rightarrow> int \<Rightarrow> string" where
  \<comment> \<open>\<open>s.slice(a)\<close>\<close>
  "js_slice_from s a = js_slice s a (int (length s))"

text \<open>
  A thrown value is either an \<open>Error\<close> object with its message or something else; the
  code only ever asks \<open>error instanceof Error\<close> and reads \<open>error.message\<close>.
\<close>

datatype thrown = Error string | NonError

text \<open>
  Values produced by \<open>JSON.parse\<close>. A number carries the text that \<open>String(n)\<close>
  gives for it; an object carries its own properties, one value per name.

  \<open>String(v)\<close> converts an object through its \<open>toString\<close> and \<open>valueOf\<close> members. A
  parsed object inherits both from \<open>Object.prototype\<close> and then converts to
  \<open>[object Object]\<close>; an own property \<open>toString\<close> hides the inherited one and is never a
  function, \<open>valueOf\<close> gives no primitive either, and the conversion throws a
  \<open>TypeError\<close>. An array converts its elements and joins them, so it throws when one of
  them does. \<open>None\<close> below is that \<open>TypeError\<close>.
\<close>

datatype json =
    JNull
  | JBool bool
  | JNumber string
  | JString string
  | JArray "json list"
  | JObject "(string \<times> json) list"

fun join_with :: "string \<Rightarrow> string list \<Rightarrow> string" where
  "join_with sep [] = []"
| "join_with sep [x] = x"
| "join_with sep (x # y # ys) = x @ sep @ join_with sep (y # ys)"

fun all_converted :: "string option list \<Rightarrow> string list option" where
  \<comment> \<open>the converted elements, unless the conversion of one of them threw\<close>
  "all_converted [] = Some []"
| "all_converted (None # xs) = None"
| "all_converted (Some x # xs) = map_option ((#) x) (all_converted xs)"

fun js_String :: "json \<Rightarrow> string option" where
  \<comment> \<open>\<open>String(v)\<close> for a parsed JSON value\<close>
  "js_String JNull = Some ''null''"
| "js_String (JBool b) = Some (if b then ''true'' else ''false'')"
| "js_String (JNumber t) = Some t"
| "js_String (JString s) = Some s"
| "js_String (JArray xs) =
     map_option (join_with '','')
       (all_converted (map (\<lambda>x. if x = JNull then Some [] else js_String x) xs))"
| "js_String (JObject kvs) =
     (if ''toString'' \<in> fst ` set kvs then None else Some ''[object Object]'')"

definition String_or_empty :: "json option \<Rightarrow> string option" where
  \<comment> \<open>\<open>String(value ?? "")\<close>; the argument \<open>None\<close> is \<open>undefined\<close>\<close>
  "String_or_empty v =
     (case v of None \<Rightarrow> Some [] | Some JNull \<Rightarrow> Some [] | Some x \<Rightarrow> js_String x)"

fun js_prop :: "json \<Rightarrow> string \<Rightarrow> json option" where
  \<comment> \<open>\<open>v.name\<close> on a value that is not \<open>null\<close>, for a name that no prototype defines\<close>
  "js_prop (JObject kvs) nm = map_of kvs nm"
| "js_prop _ nm = None"

text \<open>
  The members every plain object inherits from \<open>Object.prototype\<close>. A lookup
  \<open>obj[key]\<close> with one of these names on an object that has no own property of that name
  yields the inherited member, which is truthy; for the function-valued ones
  \<open>.name\<close> is the function's name.
\<close>

definition inherited_names :: "string list" where
  "inherited_names =
     [''constructor'', ''__defineGetter__'', ''__defineSetter__'', ''hasOwnProperty'',
      ''__lookupGetter__'', ''__lookupSetter__'', ''isPrototypeOf'',
      ''propertyIsEnumerable'', ''toString'', ''valueOf'', ''__proto__'',
      ''toLocaleString'']"

definition inherited_member_name :: "string \<Rightarrow> string option" where
  "inherited_member_name k =
     (if k = ''constructor'' then Some ''Object''
      else if k = ''__proto__'' then None
      else if k \<in> set inherited_names then Some k
      else None)"

section \<open>Archive parser\<close>

datatype ParseSource = manifest | fallback

record ParsedBillRow =
  account_key :: string
  pdf_filename :: string
  zip_entry_path :: string
  trade_date :: "string option"

datatype RowStatus = Pending | Blocked

record BillRow = ParsedBillRow +
  contact_name :: "string option"
  contact_email :: "string option"
  status :: RowStatus

record Contact =
  contact_key :: string
  name :: "string option"
  email :: string
  updated_at :: string

text \<open>
  An entry of the decoded archive: \<open>file.name\<close>, \<open>file.dir\<close>, and what
  \<open>file.async(...)\<close> resolves to (the content) or rejects with. The archive itself is
  the list \<open>Object.values(zip.files)\<close>.
\<close>

record zip_entry =
  entry_name :: string
  entry_dir :: bool
  entry_data :: "thrown + string"

type_synonym zip = "zip_entry list"

definition zip_file :: "zip \<Rightarrow> string \<Rightarrow> zip_entry option" where
  \<comment> \<open>JSZip's \<open>zip.file(name)\<close>: the entry of that name unless it is a directory\<close>
  "zip_file z nm =
     (case find (\<lambda>e. entry_name e = nm) z of
        None \<Rightarrow> None
      | Some e \<Rightarrow> if entry_dir e then None else Some e)"

definition getBaseName :: "string \<Rightarrow> string" where
  "getBaseName pathname = last (split_on CHR ''/'' pathname)"

definition normalizeAccountKey :: "json option \<Rightarrow> string option" where
  \<comment> \<open>\<open>String(value ?? "").trim()\<close> for a value of unknown type\<close>
  "normalizeAccountKey v = map_option js_trim (String_or_empty v)"

definition normalizeAccountKey_string :: "string \<Rightarrow> string" where
  \<comment> \<open>the same function where the argument is a string: \<open>String(s)\<close> is \<open>s\<close>\<close>
  "normalizeAccountKey_string s = js_trim s"

definition isPdf :: "string \<Rightarrow> bool" where
  "isPdf filename = endsWith (toLowerCase filename) ''.pdf''"

definition isIgnoredAdminPdf :: "string \<Rightarrow> bool" where
  "isIgnoredAdminPdf filename =
     (let baseName = getBaseName filename
      in startsWith baseName ''Bill_Admin_''
         \<or> startsWith baseName ''Summary_Admin_Closing_Adjustment_'')"

definition getStatusFromEmail :: "string option \<Rightarrow> RowStatus" where
  \<comment> \<open>\<open>email ? "Pending" : "Blocked"\<close>: \<open>null\<close> and the empty string are falsy\<close>
  "getStatusFromEmail e = (case e of None \<Rightarrow> Blocked | Some s \<Rightarrow> if s = [] then Blocked else Pending)"

definition uniqueAccountKeys :: "string list \<Rightarrow> string list" where
  \<comment> \<open>a \<open>Set\<close> keeps the first occurrence of each key, in insertion order\<close>
  "uniqueAccountKeys keys =
     rev (remdups (rev (filter (\<lambda>k. k \<noteq> [])
       (map normalizeAccountKey_string keys))))"

definition mergeRow :: "(string \<rightharpoonup> Contact) \<Rightarrow> 'a ParsedBillRow_scheme \<Rightarrow> BillRow" where
  \<comment> \<open>the body of the \<open>map\<close> callback shared by \<open>mergeRowsWithContacts\<close> and
      \<open>syncContactsForKeys\<close>\<close>
  "mergeRow contactsByKey row =
     (let contact = contactsByKey (account_key row);
          contactEmail = (case contact of None \<Rightarrow> None | Some c \<Rightarrow> Some (email c))
      in \<lparr> account_key = account_key row,
           pdf_filename = pdf_filename row,
           zip_entry_path = zip_entry_path row,
           trade_date = trade_date row,
           contact_name = (case contact of
                             None \<Rightarrow> inherited_member_name (account_key row)
                           | Some c \<Rightarrow> name c),
           contact_email = contactEmail,
           status = getStatusFromEmail contactEmail \<rparr>)"

definition mergeRowsWithContacts ::
  "ParsedBillRow list \<Rightarrow> (string \<rightharpoonup> Contact) \<Rightarrow> BillRow list" where
  "mergeRowsWithContacts rows contactsByKey = map (mergeRow contactsByKey) rows"

definition parseFallbackRows_step :: "zip_entry \<Rightarrow> ParsedBillRow list" where
  \<comment> \<open>one iteration of the loop of \<open>parseFallbackRows\<close>: the rows it pushes\<close>
  "parseFallbackRows_step file =
     (if entry_dir file then []
      else
        let baseName = getBaseName (entry_name file)
        in if \<not> startsWith baseName ''Bill_'' then []
           else if \<not> isPdf baseName \<or> isIgnoredAdminPdf baseName then []
           else
             let withoutPrefix = js_slice_from baseName (int (length ''Bill_''));
                 firstUnderscoreIndex = indexOf withoutPrefix CHR ''_''
             in if firstUnderscoreIndex \<le> 0 then []
                else
                  let accountKey = normalizeAccountKey_string
                        (js_slice withoutPrefix 0 firstUnderscoreIndex)
                  in if accountKey = [] then []
                     else
                       let tradeDateValue = js_slice withoutPrefix (firstUnderscoreIndex + 1)
                             (int (length withoutPrefix) - int (length ''.pdf''))
                       in [\<lparr> account_key = accountKey,
                              pdf_filename = baseName,
                              zip_entry_path = entry_name file,
                              trade_date = (if js_trim tradeDateValue = [] then None
                                            else Some (js_trim tradeDateValue)) \<rparr>])"

definition parseFallbackRows :: "zip \<Rightarrow> ParsedBillRow list" where
  "parseFallbackRows z = concat (map parseFallbackRows_step z)"

definition parseManifestItem :: "string option \<Rightarrow> json \<Rightarrow> ParsedBillRow list option" where
  \<comment> \<open>the \<open>flatMap\<close> callback of the manifest path: the rows it returns, or \<open>None\<close> when
      one of its two conversions throws\<close>
  "parseManifestItem tradeDate item =
     (case (case item of JObject kvs \<Rightarrow> Some item | JArray xs \<Rightarrow> Some item | _ \<Rightarrow> None) of
        None \<Rightarrow> Some []
      | Some entry \<Rightarrow>
          (case normalizeAccountKey (js_prop entry ''key'') of
             None \<Rightarrow> None
           | Some accountKey \<Rightarrow>
          (case String_or_empty (js_prop entry ''pdf'') of
             None \<Rightarrow> None
           | Some pdfText \<Rightarrow>
          let pdfPath = js_trim pdfText
          in if accountKey = [] \<or> pdfPath = [] then Some []
             else if \<not> isPdf pdfPath \<or> isIgnoredAdminPdf pdfPath then Some []
             else Some [\<lparr> account_key = accountKey,
                          pdf_filename = getBaseName pdfPath,
                          zip_entry_path = pdfPath,
                          trade_date = tradeDate \<rparr>])))"

fun flatMap_items ::
  "(json \<Rightarrow> ParsedBillRow list option) \<Rightarrow> json list \<Rightarrow> ParsedBillRow list option" where
  \<comment> \<open>\<open>items.flatMap(f)\<close> for a callback that may throw: the first throw ends it\<close>
  "flatMap_items f [] = Some []"
| "flatMap_items f (item # items) =
     (case f item of
        None \<Rightarrow> None
      | Some rs \<Rightarrow> map_option ((@) rs) (flatMap_items f items))"

text \<open>
  The manifest branch of \<open>parseUploadedZip\<close>, from \<open>JSON.parse\<close> to the end of the
  \<open>try\<close> block. \<open>None\<close> for the parsed value is a \<open>JSON.parse\<close> failure. The result is
  the source, the parsed rows and the message pushed by the \<open>catch\<close>. Reading a
  property of \<open>null\<close> throws after \<open>source\<close> has been set, and so does a conversion in
  the callback: \<open>parsedRows\<close> then keeps its initial value, the empty list.
\<close>

definition parseManifest ::
  "json option \<Rightarrow> ParseSource \<times> ParsedBillRow list \<times> string list" where
  "parseManifest parsed =
     (case parsed of
        None \<Rightarrow> (fallback, [], [''manifest.json invalid JSON''])
      | Some JNull \<Rightarrow> (manifest, [], [''manifest.json invalid JSON''])
      | Some manifestData \<Rightarrow>
          let tradeDate =
                (case js_prop manifestData ''trade_date'' of
                   Some (JString t) \<Rightarrow> if js_trim t \<noteq> [] then Some (js_trim t) else None
                 | _ \<Rightarrow> None);
              manifestSuccess =
                (case js_prop manifestData ''success'' of
                   Some (JArray xs) \<Rightarrow> xs
                 | _ \<Rightarrow> [])
          in (case flatMap_items (parseManifestItem tradeDate) manifestSuccess of
                None \<Rightarrow> (manifest, [], [''manifest.json invalid JSON''])
              | Some parsedRows \<Rightarrow> (manifest, parsedRows, [])))"

section \<open>Authorization\<close>

record auth_user =
  user_id :: string
  user_email :: "string option"

text \<open>
  What the identity collaborator reports for the current request: whether
  \<open>getClaims\<close> gave claims without an error, the user \<open>getUser\<close> returned, and the
  role \<open>getProfileForAuthUser\<close> found for that user (\<open>None\<close> is \<open>null\<close>). The
  allow-list is the set built from \<open>ALPHA_TECH_X_ADMIN_EMAILS\<close>.
\<close>

record session =
  claims_ok :: bool
  session_user :: "auth_user option"
  profile_role :: "string option"
  normalizedAllowlist :: "string list"

definition isAdminEmail :: "string list \<Rightarrow> string option \<Rightarrow> bool" where
  "isAdminEmail allowlist e =
     (case e of
        None \<Rightarrow> False
      | Some a \<Rightarrow> a \<noteq> [] \<and> toLowerCase (js_trim a) \<in> set allowlist)"

definition isAdminRole :: "string option \<Rightarrow> bool" where
  "isAdminRole role = (toLowerCase (case role of None \<Rightarrow> [] | Some r \<Rightarrow> r) = ''admin'')"

definition hasAdminAccess :: "string list \<Rightarrow> string option \<Rightarrow> string option \<Rightarrow> bool" where
  "hasAdminAccess allowlist e role = (isAdminEmail allowlist e \<or> isAdminRole role)"

definition getProfileRole :: "session \<Rightarrow> string option" where
  \<comment> \<open>\<open>getProfileForAuthUser(supabase, user?.id).role\<close>: no lookup without a user id\<close>
  "getProfileRole ses =
     (case session_user ses of
        None \<Rightarrow> None
      | Some u \<Rightarrow> if user_id u = [] then None else profile_role ses)"

definition isAdminSession :: "session \<Rightarrow> bool" where
  "isAdminSession ses =
     (if \<not> claims_ok ses then False
      else hasAdminAccess (normalizedAllowlist ses)
             (case session_user ses of None \<Rightarrow> None | Some u \<Rightarrow> user_email u)
             (getProfileRole ses))"

section \<open>Audit log reader\<close>

datatype LogStatus = LogSent | LogFailed

record LastLogStatus =
  last_status :: "LogStatus option"
  last_sent_at :: "string option"

text \<open>
  A row of \<open>send_logs\<close> as the store returns it for
  \<open>select("account_key,status,sent_at")\<close>; each column is a JSON value.
\<close>

record send_log_row =
  row_account_key :: json
  row_status :: json
  row_sent_at :: json

datatype query_result = QueryError | QueryData "send_log_row list option"

definition normalizeZipFilename :: "string \<Rightarrow> string" where
  "normalizeZipFilename v = js_trim v"

definition normalizeAccountKeys :: "string list \<Rightarrow> string list" where
  "normalizeAccountKeys accountKeys = uniqueAccountKeys accountKeys"

definition has_truthy_member :: "(string \<rightharpoonup> 'a) \<Rightarrow> string \<Rightarrow> bool" where
  \<comment> \<open>the truthiness of \<open>obj[key]\<close> for a plain object whose own values are objects\<close>
  "has_truthy_member obj k = (obj k \<noteq> None \<or> k \<in> set inherited_names)"

definition row_key :: "send_log_row \<Rightarrow> string option" where
  \<comment> \<open>\<open>normalizeAccountKey(row.account_key)\<close>; \<open>None\<close> when the conversion throws\<close>
  "row_key row = normalizeAccountKey (Some (row_account_key row))"

definition lastStatus_of_row :: "send_log_row \<Rightarrow> LastLogStatus" where
  \<comment> \<open>the object stored for a row: its status if it is one of the two known ones, and
      its \<open>sent_at\<close> if it is a string\<close>
  "lastStatus_of_row row =
     \<lparr> last_status =
         (if row_status row = JString ''sent'' then Some LogSent
          else if row_status row = JString ''failed'' then Some LogFailed
          else None),
       last_sent_at = (case row_sent_at row of JString t \<Rightarrow> Some t | _ \<Rightarrow> None) \<rparr>"

definition lastStatus_reducer ::
  "(string \<rightharpoonup> LastLogStatus) \<Rightarrow> send_log_row \<Rightarrow> (string \<rightharpoonup> LastLogStatus) option" where
  \<comment> \<open>the \<open>reduce\<close> callback of \<open>getLastSendStatusForZip\<close>; \<open>None\<close> when it throws\<close>
  "lastStatus_reducer acc row =
     (case row_key row of
        None \<Rightarrow> None
      | Some accountKey \<Rightarrow>
          if accountKey = [] \<or> has_truthy_member acc accountKey then Some acc
          else Some (acc(accountKey \<mapsto> lastStatus_of_row row)))"

fun reduce_rows ::
  "(string \<rightharpoonup> LastLogStatus) \<Rightarrow> send_log_row list \<Rightarrow> (string \<rightharpoonup> LastLogStatus) option" where
  \<comment> \<open>\<open>rows.reduce(callback, acc)\<close>: a throw of the callback ends the reduction\<close>
  "reduce_rows acc [] = Some acc"
| "reduce_rows acc (row # rs) =
     (case lastStatus_reducer acc row of
        None \<Rightarrow> None
      | Some next \<Rightarrow> reduce_rows next rs)"

text \<open>
  The store query
  \<open>.eq("zip_filename", zipFilename).in("account_key", normalizedKeys).order("sent_at", desc)\<close>
  is the collaborator \<open>select\<close>: it receives the normalized filename and keys. The
  result is the object the call resolves to; it is \<open>None\<close> when the call rejects, which
  it does when the conversion of a returned account key throws.
\<close>

definition getLastSendStatusForZip ::
  "session \<Rightarrow> (string \<Rightarrow> string list \<Rightarrow> query_result) \<Rightarrow> string \<Rightarrow> string list
   \<Rightarrow> (string \<rightharpoonup> LastLogStatus) option" where
  "getLastSendStatusForZip ses select zip_filename accountKeys =
     (if \<not> isAdminSession ses then Some Map.empty
      else
        let zipFilename = normalizeZipFilename zip_filename;
            normalizedKeys = normalizeAccountKeys accountKeys
        in if zipFilename = [] \<or> normalizedKeys = [] then Some Map.empty
           else (case select zipFilename normalizedKeys of
                   QueryError \<Rightarrow> Some Map.empty
                 | QueryData d \<Rightarrow>
                     reduce_rows Map.empty (case d of None \<Rightarrow> [] | Some rs \<Rightarrow> rs)))"

definition status_for :: "(string \<rightharpoonup> LastLogStatus) option \<Rightarrow> string \<Rightarrow> LastLogStatus option option" where
  \<comment> \<open>what a result of the call holds for a key: \<open>Some None\<close> when the call resolved to an
      object without the key, \<open>None\<close> when the call rejected\<close>
  "status_for res k = map_option (\<lambda>m. m k) res"

text \<open>
  The reduction as the specification words it, for comparison with the one above: for a
  key, the status and \<open>sent_at\<close> of the most recent entry by \<open>sent_at\<close> among the returned
  entries of that key, found as a maximum over them whatever their order. Timestamps are
  compared as the store prints them (ISO 8601 texts of one time zone order as their
  instants do); of two entries with the same timestamp the earlier returned one is kept.
\<close>

definition sent_at_text :: "send_log_row \<Rightarrow> string" where
  "sent_at_text row = (case row_sent_at row of JString t \<Rightarrow> t | _ \<Rightarrow> [])"

definition spec_most_recent :: "send_log_row list \<Rightarrow> string \<Rightarrow> LastLogStatus option" where
  "spec_most_recent returned k =
     (case filter (\<lambda>row. row_key row = Some k) returned of
        [] \<Rightarrow> None
      | r # rs \<Rightarrow>
          Some (lastStatus_of_row
                  (foldl (\<lambda>best x. if sent_at_text best < sent_at_text x then x else best) r rs)))"

section \<open>Send route\<close>

record SendLogInput =
  log_zip_filename :: string
  log_account_key :: string
  log_trade_date :: "string option"
  log_to_email :: string
  log_to_name :: "string option"
  log_status :: LogStatus
  log_error :: "string option"
  log_message_id :: "string option"
  log_sent_by_auth_user_id :: string

text \<open>
  The body of the JSON response. \<open>http_status\<close> is the status code; the other fields are
  the members of the object passed to \<open>Response.json\<close>, \<open>None\<close> for a member that is
  left out.
\<close>

record response =
  http_status :: nat
  resp_ok :: bool
  resp_error :: "string option"
  resp_dryRun :: bool
  resp_messageId :: "string option"
  resp_threadId :: "string option"

definition badRequest :: "string \<Rightarrow> response" where
  "badRequest err =
     \<lparr> http_status = 400, resp_ok = False, resp_error = Some err, resp_dryRun = False,
       resp_messageId = None, resp_threadId = None \<rparr>"

definition notAuthorized :: response where
  "notAuthorized =
     \<lparr> http_status = 401, resp_ok = False, resp_error = Some ''Not authorized.'',
       resp_dryRun = False, resp_messageId = None, resp_threadId = None \<rparr>"

definition serverError :: "string \<Rightarrow> response" where
  "serverError err =
     \<lparr> http_status = 500, resp_ok = False, resp_error = Some err, resp_dryRun = False,
       resp_messageId = None, resp_threadId = None \<rparr>"

definition toStringOrEmpty :: "json option \<Rightarrow> string option" where
  \<comment> \<open>\<open>String(value ?? "").trim()\<close>; \<open>None\<close> when the conversion throws\<close>
  "toStringOrEmpty v = map_option js_trim (String_or_empty v)"

definition EMAIL_PATTERN_test :: "string \<Rightarrow> bool" where
  \<comment> \<open>\<open>/^[^\<bsol>s@]+@[^\<bsol>s@]+\<bsol>.[^\<bsol>s@]+$/.test(s)\<close>: no white space, exactly one \<open>@\<close>,
      something before it, and after it a dot with something on both sides\<close>
  "EMAIL_PATTERN_test s =
     (let local = takeWhile (\<lambda>c. c \<noteq> CHR ''@'') s;
          domain = drop 1 (dropWhile (\<lambda>c. c \<noteq> CHR ''@'') s)
      in list_all (\<lambda>c. \<not> isWhiteSpace c) s
         \<and> length (filter (\<lambda>c. c = CHR ''@'') s) = 1
         \<and> local \<noteq> []
         \<and> CHR ''.'' \<in> set (butlast (drop 1 domain)))"

fun js_includes :: "string \<Rightarrow> string \<Rightarrow> bool" where
  "js_includes [] p = (p = [])"
| "js_includes (c # cs) p = (startsWith (c # cs) p \<or> js_includes cs p)"

subsection \<open>Masking addresses in error text\<close>

definition maskEmail :: "string \<Rightarrow> string" where
  "maskEmail e =
     (let normalized = toLowerCase (js_trim e)
      in case split_on CHR ''@'' normalized of
           local # domain # _ \<Rightarrow>
             if local = [] \<or> domain = [] then ''***''
             else if length local \<le> 2 then take 1 local @ ''***@'' @ domain
             else js_slice local 0 2 @ ''***@'' @ domain
         | _ \<Rightarrow> ''***'')"

text \<open>
  The pattern \<open>/\<bsol>b[A-Z0-9._%+-]+@[A-Z0-9.-]+\<bsol>.[A-Z]{2,}\<bsol>b/gi\<close> is a sequence of
  word-boundary assertions, single characters and greedy repetitions of a character
  class. With the \<open>i\<close> flag a class of ASCII letters matches both cases (and no
  character above 127). A greedy repetition first takes as many characters as the class
  allows and gives them back one at a time, down to its minimum, until the rest of the
  pattern matches.
\<close>

datatype re_item = WordBoundary | Chr char | ClassRepeat "char \<Rightarrow> bool" nat

definition isAsciiLetter :: "char \<Rightarrow> bool" where
  "isAsciiLetter c =
     (let n = (of_char c :: nat) in (65 \<le> n \<and> n \<le> 90) \<or> (97 \<le> n \<and> n \<le> 122))"

definition isAsciiDigit :: "char \<Rightarrow> bool" where
  "isAsciiDigit c = (let n = (of_char c :: nat) in 48 \<le> n \<and> n \<le> 57)"

definition isWordChar :: "char \<Rightarrow> bool" where
  "isWordChar c = (isAsciiLetter c \<or> isAsciiDigit c \<or> c = CHR ''_'')"

definition isLocalChar :: "char \<Rightarrow> bool" where
  \<comment> \<open>\<open>[A-Z0-9._%+-]\<close> under \<open>i\<close>\<close>
  "isLocalChar c =
     (isAsciiLetter c \<or> isAsciiDigit c \<or> c = CHR ''.'' \<or> c = CHR ''_'' \<or> c = CHR ''%''
      \<or> c = CHR ''+'' \<or> c = CHR ''-'')"

definition isDomainChar :: "char \<Rightarrow> bool" where
  \<comment> \<open>\<open>[A-Z0-9.-]\<close> under \<open>i\<close>\<close>
  "isDomainChar c = (isAsciiLetter c \<or> isAsciiDigit c \<or> c = CHR ''.'' \<or> c = CHR ''-'')"

definition EMAIL_IN_TEXT_PATTERN :: "re_item list" where
  "EMAIL_IN_TEXT_PATTERN =
     [WordBoundary, ClassRepeat isLocalChar 1, Chr CHR ''@'', ClassRepeat isDomainChar 1,
      Chr CHR ''.'', ClassRepeat isAsciiLetter 2, WordBoundary]"

definition wordCharAt :: "string \<Rightarrow> int \<Rightarrow> bool" where
  "wordCharAt s i = (0 \<le> i \<and> i < int (length s) \<and> isWordChar (s ! nat i))"

definition isWordBoundary :: "string \<Rightarrow> nat \<Rightarrow> bool" where
  "isWordBoundary s i = (wordCharAt s (int i - 1) \<noteq> wordCharAt s (int i))"

fun try_lengths :: "(nat \<Rightarrow> nat option) \<Rightarrow> nat \<Rightarrow> nat \<Rightarrow> nat option" where
  \<comment> \<open>\<open>try_lengths k lo hi\<close>: the continuation \<open>k\<close> on \<open>hi\<close>, \<open>hi - 1\<close>, ..., \<open>lo\<close>
      repetitions, the first success\<close>
  "try_lengths k lo 0 = (if lo = 0 then k 0 else None)"
| "try_lengths k lo (Suc h) =
     (if Suc h < lo then None
      else (case k (Suc h) of
              Some e \<Rightarrow> Some e
            | None \<Rightarrow> try_lengths k lo h))"

fun match_items :: "re_item list \<Rightarrow> string \<Rightarrow> nat \<Rightarrow> nat option" where
  \<comment> \<open>the end index of the match of the items starting at index \<open>i\<close>, if there is one\<close>
  "match_items [] s i = Some i"
| "match_items (WordBoundary # rs) s i =
     (if isWordBoundary s i then match_items rs s i else None)"
| "match_items (Chr c # rs) s i =
     (if i < length s \<and> s ! i = c then match_items rs s (i + 1) else None)"
| "match_items (ClassRepeat p n # rs) s i =
     try_lengths (\<lambda>j. match_items rs s (i + j)) n (length (takeWhile p (drop i s)))"

fun replace_scan ::
  "re_item list \<Rightarrow> (string \<Rightarrow> string) \<Rightarrow> string \<Rightarrow> nat list \<Rightarrow> nat \<Rightarrow> nat \<Rightarrow> string" where
  \<comment> \<open>\<open>s.replace(pattern, f)\<close> for a global pattern: the start positions are tried in
      order from \<open>lastIndex\<close>; a match is replaced and the search resumes at its end
      (one further after an empty match); \<open>np\<close> is the end of the text already copied\<close>
  "replace_scan pat f s [] lastIndex np = drop np s"
| "replace_scan pat f s (j # js) lastIndex np =
     (if j < lastIndex then replace_scan pat f s js lastIndex np
      else (case match_items pat s j of
              None \<Rightarrow> replace_scan pat f s js lastIndex np
            | Some e \<Rightarrow>
                take (j - np) (drop np s) @ f (take (e - j) (drop j s))
                @ replace_scan pat f s js (if e = j then e + 1 else e) e))"

definition replace_global :: "re_item list \<Rightarrow> (string \<Rightarrow> string) \<Rightarrow> string \<Rightarrow> string" where
  "replace_global pat f s = replace_scan pat f s [0..<Suc (length s)] 0 0"

definition sanitizeErrorMessage :: "string \<Rightarrow> string" where
  "sanitizeErrorMessage message = replace_global EMAIL_IN_TEXT_PATTERN maskEmail message"

text \<open>
  The same result described from the matches themselves. The matches of a global
  replacement are found from left to right, each the first match that starts at or after
  the end of the one before; \<open>leftmost_matches pat s p ms\<close> says that \<open>ms\<close>, pairs of a
  start and an end index, are those matches from index \<open>p\<close> on, and
  \<open>replace_matches f s p ms\<close> is the text from \<open>p\<close> on with each of them replaced.
\<close>

fun leftmost_matches :: "re_item list \<Rightarrow> string \<Rightarrow> nat \<Rightarrow> (nat \<times> nat) list \<Rightarrow> bool" where
  "leftmost_matches pat s p [] =
     (\<forall>j\<in>set [p..<Suc (length s)]. match_items pat s j = None)"
| "leftmost_matches pat s p ((i, e) # ms) =
     (p \<le> i \<and> match_items pat s i = Some e
      \<and> (\<forall>j\<in>set [p..<i]. match_items pat s j = None)
      \<and> leftmost_matches pat s e ms)"

fun replace_matches :: "(string \<Rightarrow> string) \<Rightarrow> string \<Rightarrow> nat \<Rightarrow> (nat \<times> nat) list \<Rightarrow> string" where
  "replace_matches f s p [] = drop p s"
| "replace_matches f s p ((i, e) # ms) =
     take (i - p) (drop p s) @ f (take (e - i) (drop i s)) @ replace_matches f s e ms"

subsection \<open>The handler\<close>

text \<open>
  What is given to the provider is the raw message built by \<open>buildRawMimeMessage\<close>.
  Its text is a template over the greeting name and the trade date; the model keeps
  those two and leaves the fixed wording out. The attachment name is written into the
  message with its double quotes removed.
\<close>

record mime_params =
  mime_from :: string
  mime_to :: string
  mime_subject :: string
  mime_greeting :: string
  mime_trade_date :: "string option"
  mime_filename :: string
  mime_pdf :: string

datatype provider_result = ProviderThrew thrown | ProviderReturned "string option" "string option"

text \<open>
  The configuration and the collaborators of the route: the sender address from the
  environment, \<open>Buffer.from(_, "base64")\<close>, what \<open>getGmailClient()\<close> throws if it throws,
  and the answer of \<open>gmail.users.messages.send\<close> (its \<open>id\<close> and \<open>threadId\<close>, or what it
  throws).
\<close>

record route_env =
  GMAIL_SENDER_EMAIL :: "string option"
  Buffer_from_base64 :: "string \<Rightarrow> string"
  getGmailClient :: "thrown option"
  gmail_send :: "mime_params \<Rightarrow> provider_result"

record route_request =
  req_session :: session
  req_json :: "json option"
  req_dryRun :: "string option"

datatype route_effect = GmailSend mime_params | WriteSendLog SendLogInput

datatype route_result = Responded response | Unhandled

record route_outcome =
  result :: route_result
  effects :: "route_effect list"

definition respond :: "response \<Rightarrow> route_effect list \<Rightarrow> route_outcome" where
  "respond r es = \<lparr> result = Responded r, effects = es \<rparr>"

definition removeQuotes :: "string \<Rightarrow> string" where
  "removeQuotes s = filter (\<lambda>c. c \<noteq> CHR 0x22) s"

definition unhandled :: route_outcome where
  \<comment> \<open>the handler threw outside every \<open>try\<close>: it gives no response and has done nothing\<close>
  "unhandled = \<lparr> result = Unhandled, effects = [] \<rparr>"

definition POST :: "route_env \<Rightarrow> route_request \<Rightarrow> route_outcome" where
  "POST env request =
     (let ses = req_session request in
      if \<not> claims_ok ses then respond notAuthorized []
      else (case session_user ses of
        None \<Rightarrow> respond notAuthorized []
      | Some user \<Rightarrow>
      if \<not> hasAdminAccess (normalizedAllowlist ses) (user_email user) (getProfileRole ses)
      then respond notAuthorized []
      else (case req_json request of
        None \<Rightarrow> respond (badRequest ''Invalid request body.'') []
      | Some JNull \<Rightarrow> unhandled
      | Some body \<Rightarrow>
      (case toStringOrEmpty (js_prop body ''zip_filename'') of
        None \<Rightarrow> unhandled
      | Some zipFilename \<Rightarrow>
      (case toStringOrEmpty (js_prop body ''account_key'') of
        None \<Rightarrow> unhandled
      | Some accountKey \<Rightarrow>
      (case toStringOrEmpty (js_prop body ''trade_date'') of
        None \<Rightarrow> unhandled
      | Some tradeDateRaw \<Rightarrow>
      (case toStringOrEmpty (js_prop body ''to_email'') of
        None \<Rightarrow> unhandled
      | Some toEmailRaw \<Rightarrow>
      (case toStringOrEmpty (js_prop body ''to_name'') of
        None \<Rightarrow> unhandled
      | Some toNameRaw \<Rightarrow>
      (case toStringOrEmpty (js_prop body ''filename'') of
        None \<Rightarrow> unhandled
      | Some filename \<Rightarrow>
      (case toStringOrEmpty (js_prop body ''pdf_base64'') of
        None \<Rightarrow> unhandled
      | Some pdfBase64 \<Rightarrow>
      (let tradeDate = (if tradeDateRaw = [] then None else Some tradeDateRaw);
           toEmail = toLowerCase toEmailRaw;
           toName = (if toNameRaw = [] then None else Some toNameRaw)
       in
       if zipFilename = [] then respond (badRequest ''zip_filename is required.'') []
       else if accountKey = [] then respond (badRequest ''account_key is required.'') []
       else if \<not> EMAIL_PATTERN_test toEmail \<or> \<not> js_includes toEmail ''@''
       then respond (badRequest ''to_email must be a valid email address.'') []
       else if \<not> endsWith (toLowerCase filename) ''.pdf''
       then respond (badRequest ''filename must end with .pdf.'') []
       else if pdfBase64 = [] then respond (badRequest ''pdf_base64 is required.'') []
       else
       (let pdfBuffer = Buffer_from_base64 env pdfBase64 in
        \<comment> \<open>decoding a string never throws, so the \<open>catch\<close> around it is never entered\<close>
        if length pdfBuffer = 0
        then respond (badRequest ''pdf attachment must be non-empty.'') []
        else
        (let senderEmail = map_option js_trim (GMAIL_SENDER_EMAIL env);
             logEntry = (\<lambda>st err mid.
               \<lparr> log_zip_filename = zipFilename, log_account_key = accountKey,
                 log_trade_date = tradeDate, log_to_email = toEmail, log_to_name = toName,
                 log_status = st, log_error = err, log_message_id = mid,
                 log_sent_by_auth_user_id = user_id user \<rparr>)
         in
         (case (case senderEmail of
                  None \<Rightarrow> None
                | Some a \<Rightarrow> if a = [] \<or> \<not> EMAIL_PATTERN_test a then None else Some a) of
            None \<Rightarrow>
              (let message = ''GMAIL_SENDER_EMAIL is missing or invalid.''
               in respond (serverError message)
                    [WriteSendLog (logEntry LogFailed (Some message) None)])
          | Some sender \<Rightarrow>
         if req_dryRun request = Some ''1''
         then respond \<lparr> http_status = 200, resp_ok = True, resp_error = None,
                        resp_dryRun = True, resp_messageId = None, resp_threadId = None \<rparr> []
         else
         (let toAddress =
                (case toName of
                   None \<Rightarrow> toEmail
                 | Some n \<Rightarrow>
                     [CHR 0x22] @ removeQuotes n @ [CHR 0x22] @ '' <'' @ toEmail @ ''>'');
              subject = ''Bill '' @ accountKey
                          @ (case tradeDate of None \<Rightarrow> [] | Some d \<Rightarrow> '' '' @ d);
              params = \<lparr> mime_from = sender, mime_to = toAddress, mime_subject = subject,
                         mime_greeting = (case toName of None \<Rightarrow> accountKey | Some n \<Rightarrow> n),
                         mime_trade_date = tradeDate, mime_filename = removeQuotes filename,
                         mime_pdf = pdfBuffer \<rparr>;
              caught = (\<lambda>err es.
                let message = sanitizeErrorMessage
                      (case err of
                         Error m \<Rightarrow> if js_trim m \<noteq> [] then m else ''Failed to send email.''
                       | NonError \<Rightarrow> ''Failed to send email.'')
                in respond (serverError message)
                     (es @ [WriteSendLog (logEntry LogFailed (Some message) None)]))
          in
          (case getGmailClient env of
             Some err \<Rightarrow> caught err []
           | None \<Rightarrow>
          (case gmail_send env params of
             ProviderThrew err \<Rightarrow> caught err [GmailSend params]
           | ProviderReturned None threadId \<Rightarrow>
               (let message = ''Failed to send email.''
                in respond (serverError message)
                     [GmailSend params, WriteSendLog (logEntry LogFailed (Some message) None)])
           | ProviderReturned (Some messageId) threadId \<Rightarrow>
               if messageId = [] then
                 (let message = ''Failed to send email.''
                  in respond (serverError message)
                       [GmailSend params,
                        WriteSendLog (logEntry LogFailed (Some message) None)])
               else respond \<lparr> http_status = 200, resp_ok = True, resp_error = None,
                              resp_dryRun = False, resp_messageId = Some messageId,
                              resp_threadId = threadId \<rparr>
                      [GmailSend params,
                       WriteSendLog (logEntry LogSent None (Some messageId))])))))))))))))))))"

fun log_writes :: "route_effect list \<Rightarrow> SendLogInput list" where
  \<comment> \<open>the send-log entries among the effects of a request\<close>
  "log_writes [] = []"
| "log_writes (WriteSendLog entry # es) = entry # log_writes es"
| "log_writes (GmailSend params # es) = log_writes es"

definition thrown_message :: "thrown \<Rightarrow> string" where
  \<comment> \<open>the argument of \<open>sanitizeErrorMessage\<close> in the \<open>catch\<close> of the handler\<close>
  "thrown_message err =
     (case err of
        Error m \<Rightarrow> if js_trim m \<noteq> [] then m else ''Failed to send email.''
      | NonError \<Rightarrow> ''Failed to send email.'')"

section \<open>Send console\<close>

datatype SendState = idle | sending | sent | failed

record RowSendState =
  send_state :: SendState
  send_error :: "string option"

record ZipSummary =
  zipFilename :: string
  rowCount :: nat
  source :: ParseSource

text \<open>
  The state of the component: the \<open>useState\<close> cells the send logic reads or writes, and
  the archive handle \<open>zipRef.current\<close>. The filter, search and add-contact cells are left
  out.
\<close>

record console =
  rows :: "BillRow list"
  rowSendStates :: "string \<rightharpoonup> RowSendState"
  selectedRowIds :: "string \<rightharpoonup> bool"
  skipAlreadySent :: bool
  lastLogStatusByKey :: "string \<rightharpoonup> LastLogStatus"
  summary :: "ZipSummary option"
  messages :: "string list"
  isParsingZip :: bool
  isSendingAll :: bool
  actionError :: string
  zipRef :: "zip option"

definition initial_console :: console where
  \<comment> \<open>the initial values given to \<open>useState\<close> and \<open>useRef\<close>\<close>
  "initial_console =
     \<lparr> rows = [], rowSendStates = Map.empty, selectedRowIds = Map.empty,
       skipAlreadySent = True, lastLogStatusByKey = Map.empty, summary = None,
       messages = [], isParsingZip = False, isSendingAll = False, actionError = [],
       zipRef = None \<rparr>"

record SendEmailRequestBody =
  body_zip_filename :: string
  body_account_key :: string
  body_trade_date :: "string option"
  body_to_email :: "string option"
  body_to_name :: "string option"
  body_filename :: string
  body_pdf_base64 :: string

record fetch_payload =
  payload_ok :: bool
  payload_error :: "string option"

text \<open>
  What \<open>fetch\<close> gives: a rejection, or a response with its \<open>ok\<close> flag and the body parsed
  as JSON (\<open>None\<close> when the body is not JSON or is \<open>null\<close>).
\<close>

datatype fetch_result = FetchRejected thrown | FetchResponse bool "fetch_payload option"

text \<open>
  The collaborators of the console act on a world \<open>'w\<close> the console does not see: the
  send route behind \<open>fetch\<close>, the two server actions, and the browser's encoders. A server
  action either resolves with its result or rejects.
\<close>

record 'w collab =
  fetch_send_email :: "SendEmailRequestBody \<Rightarrow> 'w \<Rightarrow> fetch_result \<times> 'w"
  last_send_status_for_zip ::
    "string \<Rightarrow> string list \<Rightarrow> 'w \<Rightarrow> (thrown + (string \<rightharpoonup> LastLogStatus)) \<times> 'w"
  get_contacts_by_keys :: "string list \<Rightarrow> 'w \<Rightarrow> (thrown + (string \<rightharpoonup> Contact)) \<times> 'w"
  toBase64 :: "string \<Rightarrow> thrown + string"
  JSON_parse :: "string \<Rightarrow> json option"

text \<open>
  What can be observed of a run: the calls to the send route, the audit-log queries with
  the filename and keys they ask for and what the call rejected with (\<open>None\<close> when it
  resolved), and each \<open>setRowSendState(rowId, ...)\<close> with the value of \<open>rowSendStates\<close>
  after it.
\<close>

datatype event =
    Fetch SendEmailRequestBody
  | AuditQuery string "string list" "thrown option"
  | RowStateSet string "string \<rightharpoonup> RowSendState"

definition rejection :: "thrown + 'a \<Rightarrow> thrown option" where
  "rejection res = (case res of Inl err \<Rightarrow> Some err | Inr v \<Rightarrow> None)"

record 'w sys =
  ui :: console
  world :: 'w
  trace :: "event list"

definition consoleZipFilename :: "console \<Rightarrow> string" where
  \<comment> \<open>\<open>const zipFilename = summary?.zipFilename.trim() ?? ""\<close>\<close>
  "consoleZipFilename c = (case summary c of None \<Rightarrow> [] | Some sm \<Rightarrow> js_trim (zipFilename sm))"

definition getRowId :: "BillRow \<Rightarrow> string" where
  "getRowId row = account_key row @ ''::'' @ zip_entry_path row @ ''::'' @ pdf_filename row"

definition findPdfEntry :: "zip \<Rightarrow> BillRow \<Rightarrow> zip_entry option" where
  "findPdfEntry z row =
     (case zip_file z (zip_entry_path row) of
        Some e \<Rightarrow> Some e
      | None \<Rightarrow>
          (case zip_file z (pdf_filename row) of
             Some e \<Rightarrow> Some e
           | None \<Rightarrow>
               find (\<lambda>file. \<not> entry_dir file
                       \<and> getBaseName (entry_name file) = getBaseName (pdf_filename row)) z))"

definition setRowSendState ::
  "string \<Rightarrow> SendState \<Rightarrow> string option \<Rightarrow> 'w sys \<Rightarrow> 'w sys" where
  "setRowSendState rowId st err s =
     (let m = (rowSendStates (ui s))(rowId \<mapsto> \<lparr> send_state = st, send_error = err \<rparr>)
      in s\<lparr> ui := (ui s)\<lparr> rowSendStates := m \<rparr>, trace := trace s @ [RowStateSet rowId m] \<rparr>)"

definition lastLogStatusOf :: "console \<Rightarrow> string \<Rightarrow> LogStatus option" where
  \<comment> \<open>\<open>lastLogStatusByKey[key]?.status ?? null\<close>\<close>
  "lastLogStatusOf c k = (case lastLogStatusByKey c k of None \<Rightarrow> None | Some l \<Rightarrow> last_status l)"

definition shouldSkipRowBecauseSentEarlier :: "console \<Rightarrow> BillRow \<Rightarrow> bool" where
  "shouldSkipRowBecauseSentEarlier c row =
     (if \<not> skipAlreadySent c then False
      else lastLogStatusOf c (account_key row) = Some LogSent)"

definition sendStateOf :: "console \<Rightarrow> string \<Rightarrow> SendState option" where
  \<comment> \<open>\<open>rowSendStates[rowId]?.send_state\<close>\<close>
  "sendStateOf c rowId = map_option send_state (rowSendStates c rowId)"

text \<open>
  Every function of the component reads the state cells of the render it was created
  in (\<open>snap\<close> below) and writes through the setters, which act on the current state
  (\<open>ui s\<close>). \<open>zipRef.current\<close> is read from the current state.
\<close>

definition refresh_merge ::
  "string list \<Rightarrow> (string \<rightharpoonup> LastLogStatus) \<Rightarrow> (string \<rightharpoonup> LastLogStatus)
   \<Rightarrow> (string \<rightharpoonup> LastLogStatus)" where
  \<comment> \<open>the loop over \<open>normalizedKeys\<close> in the updater of \<open>refreshLastLogStatusForKeys\<close>;
      for a key that \<open>latestStatus\<close> only inherits, the inherited member is stored, whose
      \<open>status\<close> and \<open>sent_at\<close> read as \<open>undefined\<close>\<close>
  "refresh_merge keys latestStatus start =
     foldl (\<lambda>next key.
              case latestStatus key of
                Some latestForKey \<Rightarrow> next(key \<mapsto> latestForKey)
              | None \<Rightarrow>
                  if key \<in> set inherited_names
                  then next(key \<mapsto> \<lparr> last_status = None, last_sent_at = None \<rparr>)
                  else next(key := None))
           start keys"

definition refreshLastLogStatusForKeys ::
  "'w collab \<Rightarrow> console \<Rightarrow> string list \<Rightarrow> 'w sys \<Rightarrow> (thrown + unit) \<times> 'w sys" where
  "refreshLastLogStatusForKeys col snap keysToRefresh s =
     (let normalizedKeys =
            (if keysToRefresh \<noteq> [] then uniqueAccountKeys keysToRefresh
             else uniqueAccountKeys (map account_key (rows snap)))
      in if consoleZipFilename snap = [] \<or> normalizedKeys = [] then
           (if consoleZipFilename snap = []
            then (Inr (), s\<lparr> ui := (ui s)\<lparr> lastLogStatusByKey := Map.empty \<rparr> \<rparr>)
            else (Inr (), s))
         else
           (case last_send_status_for_zip col (consoleZipFilename snap) normalizedKeys (world s) of
              (res, w) \<Rightarrow>
                let s1 = s\<lparr> world := w,
                            trace := trace s @ [AuditQuery (consoleZipFilename snap) normalizedKeys
                                                  (rejection res)] \<rparr>
                in (case res of
                      Inl err \<Rightarrow> (Inl err, s1)
                    | Inr latestStatus \<Rightarrow>
                        (Inr (),
                         s1\<lparr> ui := (ui s1)\<lparr> lastLogStatusByKey :=
                               refresh_merge normalizedKeys latestStatus
                                 (if keysToRefresh \<noteq> [] then lastLogStatusByKey (ui s1)
                                  else Map.empty) \<rparr> \<rparr>))))"

definition send_request_body :: "console \<Rightarrow> BillRow \<Rightarrow> string \<Rightarrow> SendEmailRequestBody" where
  \<comment> \<open>the object given to \<open>JSON.stringify\<close> in \<open>sendEmailForRow\<close>\<close>
  "send_request_body snap row pdfBase64 =
     \<lparr> body_zip_filename = consoleZipFilename snap,
       body_account_key = account_key row,
       body_trade_date = trade_date row,
       body_to_email = contact_email row,
       body_to_name = contact_name row,
       body_filename = pdf_filename row,
       body_pdf_base64 = pdfBase64 \<rparr>"

definition send_catch :: "string \<Rightarrow> thrown \<Rightarrow> 'w sys \<Rightarrow> bool \<times> 'w sys" where
  \<comment> \<open>the \<open>catch\<close> of \<open>sendEmailForRow\<close>\<close>
  "send_catch rowId err s =
     (let errorMessage = (case err of Error m \<Rightarrow> m | NonError \<Rightarrow> ''Failed to send email.'')
      in (False, setRowSendState rowId failed (Some errorMessage) s))"

definition send_try :: "'w collab \<Rightarrow> console \<Rightarrow> BillRow \<Rightarrow> 'w sys \<Rightarrow> bool \<times> 'w sys" where
  \<comment> \<open>the \<open>try\<close> block of \<open>sendEmailForRow\<close> together with its \<open>catch\<close>\<close>
  "send_try col snap row s =
     (let rowId = getRowId row in
      case zipRef (ui s) of
        None \<Rightarrow> send_catch rowId (Error ''ZIP data is not available. Re-upload the file.'') s
      | Some z \<Rightarrow>
      (case findPdfEntry z row of
        None \<Rightarrow> send_catch rowId (Error (''Could not find PDF in ZIP: '' @ pdf_filename row)) s
      | Some pdfEntry \<Rightarrow>
      (case entry_data pdfEntry of
        Inl err \<Rightarrow> send_catch rowId err s
      | Inr pdfArrayBuffer \<Rightarrow>
      (case toBase64 col pdfArrayBuffer of
        Inl err \<Rightarrow> send_catch rowId err s
      | Inr pdfBase64 \<Rightarrow>
      let body = send_request_body snap row pdfBase64
      in (case fetch_send_email col body (world s) of
            (res, w) \<Rightarrow>
              let s1 = s\<lparr> world := w, trace := trace s @ [Fetch body] \<rparr>
              in (case res of
                    FetchRejected err \<Rightarrow> send_catch rowId err s1
                  | FetchResponse response_ok payload \<Rightarrow>
                      if \<not> response_ok \<or> \<not> (case payload of None \<Rightarrow> False | Some p \<Rightarrow> payload_ok p)
                      then
                        let errorMessage =
                              (case (case payload of None \<Rightarrow> None | Some p \<Rightarrow> payload_error p) of
                                 None \<Rightarrow> ''Failed to send email.''
                               | Some m \<Rightarrow> m)
                        in (False, setRowSendState rowId failed (Some errorMessage) s1)
                      else (True, setRowSendState rowId sent None s1)))))))"

definition sendEmailForRow ::
  "'w collab \<Rightarrow> console \<Rightarrow> BillRow \<Rightarrow> 'w sys \<Rightarrow> (thrown + bool) \<times> 'w sys" where
  "sendEmailForRow col snap row s =
     (let rowId = getRowId row;
          currentState = (case sendStateOf snap rowId of None \<Rightarrow> idle | Some st \<Rightarrow> st)
      in if currentState = sending then (Inr False, s)
         else if contact_email row = None \<or> contact_email row = Some []
         then (Inr False, setRowSendState rowId failed (Some ''No contact email available.'') s)
         else if consoleZipFilename snap = []
         then (Inr False,
               setRowSendState rowId failed
                 (Some ''ZIP filename is unavailable. Re-upload the file.'') s)
         else
           let s1 = s\<lparr> ui := (ui s)\<lparr> actionError := [] \<rparr> \<rparr>;
               s2 = setRowSendState rowId sending None s1
           in (case send_try col snap row s2 of
                 (r, s3) \<Rightarrow>
                   (case refreshLastLogStatusForKeys col snap [account_key row] s3 of
                      (Inl err, s4) \<Rightarrow> (Inl err, s4)
                    | (Inr u, s4) \<Rightarrow> (Inr r, s4))))"

fun send_rows ::
  "'w collab \<Rightarrow> console \<Rightarrow> BillRow list \<Rightarrow> 'w sys \<Rightarrow> thrown option \<times> 'w sys" where
  \<comment> \<open>\<open>for (const row of rowsToSend) { await sendEmailForRow(row); }\<close>: a rejection
      leaves the loop\<close>
  "send_rows col snap [] s = (None, s)"
| "send_rows col snap (row # remaining) s =
     (case sendEmailForRow col snap row s of
        (Inl err, s1) \<Rightarrow> (Some err, s1)
      | (Inr b, s1) \<Rightarrow> send_rows col snap remaining s1)"

definition setIsSendingAll :: "bool \<Rightarrow> 'w sys \<Rightarrow> 'w sys" where
  "setIsSendingAll b s = s\<lparr> ui := (ui s)\<lparr> isSendingAll := b \<rparr> \<rparr>"

definition setActionError :: "string \<Rightarrow> 'w sys \<Rightarrow> 'w sys" where
  "setActionError m s = s\<lparr> ui := (ui s)\<lparr> actionError := m \<rparr> \<rparr>"

definition sendPending_rowsToSend :: "console \<Rightarrow> BillRow list" where
  \<comment> \<open>the filter of \<open>sendPending\<close>\<close>
  "sendPending_rowsToSend snap =
     filter (\<lambda>row.
        if status row \<noteq> Pending then False
        else if shouldSkipRowBecauseSentEarlier snap row then False
        else sendStateOf snap (getRowId row) \<noteq> Some sent) (rows snap)"

definition sendPending :: "'w collab \<Rightarrow> console \<Rightarrow> 'w sys \<Rightarrow> thrown option \<times> 'w sys" where
  "sendPending col snap s =
     (if isSendingAll snap then (None, s)
      else if consoleZipFilename snap = []
      then (None, setActionError ''ZIP filename is unavailable. Re-upload the file.'' s)
      else
        let s1 = setIsSendingAll True (setActionError [] s)
        in (case send_rows col snap (sendPending_rowsToSend snap) s1 of
              (r, s2) \<Rightarrow> (r, setIsSendingAll False s2)))"

definition sendSelected_rowsToSend :: "console \<Rightarrow> BillRow list" where
  \<comment> \<open>the filter of \<open>sendSelectedPendingRows\<close>\<close>
  "sendSelected_rowsToSend snap =
     filter (\<lambda>row.
        let rowId = getRowId row
        in if selectedRowIds snap rowId \<noteq> Some True \<or> status row \<noteq> Pending then False
           else if shouldSkipRowBecauseSentEarlier snap row then False
           else sendStateOf snap rowId \<noteq> Some sent) (rows snap)"

definition sendSelectedPendingRows ::
  "'w collab \<Rightarrow> console \<Rightarrow> 'w sys \<Rightarrow> thrown option \<times> 'w sys" where
  "sendSelectedPendingRows col snap s =
     (if isSendingAll snap then (None, s)
      else if consoleZipFilename snap = []
      then (None, setActionError ''ZIP filename is unavailable. Re-upload the file.'' s)
      else
        let rowsToSend = sendSelected_rowsToSend snap
        in if rowsToSend = [] then (None, setActionError ''No eligible selected rows to send.'' s)
           else
             let s1 = setIsSendingAll True (setActionError [] s)
             in (case send_rows col snap rowsToSend s1 of
                   (r, s2) \<Rightarrow> (r, setIsSendingAll False s2)))"

definition retryAllFailed_rowsToRetry :: "console \<Rightarrow> BillRow list" where
  \<comment> \<open>the filter of \<open>retryAllFailed\<close>\<close>
  "retryAllFailed_rowsToRetry snap =
     filter (\<lambda>row.
        if status row \<noteq> Pending then False
        else if lastLogStatusOf snap (account_key row) \<noteq> Some LogFailed then False
        else sendStateOf snap (getRowId row) \<noteq> Some sent) (rows snap)"

definition retryAllFailed :: "'w collab \<Rightarrow> console \<Rightarrow> 'w sys \<Rightarrow> thrown option \<times> 'w sys" where
  "retryAllFailed col snap s =
     (if isSendingAll snap then (None, s)
      else if consoleZipFilename snap = []
      then (None, setActionError ''ZIP filename is unavailable. Re-upload the file.'' s)
      else
        let rowsToRetry = retryAllFailed_rowsToRetry snap
        in if rowsToRetry = [] then (None, setActionError ''No failed rows to retry.'' s)
           else
             let s1 = setIsSendingAll True (setActionError [] s)
             in (case send_rows col snap rowsToRetry s1 of
                   (r, s2) \<Rightarrow> (r, setIsSendingAll False s2)))"

definition syncContactsForKeys ::
  "'w collab \<Rightarrow> string list \<Rightarrow> 'w sys \<Rightarrow> (thrown + unit) \<times> 'w sys" where
  "syncContactsForKeys col keysToRefresh s =
     (let uniqueKeys = uniqueAccountKeys keysToRefresh
      in if uniqueKeys = [] then (Inr (), s)
         else (case get_contacts_by_keys col uniqueKeys (world s) of
                 (Inl err, w) \<Rightarrow> (Inl err, s\<lparr> world := w \<rparr>)
               | (Inr contactsByKey, w) \<Rightarrow>
                   (Inr (),
                    s\<lparr> world := w,
                       ui := (ui s)\<lparr> rows :=
                         map (\<lambda>row. if account_key row \<notin> set uniqueKeys then row
                                     else mergeRow contactsByKey row)
                             (rows (ui s)) \<rparr> \<rparr>)))"

text \<open>
  \<open>parseUploadedZip\<close>: \<open>loaded\<close> is what \<open>JSZip.loadAsync(file)\<close> resolves to or rejects
  with. \<open>parse_try\<close> is the \<open>try\<close> block: it returns what it throws, if it throws, and
  the state it has reached. The \<open>catch\<close> leaves \<open>zipRef.current\<close> as it was.
\<close>

definition parse_try ::
  "'w collab \<Rightarrow> string \<Rightarrow> thrown + zip \<Rightarrow> 'w sys \<Rightarrow> thrown option \<times> 'w sys" where
  "parse_try col file_name loaded s =
     (case loaded of
        Inl err \<Rightarrow> (Some err, s)
      | Inr z \<Rightarrow>
      (case (case zip_file z ''manifest.json'' of
               None \<Rightarrow> Inr (fallback, [], [])
             | Some manifestFile \<Rightarrow>
                 (case entry_data manifestFile of
                    Inl err \<Rightarrow> Inl err
                  | Inr manifestRawText \<Rightarrow> Inr (parseManifest (JSON_parse col manifestRawText)))) of
        Inl err \<Rightarrow> (Some err, s)
      | Inr (source0, manifestRows, parseMessages) \<Rightarrow>
      let parsedRows = (if source0 \<noteq> manifest then parseFallbackRows z else manifestRows) in
      if parsedRows = [] then
        (None,
         s\<lparr> ui := (ui s)\<lparr> zipRef := Some z, rows := [], rowSendStates := Map.empty,
                selectedRowIds := Map.empty, lastLogStatusByKey := Map.empty,
                summary := Some \<lparr> zipFilename = file_name, rowCount = 0, source = source0 \<rparr>,
                messages := parseMessages @ [''No bill PDFs found''] \<rparr> \<rparr>)
      else
      let accountKeys = uniqueAccountKeys (map account_key parsedRows) in
      (case get_contacts_by_keys col accountKeys (world s) of
        (Inl err, w) \<Rightarrow> (Some err, s\<lparr> world := w \<rparr>)
      | (Inr contactsByKey, w) \<Rightarrow>
      (case last_send_status_for_zip col file_name accountKeys w of
        (res, w') \<Rightarrow>
      let s1 = s\<lparr> world := w',
                  trace := trace s @ [AuditQuery file_name accountKeys (rejection res)] \<rparr> in
      (case res of
        Inl err \<Rightarrow> (Some err, s1)
      | Inr latestStatusByKey \<Rightarrow>
      let mergedRows = mergeRowsWithContacts parsedRows contactsByKey in
      (None,
       s1\<lparr> ui := (ui s1)\<lparr> zipRef := Some z, rows := mergedRows, rowSendStates := Map.empty,
               selectedRowIds := Map.empty, lastLogStatusByKey := latestStatusByKey,
               summary := Some \<lparr> zipFilename = file_name, rowCount = length mergedRows,
                                 source = source0 \<rparr>,
               messages := parseMessages \<rparr> \<rparr>))))))"

definition parseUploadedZip :: "'w collab \<Rightarrow> string \<Rightarrow> thrown + zip \<Rightarrow> 'w sys \<Rightarrow> 'w sys" where
  "parseUploadedZip col file_name loaded s =
     (let s0 = s\<lparr> ui := (ui s)\<lparr> isParsingZip := True, messages := [], actionError := [],
                      rowSendStates := Map.empty, selectedRowIds := Map.empty,
                      lastLogStatusByKey := Map.empty \<rparr> \<rparr>;
          s2 = (case parse_try col file_name loaded s0 of
                  (None, s1) \<Rightarrow> s1
                | (Some err, s1) \<Rightarrow>
                    s1\<lparr> ui := (ui s1)\<lparr> rows := [], rowSendStates := Map.empty,
                          selectedRowIds := Map.empty, lastLogStatusByKey := Map.empty,
                          summary := None,
                          messages := [case err of Error m \<Rightarrow> m
                                       | NonError \<Rightarrow> ''Failed to parse ZIP file.''] \<rparr> \<rparr>)
      in s2\<lparr> ui := (ui s2)\<lparr> isParsingZip := False \<rparr> \<rparr>)"

subsection \<open>Observing a run\<close>

text \<open>
  The events a run adds to the trace, the request bodies among them, the successive
  values of \<open>rowSendStates\<close> among them, the audit-log queries among them, and the ids
  of the rows that a value of \<open>rowSendStates\<close> holds in state \<open>sending\<close>.
\<close>

definition events_since :: "'w sys \<Rightarrow> 'w sys \<Rightarrow> event list" where
  "events_since s s' = drop (length (trace s)) (trace s')"

fun fetch_bodies :: "event list \<Rightarrow> SendEmailRequestBody list" where
  "fetch_bodies [] = []"
| "fetch_bodies (Fetch b # es) = b # fetch_bodies es"
| "fetch_bodies (AuditQuery z ks out # es) = fetch_bodies es"
| "fetch_bodies (RowStateSet i m # es) = fetch_bodies es"

fun snapshots :: "event list \<Rightarrow> (string \<rightharpoonup> RowSendState) list" where
  "snapshots [] = []"
| "snapshots (Fetch b # es) = snapshots es"
| "snapshots (AuditQuery z ks out # es) = snapshots es"
| "snapshots (RowStateSet i m # es) = m # snapshots es"

definition isSendingIn :: "(string \<rightharpoonup> RowSendState) \<Rightarrow> string \<Rightarrow> bool" where
  "isSendingIn m rowId = (map_option send_state (m rowId) = Some sending)"

definition sendingRowIds :: "(string \<rightharpoonup> RowSendState) \<Rightarrow> BillRow list \<Rightarrow> string list" where
  "sendingRowIds m rs = remdups (filter (isSendingIn m) (map getRowId rs))"

fun audit_queries :: "event list \<Rightarrow> (string \<times> string list \<times> thrown option) list" where
  "audit_queries [] = []"
| "audit_queries (AuditQuery z ks out # es) = (z, ks, out) # audit_queries es"
| "audit_queries (Fetch b # es) = audit_queries es"
| "audit_queries (RowStateSet i m # es) = audit_queries es"

fun rejections :: "event list \<Rightarrow> thrown list" where
  \<comment> \<open>what the rejected audit-log queries among the events rejected with\<close>
  "rejections [] = []"
| "rejections (AuditQuery z ks (Some err) # es) = err # rejections es"
| "rejections (AuditQuery z ks None # es) = rejections es"
| "rejections (Fetch b # es) = rejections es"
| "rejections (RowStateSet i m # es) = rejections es"

text \<open>
  The events of one row's send. A call for a row that is \<open>sending\<close> in the render it
  belongs to adds nothing, and a call refused for want of a contact email or of the
  archive filename only sets the row to \<open>failed\<close>. Every other call sets the row to
  \<open>sending\<close>, then makes its attempt and then its follow-up query. The attempt sets the
  row to \<open>failed\<close> without a request, or sends one request built from the row and sets the
  row to \<open>sent\<close> or \<open>failed\<close>. The follow-up is the audit-log query for the archive
  filename of the render and the row's key; it is left out only for a blank key.
\<close>

definition sets_row :: "string \<Rightarrow> SendState \<Rightarrow> event \<Rightarrow> bool" where
  "sets_row rowId st e =
     (case e of
        RowStateSet i m \<Rightarrow> i = rowId \<and> map_option send_state (m rowId) = Some st
      | _ \<Rightarrow> False)"

definition row_attempt :: "console \<Rightarrow> BillRow \<Rightarrow> event list \<Rightarrow> bool" where
  "row_attempt snap row evs =
     (case evs of
        [e] \<Rightarrow> sets_row (getRowId row) failed e
      | [Fetch b, e] \<Rightarrow>
          b = send_request_body snap row (body_pdf_base64 b)
          \<and> (sets_row (getRowId row) sent e \<or> sets_row (getRowId row) failed e)
      | _ \<Rightarrow> False)"

definition row_query :: "console \<Rightarrow> BillRow \<Rightarrow> event list \<Rightarrow> bool" where
  "row_query snap row evs =
     (if uniqueAccountKeys [account_key row] = [] then evs = []
      else (case evs of
              [AuditQuery z ks out] \<Rightarrow>
                z = consoleZipFilename snap \<and> ks = uniqueAccountKeys [account_key row]
            | _ \<Rightarrow> False))"

definition row_block :: "console \<Rightarrow> BillRow \<Rightarrow> event list \<Rightarrow> bool" where
  "row_block snap row evs =
     (if sendStateOf snap (getRowId row) = Some sending then evs = []
      else if contact_email row = None \<or> contact_email row = Some []
              \<or> consoleZipFilename snap = []
      then (case evs of [e] \<Rightarrow> sets_row (getRowId row) failed e | _ \<Rightarrow> False)
      else (case evs of
              [] \<Rightarrow> False
            | e # rest \<Rightarrow>
                sets_row (getRowId row) sending e
                \<and> list_ex (\<lambda>n. row_attempt snap row (take n rest)
                                \<and> row_query snap row (drop n rest))
                     [0..<Suc (length rest)]))"

text \<open>
  What the calls for a list of rows add to the trace: one block of events per row, in
  the order of the rows, for all rows when the loop ran to its end (\<open>complete\<close>) and
  otherwise for the rows up to the one whose call was rejected. When the calls returned
  \<open>r = None\<close>, no query among the events was rejected; when they were left with the
  error \<open>r = Some err\<close>, the last event is a query rejected with that error and no query
  before it was rejected. Each new value of \<open>rowSendStates\<close> holds at most one of the rows
  in \<open>sending\<close> beyond those that were so before, and at the end no row is \<open>sending\<close> that
  was not so before.
\<close>

definition ended_by :: "thrown option \<Rightarrow> event list \<Rightarrow> bool" where
  "ended_by r evs =
     (case r of
        None \<Rightarrow> rejections evs = []
      | Some err \<Rightarrow>
          evs \<noteq> []
          \<and> (case last evs of AuditQuery z ks out \<Rightarrow> out = Some err | _ \<Rightarrow> False)
          \<and> rejections (butlast evs) = [])"

definition rows_run ::
  "bool \<Rightarrow> thrown option \<Rightarrow> BillRow list \<Rightarrow> console \<Rightarrow> 'w sys \<Rightarrow> 'w sys \<Rightarrow> bool" where
  "rows_run complete r rs snap s s' =
     (\<exists>blocks. trace s' = trace s @ concat blocks
        \<and> length blocks \<le> length rs
        \<and> (complete \<longrightarrow> length blocks = length rs)
        \<and> list_all2 (row_block snap) (take (length blocks) rs) blocks
        \<and> ended_by r (concat blocks)
        \<and> (\<forall>m\<in>set (snapshots (concat blocks)). \<exists>row\<in>set rs. \<forall>i. isSendingIn m i \<longrightarrow>
              i = getRowId row \<or> isSendingIn (rowSendStates (ui s)) i)
        \<and> (\<forall>i. isSendingIn (rowSendStates (ui s')) i \<longrightarrow> isSendingIn (rowSendStates (ui s)) i)
        \<and> rows (ui s') = rows (ui s))"

text \<open>The three bulk modes, to speak of all of them at once.\<close>

datatype bulk_mode = SendAllPending | SendSelected | RetryFailed

fun bulk_rows :: "bulk_mode \<Rightarrow> console \<Rightarrow> BillRow list" where
  "bulk_rows SendAllPending snap = sendPending_rowsToSend snap"
| "bulk_rows SendSelected snap = sendSelected_rowsToSend snap"
| "bulk_rows RetryFailed snap = retryAllFailed_rowsToRetry snap"

fun bulk_run :: "bulk_mode \<Rightarrow> 'w collab \<Rightarrow> console \<Rightarrow> 'w sys \<Rightarrow> thrown option \<times> 'w sys" where
  "bulk_run SendAllPending col snap s = sendPending col snap s"
| "bulk_run SendSelected col snap s = sendSelectedPendingRows col snap s"
| "bulk_run RetryFailed col snap s = retryAllFailed col snap s"


section \<open>A scenario\<close>

text \<open>
  Concrete collaborators and a concrete archive, used to run the model: two accounts
  with a contact, one without, a send route that accepts every request, and an audit log
  that reports nothing.
\<close>

definition scenario_contacts :: "string \<rightharpoonup> Contact" where
  "scenario_contacts =
     [''PR20'' \<mapsto> \<lparr> contact_key = ''PR20'', name = Some ''Alice'',
                     email = ''alice@example.com'', updated_at = ''2026-02-21'' \<rparr>,
      ''PR21'' \<mapsto> \<lparr> contact_key = ''PR21'', name = None,
                     email = ''bob@example.com'', updated_at = ''2026-02-21'' \<rparr>]"

definition scenario_collab :: "unit collab" where
  "scenario_collab =
     \<lparr> fetch_send_email =
         (\<lambda>body w. (FetchResponse True (Some \<lparr> payload_ok = True, payload_error = None \<rparr>), w)),
       last_send_status_for_zip = (\<lambda>zip_filename keys w. (Inr Map.empty, w)),
       get_contacts_by_keys = (\<lambda>keys w. (Inr scenario_contacts, w)),
       toBase64 = (\<lambda>bytes. Inr bytes),
       JSON_parse = (\<lambda>text. if text = ''{}'' then Some (JObject []) else None) \<rparr>"

definition scenario_zip :: zip where
  "scenario_zip =
     [\<lparr> entry_name = ''Bill_PR20_2024-01-05.pdf'', entry_dir = False, entry_data = Inr ''%PDF-a'' \<rparr>,
      \<lparr> entry_name = ''Bill_PR21_2024-01-05.pdf'', entry_dir = False, entry_data = Inr ''%PDF-b'' \<rparr>,
      \<lparr> entry_name = ''Bill_ZZ9_2024-01-05.pdf'', entry_dir = False, entry_data = Inr ''%PDF-c'' \<rparr>]"

definition scenario_start :: "unit sys" where
  "scenario_start = \<lparr> ui = initial_console, world = (), trace = [] \<rparr>"

definition scenario_session :: session where
  "scenario_session =
     \<lparr> claims_ok = True,
       session_user = Some \<lparr> user_id = ''u-1'', user_email = Some ''ops@example.com'' \<rparr>,
       profile_role = Some ''admin'',
       normalizedAllowlist = [] \<rparr>"

definition scenario_env :: route_env where
  \<comment> \<open>the decoder is a stand-in that keeps the text as the bytes\<close>
  "scenario_env =
     \<lparr> GMAIL_SENDER_EMAIL = Some ''billing@example.com'',
       Buffer_from_base64 = (\<lambda>text. text),
       getGmailClient = None,
       gmail_send = (\<lambda>params. ProviderReturned (Some ''msg-1'') (Some ''thr-1'')) \<rparr>"

definition scenario_env_throwing :: "string \<Rightarrow> route_env" where
  \<comment> \<open>the same configuration with a provider whose \<open>messages.send\<close> throws an \<open>Error\<close>\<close>
  "scenario_env_throwing m =
     scenario_env\<lparr> gmail_send := (\<lambda>params. ProviderThrew (Error m)) \<rparr>"

definition scenario_body :: "(string \<times> json) list" where
  "scenario_body =
     [(''zip_filename'', JString ''bills.zip''),
      (''account_key'', JString ''PR20''),
      (''trade_date'', JString ''2024-01-05''),
      (''to_email'', JString ''alice@example.com''),
      (''to_name'', JString ''Alice''),
      (''filename'', JString ''Bill_PR20_2024-01-05.pdf''),
      (''pdf_base64'', JString ''JVBERi0='')]"

definition scenario_body_with :: "string \<Rightarrow> json \<Rightarrow> (string \<times> json) list" where
  \<comment> \<open>the same body with one member replaced\<close>
  "scenario_body_with k v = map (\<lambda>(k', v'). if k' = k then (k, v) else (k', v')) scenario_body"

definition scenario_body_without :: "string \<Rightarrow> (string \<times> json) list" where
  \<comment> \<open>the same body with one member left out\<close>
  "scenario_body_without k = filter (\<lambda>(k', v'). k' \<noteq> k) scenario_body"

definition scenario_request :: "(string \<times> json) list \<Rightarrow> string option \<Rightarrow> route_request" where
  "scenario_request members dryRun =
     \<lparr> req_session = scenario_session, req_json = Some (JObject members), req_dryRun = dryRun \<rparr>"

definition scenario_log_rows :: "send_log_row list" where
  \<comment> \<open>two attempts for one account, the older one first\<close>
  "scenario_log_rows =
     [\<lparr> row_account_key = JString ''PR20'', row_status = JString ''failed'',
        row_sent_at = JString ''2026-02-23T10:00:00+00:00'' \<rparr>,
      \<lparr> row_account_key = JString ''PR20'', row_status = JString ''sent'',
        row_sent_at = JString ''2026-02-23T10:05:00+00:00'' \<rparr>]"

definition scenario_uploaded :: "unit sys" where
  \<comment> \<open>the state after the archive has been uploaded, with an empty trace\<close>
  "scenario_uploaded =
     (parseUploadedZip scenario_collab ''bills.zip'' (Inr scenario_zip) scenario_start)
       \<lparr> trace := [] \<rparr>"

definition scenario_row :: "string \<Rightarrow> BillRow" where
  \<comment> \<open>the row of the uploaded archive for an account key\<close>
  "scenario_row k =
     mergeRow scenario_contacts
       \<lparr> account_key = k, pdf_filename = ''Bill_'' @ k @ ''_2024-01-05.pdf'',
         zip_entry_path = ''Bill_'' @ k @ ''_2024-01-05.pdf'', trade_date = Some ''2024-01-05'' \<rparr>"

definition scenario_row_in_flight :: "unit sys" where
  \<comment> \<open>a single-row send of \<open>PR20\<close> has set the row to \<open>sending\<close> and waits for its answer\<close>
  "scenario_row_in_flight =
     (setRowSendState (getRowId (scenario_row ''PR20'')) sending None scenario_uploaded)
       \<lparr> trace := [] \<rparr>"

definition scenario_collab_rejecting :: "unit collab" where
  \<comment> \<open>the same collaborators with an audit log whose query rejects\<close>
  "scenario_collab_rejecting =
     scenario_collab\<lparr> last_send_status_for_zip :=
       (\<lambda>zip_filename keys w. (Inl (Error ''audit log unavailable''), w)) \<rparr>"

text \<open>
  Two archives with the same bills. The audit log holds a failed attempt for \<open>PR20\<close>
  under \<open>earlier.zip\<close> and a successful one under \<open>bills.zip\<close>; the send route answers
  with a failure. The operator uploads \<open>earlier.zip\<close> and sends the row of \<open>PR20\<close>; while
  that request is awaited the operator uploads \<open>bills.zip\<close> (the file input is disabled
  by parsing and by a bulk run, not by a single send); then the request is answered and
  the call goes on in the render it was made in, that of \<open>earlier.zip\<close>: it sets its row
  to \<open>failed\<close> and makes its follow-up query.
\<close>

definition scenario_audit_log :: "string \<Rightarrow> (string \<rightharpoonup> LastLogStatus)" where
  "scenario_audit_log zip_filename =
     (if zip_filename = ''bills.zip''
      then [''PR20'' \<mapsto> \<lparr> last_status = Some LogSent,
                           last_sent_at = Some ''2026-02-23T10:05:00+00:00'' \<rparr>]
      else if zip_filename = ''earlier.zip''
      then [''PR20'' \<mapsto> \<lparr> last_status = Some LogFailed,
                           last_sent_at = Some ''2026-02-24T09:00:00+00:00'' \<rparr>]
      else Map.empty)"

definition scenario_collab_two_archives :: "unit collab" where
  "scenario_collab_two_archives =
     scenario_collab\<lparr>
       fetch_send_email :=
         (\<lambda>body w. (FetchResponse False
                       (Some \<lparr> payload_ok = False,
                               payload_error = Some ''Failed to send email.'' \<rparr>), w)),
       last_send_status_for_zip :=
         (\<lambda>zip_filename keys w. (Inr (scenario_audit_log zip_filename), w)) \<rparr>"

definition scenario_earlier_uploaded :: "unit sys" where
  "scenario_earlier_uploaded =
     parseUploadedZip scenario_collab_two_archives ''earlier.zip'' (Inr scenario_zip)
       scenario_start"

definition scenario_bills_uploaded :: "unit sys" where
  \<comment> \<open>\<open>bills.zip\<close> uploaded while the send of \<open>PR20\<close> from \<open>earlier.zip\<close> awaits its answer\<close>
  "scenario_bills_uploaded =
     (parseUploadedZip scenario_collab_two_archives ''bills.zip'' (Inr scenario_zip)
        (setRowSendState (getRowId (scenario_row ''PR20'')) sending None
           scenario_earlier_uploaded))
       \<lparr> trace := [] \<rparr>"

definition scenario_send_resumed :: "unit sys" where
  \<comment> \<open>the awaited send goes on: its row is set to \<open>failed\<close>, then its follow-up query is
      made with the filename of the render of \<open>earlier.zip\<close>\<close>
  "scenario_send_resumed =
     (snd (refreshLastLogStatusForKeys scenario_collab_two_archives
             (ui scenario_earlier_uploaded) [''PR20'']
             (setRowSendState (getRowId (scenario_row ''PR20'')) failed
                (Some ''Failed to send email.'') scenario_bills_uploaded)))
       \<lparr> trace := [] \<rparr>"


section \<open>Unfolding rules for running the model\<close>

lemmas string_defs = getBaseName_def startsWith_def isPdf_def endsWith_def toLowerCase_def
  toLowerChar_def isIgnoredAdminPdf_def js_slice_from_def js_slice_def normalizeAccountKey_def
  normalizeAccountKey_string_def String_or_empty_def js_trim_def isWhiteSpace_def
  uniqueAccountKeys_def

lemmas parser_defs = parseFallbackRows_def parseFallbackRows_step_def parseManifest_def
  parseManifestItem_def zip_file_def

lemmas scenario_defs = scenario_contacts_def scenario_collab_def scenario_zip_def
  scenario_start_def initial_console_def scenario_session_def scenario_env_def
  scenario_body_def scenario_request_def
  scenario_uploaded_def scenario_row_def scenario_row_in_flight_def

lemmas merge_defs = mergeRowsWithContacts_def mergeRow_def getStatusFromEmail_def
  inherited_member_name_def inherited_names_def


lemmas route_defs = POST_def unhandled_def respond_def badRequest_def notAuthorized_def
  serverError_def   toStringOrEmpty_def EMAIL_PATTERN_test_def hasAdminAccess_def isAdminEmail_def
  isAdminRole_def getProfileRole_def removeQuotes_def

lemmas audit_defs = getLastSendStatusForZip_def isAdminSession_def normalizeZipFilename_def
  normalizeAccountKeys_def status_for_def lastStatus_reducer_def lastStatus_of_row_def
  row_key_def   has_truthy_member_def spec_most_recent_def sent_at_text_def scenario_log_rows_def
  inherited_names_def Let_def

lemmas console_defs = sendPending_def sendSelectedPendingRows_def retryAllFailed_def
  sendPending_rowsToSend_def sendSelected_rowsToSend_def retryAllFailed_rowsToRetry_def
  shouldSkipRowBecauseSentEarlier_def lastLogStatusOf_def sendStateOf_def send_rows.simps
  sendEmailForRow_def send_try_def send_catch_def send_request_body_def
  refreshLastLogStatusForKeys_def refresh_merge_def setRowSendState_def setIsSendingAll_def
  setActionError_def consoleZipFilename_def getRowId_def findPdfEntry_def parseUploadedZip_def
  parse_try_def events_since_def sendingRowIds_def isSendingIn_def

section \<open>Properties of the archive parser and the row reconciler\<close>

subsection \<open>The filename-convention fallback\<close>

lemma split_on_nonempty: "split_on d s \<noteq> []"
  by (induction s) (auto split: list.splits)

lemma split_on_no_delim: "d \<notin> set s \<Longrightarrow> split_on d s = [s]"
  by (induction s) auto

lemma last_split_on_no_delim: "d \<notin> set (last (split_on d s))"
proof (induction s)
  case Nil
  then show ?case by simp
next
  case (Cons c cs)
  then show ?case
    using split_on_nonempty[of d cs]
    by (cases "split_on d cs") (auto split: if_splits)
qed

lemma getBaseName_idem: "getBaseName (getBaseName p) = getBaseName p"
  unfolding getBaseName_def
  by (simp add: split_on_no_delim last_split_on_no_delim)

lemma isPdf_suffix: "isPdf (x @ ''.pdf'')"
  by (simp add: isPdf_def endsWith_def toLowerCase_def toLowerChar_def)

lemma indexOf_first: "d \<notin> set k \<Longrightarrow> indexOf (k @ d # rest) d = int (length k)"
  by (induction k) (auto simp: Let_def)

lemma take_key_delim_iff:
  "d \<notin> set key \<Longrightarrow> d \<notin> set p \<Longrightarrow>
   take (Suc (length p)) (key @ d # rest) = p @ [d] \<longleftrightarrow> key = p"
proof (induction key arbitrary: p)
  case Nil
  then show ?case by (cases p) auto
next
  case (Cons c cs)
  then show ?case by (cases p) auto
qed

lemma admin_prefix_iff:
  assumes "CHR ''_'' \<notin> set key"
  shows "startsWith (''Bill_'' @ key @ ''_'' @ rest) ''Bill_Admin_'' \<longleftrightarrow> key = ''Admin''"
  using take_key_delim_iff[of "CHR ''_''" key "''Admin''" rest] assms
  by (simp add: startsWith_def)

lemma js_slice_prefix: "js_slice (k @ r) 0 (int (length k)) = k"
  by (simp add: js_slice_def Let_def)

lemma js_slice_middle:
  "js_slice (k @ c # dt @ ext) (int (length k) + 1)
     (int (length (k @ c # dt @ ext)) - int (length ext)) = dt"
proof -
  have "nat (int (length k) + 1) = Suc (length k)" by simp
  then show ?thesis by (simp add: js_slice_def Let_def)
qed

lemma parseFallbackRows_step_shape:
  assumes nd: "\<not> entry_dir ent"
    and base: "getBaseName (entry_name ent) = ''Bill_'' @ key @ ''_'' @ date @ ''.pdf''"
    and key: "CHR ''_'' \<notin> set key"
  shows "parseFallbackRows_step ent =
     (if js_trim key = [] \<or> key = ''Admin'' then []
      else [\<lparr> account_key = js_trim key,
              pdf_filename = getBaseName (entry_name ent),
              zip_entry_path = entry_name ent,
              trade_date = (if js_trim date = [] then None else Some (js_trim date)) \<rparr>])"
proof -
  let ?b = "''Bill_'' @ key @ ''_'' @ date @ ''.pdf''"
  let ?w = "key @ CHR ''_'' # date @ ''.pdf''"
  have sw: "startsWith ?b ''Bill_''" by (simp add: startsWith_def)
  have pdf: "isPdf ?b" using isPdf_suffix[of "''Bill_'' @ key @ ''_'' @ date"] by simp
  have adm: "isIgnoredAdminPdf ?b \<longleftrightarrow> key = ''Admin''"
  proof -
    have "getBaseName ?b = ?b" using getBaseName_idem[of "entry_name ent"] base by simp
    moreover have "\<not> startsWith ?b ''Summary_Admin_Closing_Adjustment_''"
      by (simp add: startsWith_def)
    ultimately show ?thesis
      using admin_prefix_iff[OF key, of "date @ ''.pdf''"]
      by (simp add: isIgnoredAdminPdf_def Let_def)
  qed
  have wp: "js_slice_from ?b (int (length ''Bill_'')) = ?w"
    by (simp add: js_slice_from_def js_slice_def Let_def)
  have idx: "indexOf ?w CHR ''_'' = int (length key)"
    using indexOf_first[OF key] by simp
  have k: "js_slice ?w 0 (int (length key)) = key"
    using js_slice_prefix[of key "CHR ''_'' # date @ ''.pdf''"] by simp
  have d: "js_slice ?w (int (length key) + 1) (int (length ?w) - int (length ''.pdf'')) = date"
    using js_slice_middle[of key "CHR ''_''" date "''.pdf''"] by simp
  have emp: "key = [] \<Longrightarrow> js_trim key = []" by (simp add: js_trim_def)
  show ?thesis
    unfolding parseFallbackRows_step_def base Let_def wp idx k d
    using nd sw pdf adm emp
    by (auto simp: normalizeAccountKey_string_def)
qed

lemma parseFallbackRows_step_admin:
  "isIgnoredAdminPdf (getBaseName (entry_name ent)) \<Longrightarrow> parseFallbackRows_step ent = []"
  by (simp add: parseFallbackRows_step_def Let_def)

lemma parseFallbackRows_step_emptykey:
  assumes "getBaseName (entry_name ent) = ''Bill__'' @ rest"
  shows "parseFallbackRows_step ent = []"
proof -
  have "js_slice_from (''Bill__'' @ rest) (int (length ''Bill_'')) = CHR ''_'' # rest"
    by (simp add: js_slice_from_def js_slice_def Let_def)
  then show ?thesis
    unfolding parseFallbackRows_step_def Let_def assms by simp
qed


text \<open>
  C6. An entry of the fallback path that is not a directory and whose base name is
  \<open>Bill_{key}_{date}.pdf\<close>, with \<open>key\<close> the text before the first underscore, yields
  exactly one record: its account key is \<open>key\<close> trimmed, its trade date is \<open>date\<close>
  trimmed, or null when that is empty. The entry is dropped when the trimmed key is empty
  (so also for \<open>Bill__20240101.pdf\<close>), when its base name has one of the two
  administrative prefixes, and when it is a directory. The records of an archive are
  those of its entries, in order.
\<close>

theorem parseFallbackRows_bill_entry:
  "(\<not> entry_dir ent
      \<and> getBaseName (entry_name ent) = ''Bill_'' @ key @ ''_'' @ date @ ''.pdf''
      \<and> CHR ''_'' \<notin> set key \<and> js_trim key \<noteq> [] \<and> key \<noteq> ''Admin''
    \<longrightarrow> parseFallbackRows_step ent =
          [\<lparr> account_key = js_trim key,
             pdf_filename = getBaseName (entry_name ent),
             zip_entry_path = entry_name ent,
             trade_date = (if js_trim date = [] then None else Some (js_trim date)) \<rparr>])
   \<and> (getBaseName (entry_name ent) = ''Bill_'' @ key @ ''_'' @ date @ ''.pdf''
      \<and> CHR ''_'' \<notin> set key \<and> js_trim key = []
    \<longrightarrow> parseFallbackRows_step ent = [])
   \<and> (isIgnoredAdminPdf (getBaseName (entry_name ent)) \<longrightarrow> parseFallbackRows_step ent = [])
   \<and> (entry_dir ent \<longrightarrow> parseFallbackRows_step ent = [])
   \<and> parseFallbackRows (before @ ent # after) =
       parseFallbackRows before @ parseFallbackRows_step ent @ parseFallbackRows after"
proof (intro conjI impI)
  assume "\<not> entry_dir ent
      \<and> getBaseName (entry_name ent) = ''Bill_'' @ key @ ''_'' @ date @ ''.pdf''
      \<and> CHR ''_'' \<notin> set key \<and> js_trim key \<noteq> [] \<and> key \<noteq> ''Admin''"
  then show "parseFallbackRows_step ent =
          [\<lparr> account_key = js_trim key,
             pdf_filename = getBaseName (entry_name ent),
             zip_entry_path = entry_name ent,
             trade_date = (if js_trim date = [] then None else Some (js_trim date)) \<rparr>]"
    using parseFallbackRows_step_shape[of ent key date] by simp
next
  assume a: "getBaseName (entry_name ent) = ''Bill_'' @ key @ ''_'' @ date @ ''.pdf''
      \<and> CHR ''_'' \<notin> set key \<and> js_trim key = []"
  show "parseFallbackRows_step ent = []"
  proof (cases "entry_dir ent")
    case True
    then show ?thesis by (simp add: parseFallbackRows_step_def)
  next
    case False
    then show ?thesis using a parseFallbackRows_step_shape[of ent key date] by simp
  qed
next
  assume "isIgnoredAdminPdf (getBaseName (entry_name ent))"
  then show "parseFallbackRows_step ent = []" by (rule parseFallbackRows_step_admin)
next
  assume "entry_dir ent"
  then show "parseFallbackRows_step ent = []" by (simp add: parseFallbackRows_step_def)
next
  show "parseFallbackRows (before @ ent # after) =
       parseFallbackRows before @ parseFallbackRows_step ent @ parseFallbackRows after"
    by (simp add: parseFallbackRows_def)
qed

theorem parseFallbackRows_bill_entry_witness:
  "parseFallbackRows_step
     \<lparr> entry_name = ''2024/Bill_PR20_2024-01-05.pdf'', entry_dir = False, entry_data = Inr [] \<rparr>
   = [\<lparr> account_key = ''PR20'', pdf_filename = ''Bill_PR20_2024-01-05.pdf'',
        zip_entry_path = ''2024/Bill_PR20_2024-01-05.pdf'', trade_date = Some ''2024-01-05'' \<rparr>]
   \<and> parseFallbackRows_step
       \<lparr> entry_name = ''Bill__20240101.pdf'', entry_dir = False, entry_data = Inr [] \<rparr> = []
   \<and> parseFallbackRows_step
       \<lparr> entry_name = ''Bill_Admin_2024-01-05.pdf'', entry_dir = False, entry_data = Inr [] \<rparr> = []
   \<and> parseFallbackRows_step
       \<lparr> entry_name = ''Bill_PR20_2024-01-05.pdf/'', entry_dir = True, entry_data = Inr [] \<rparr> = []
   \<and> parseFallbackRows
       [\<lparr> entry_name = ''Bill_PR20_2024-01-05.pdf'', entry_dir = False, entry_data = Inr [] \<rparr>,
        \<lparr> entry_name = ''Bill_Admin_2024-01-05.pdf'', entry_dir = False, entry_data = Inr [] \<rparr>]
     = [\<lparr> account_key = ''PR20'', pdf_filename = ''Bill_PR20_2024-01-05.pdf'',
          zip_entry_path = ''Bill_PR20_2024-01-05.pdf'', trade_date = Some ''2024-01-05'' \<rparr>]"
  using
    parseFallbackRows_bill_entry
      [of "\<lparr> entry_name = ''2024/Bill_PR20_2024-01-05.pdf'', entry_dir = False,
              entry_data = Inr [] \<rparr>" "''PR20''" "''2024-01-05''" "[]" "[]"]
    parseFallbackRows_bill_entry
      [of "\<lparr> entry_name = ''Bill__20240101.pdf'', entry_dir = False, entry_data = Inr [] \<rparr>"
          "[]" "''20240101''" "[]" "[]"]
    parseFallbackRows_bill_entry
      [of "\<lparr> entry_name = ''Bill_Admin_2024-01-05.pdf'', entry_dir = False,
              entry_data = Inr [] \<rparr>" "''Admin''" "''2024-01-05''"
          "[\<lparr> entry_name = ''Bill_PR20_2024-01-05.pdf'', entry_dir = False,
               entry_data = Inr [] \<rparr>]" "[]"]
    parseFallbackRows_bill_entry
      [of "\<lparr> entry_name = ''Bill_PR20_2024-01-05.pdf/'', entry_dir = True,
              entry_data = Inr [] \<rparr>" "''PR20''" "''2024-01-05''" "[]" "[]"]
  by (simp add: parser_defs string_defs Let_def)

text \<open>
  As C6 is worded, every non-empty key segment gives a record whose account key is that
  segment. A key segment of one space is not empty and gives no record, and a key segment
  with a leading space gives a record with the trimmed key.
\<close>

theorem parseFallbackRows_whitespace_key_counterexample:
  "parseFallbackRows
     [\<lparr> entry_name = ''Bill_ _20240101.pdf'', entry_dir = False, entry_data = Inr [] \<rparr>] = []
   \<and> map account_key (parseFallbackRows
     [\<lparr> entry_name = ''Bill_ PR20_20240101.pdf'', entry_dir = False, entry_data = Inr [] \<rparr>])
     = [''PR20'']"
  by (simp add: parser_defs string_defs Let_def)

subsection \<open>Sendability status\<close>

lemma getStatusFromEmail_Pending:
  "getStatusFromEmail e = Pending \<longleftrightarrow> (\<exists>a. e = Some a \<and> a \<noteq> [])"
  by (auto simp: getStatusFromEmail_def split: option.splits)

lemma mergeRow_fields:
  "account_key (mergeRow cbk row) = account_key row"
  "contact_email (mergeRow cbk row) = map_option email (cbk (account_key row))"
  "status (mergeRow cbk row) = getStatusFromEmail (map_option email (cbk (account_key row)))"
  by (auto simp: mergeRow_def Let_def split: option.splits)

lemma mergeRow_status_iff:
  "status (mergeRow cbk row) = Pending \<longleftrightarrow>
     (\<exists>c. cbk (account_key (mergeRow cbk row)) = Some c \<and> email c \<noteq> [])"
  by (auto simp: mergeRow_fields getStatusFromEmail_Pending)

lemma mergeRow_consistent:
  "status (mergeRow cbk row) = getStatusFromEmail (contact_email (mergeRow cbk row))"
  by (simp add: mergeRow_fields)

lemma syncContactsForKeys_rows:
  "rows (ui (snd (syncContactsForKeys col keys s))) =
     (case get_contacts_by_keys col (uniqueAccountKeys keys) (world s) of
        (Inr cbk, w) \<Rightarrow>
          if uniqueAccountKeys keys = [] then rows (ui s)
          else map (\<lambda>row. if account_key row \<notin> set (uniqueAccountKeys keys) then row
                           else mergeRow cbk row) (rows (ui s))
      | (Inl err, w) \<Rightarrow> rows (ui s))"
  by (auto simp: syncContactsForKeys_def Let_def split: prod.splits sum.splits)

lemma parse_try_None_rows:
  assumes "parse_try col fn loaded s = (None, s1)"
  shows "\<forall>r\<in>set (rows (ui s1)). status r = getStatusFromEmail (contact_email r)"
  using assms
  by (auto simp: parse_try_def Let_def mergeRowsWithContacts_def mergeRow_consistent
           split: sum.splits option.splits prod.splits if_splits)

lemma parseUploadedZip_rows_consistent:
  "\<forall>r\<in>set (rows (ui (parseUploadedZip col fn loaded s))).
           status r = getStatusFromEmail (contact_email r)"
proof -
  let ?s0 = "s\<lparr> ui := (ui s)\<lparr> isParsingZip := True, messages := [], actionError := [],
                      rowSendStates := Map.empty, selectedRowIds := Map.empty,
                      lastLogStatusByKey := Map.empty \<rparr> \<rparr>"
  obtain r s1 where p: "parse_try col fn loaded ?s0 = (r, s1)" by (cases "parse_try col fn loaded ?s0")
  show ?thesis
  proof (cases r)
    case None
    then show ?thesis
      using p parse_try_None_rows[of col fn loaded ?s0 s1]
      by (simp add: parseUploadedZip_def Let_def)
  next
    case (Some err)
    then show ?thesis using p by (simp add: parseUploadedZip_def Let_def)
  qed
qed


text \<open>
  C7. After the initial merge of parsed records with contacts, a row is \<open>Pending\<close> exactly
  when the contacts hold an entry with a non-empty email for its account key, and
  \<open>Blocked\<close> otherwise (there are two statuses); the rows an upload leaves in the console
  are \<open>Pending\<close> exactly when they carry a non-empty contact email. A contact refresh for a
  set of keys recomputes the rows with those keys in the same way from the refreshed
  contacts and leaves the other rows as they were, so the correspondence between status
  and contact email survives every refresh.
\<close>


theorem status_pending_iff_contact_email:
  "(\<forall>r\<in>set (mergeRowsWithContacts parsed contactsByKey).
       status r = Pending \<longleftrightarrow>
         (\<exists>c. contactsByKey (account_key r) = Some c \<and> email c \<noteq> []))
   \<and> (\<forall>r\<in>set (rows (ui (parseUploadedZip col file_name loaded s))).
         status r = Pending \<longleftrightarrow> (\<exists>a. contact_email r = Some a \<and> a \<noteq> []))
   \<and> (uniqueAccountKeys keys \<noteq> []
        \<and> get_contacts_by_keys col (uniqueAccountKeys keys) (world s) = (Inr refreshed, w)
      \<longrightarrow> (\<forall>r\<in>set (rows (ui (snd (syncContactsForKeys col keys s)))).
             if account_key r \<in> set (uniqueAccountKeys keys)
             then status r = Pending \<longleftrightarrow>
                    (\<exists>c. refreshed (account_key r) = Some c \<and> email c \<noteq> [])
             else r \<in> set (rows (ui s))))
   \<and> ((\<forall>r\<in>set (rows (ui s)).
          status r = Pending \<longleftrightarrow> (\<exists>a. contact_email r = Some a \<and> a \<noteq> []))
      \<longrightarrow> (\<forall>r\<in>set (rows (ui (snd (syncContactsForKeys col keys s)))).
             status r = Pending \<longleftrightarrow> (\<exists>a. contact_email r = Some a \<and> a \<noteq> [])))"
proof (intro conjI impI)
  show "\<forall>r\<in>set (mergeRowsWithContacts parsed contactsByKey).
       status r = Pending \<longleftrightarrow>
         (\<exists>c. contactsByKey (account_key r) = Some c \<and> email c \<noteq> [])"
    by (auto simp: mergeRowsWithContacts_def mergeRow_fields getStatusFromEmail_Pending)
next
  show "\<forall>r\<in>set (rows (ui (parseUploadedZip col file_name loaded s))).
         status r = Pending \<longleftrightarrow> (\<exists>a. contact_email r = Some a \<and> a \<noteq> [])"
    using parseUploadedZip_rows_consistent[of col file_name loaded s]
    by (simp add: getStatusFromEmail_Pending)
next
  assume a: "uniqueAccountKeys keys \<noteq> []
        \<and> get_contacts_by_keys col (uniqueAccountKeys keys) (world s) = (Inr refreshed, w)"
  show "\<forall>r\<in>set (rows (ui (snd (syncContactsForKeys col keys s)))).
             if account_key r \<in> set (uniqueAccountKeys keys)
             then status r = Pending \<longleftrightarrow>
                    (\<exists>c. refreshed (account_key r) = Some c \<and> email c \<noteq> [])
             else r \<in> set (rows (ui s))"
    using a
    by (auto simp: syncContactsForKeys_rows mergeRow_fields getStatusFromEmail_Pending)
next
  assume inv: "\<forall>r\<in>set (rows (ui s)).
          status r = Pending \<longleftrightarrow> (\<exists>a. contact_email r = Some a \<and> a \<noteq> [])"
  show "\<forall>r\<in>set (rows (ui (snd (syncContactsForKeys col keys s)))).
             status r = Pending \<longleftrightarrow> (\<exists>a. contact_email r = Some a \<and> a \<noteq> [])"
  proof
    fix r assume r: "r \<in> set (rows (ui (snd (syncContactsForKeys col keys s))))"
    obtain res w' where g: "get_contacts_by_keys col (uniqueAccountKeys keys) (world s) = (res, w')"
      by (cases "get_contacts_by_keys col (uniqueAccountKeys keys) (world s)")
    show "status r = Pending \<longleftrightarrow> (\<exists>a. contact_email r = Some a \<and> a \<noteq> [])"
    proof (cases res)
      case (Inl err)
      then show ?thesis using r g inv by (simp add: syncContactsForKeys_rows)
    next
      case (Inr cbk)
      then have "r \<in> set (rows (ui s)) \<or> (\<exists>row::BillRow. r = mergeRow cbk row)"
        using r g by (auto simp: syncContactsForKeys_rows split: if_splits)
      then show ?thesis
        using inv by (auto simp: mergeRow_fields getStatusFromEmail_Pending)
    qed
  qed
qed

theorem status_pending_iff_contact_email_witness:
  "map status (mergeRowsWithContacts (parseFallbackRows scenario_zip) scenario_contacts)
     = [Pending, Pending, Blocked]
   \<and> map status (rows (ui (parseUploadedZip scenario_collab ''bills.zip'' (Inr scenario_zip)
        scenario_start))) = [Pending, Pending, Blocked]
   \<and> uniqueAccountKeys [''PR20''] = [''PR20'']
   \<and> get_contacts_by_keys scenario_collab (uniqueAccountKeys [''PR20''])
        (world (scenario_start\<lparr> ui := initial_console\<lparr> rows :=
           mergeRowsWithContacts (parseFallbackRows scenario_zip) Map.empty \<rparr> \<rparr>))
      = (Inr scenario_contacts, ())
   \<and> map status (rows (ui (snd (syncContactsForKeys scenario_collab [''PR20'']
        (scenario_start\<lparr> ui := initial_console\<lparr> rows :=
           mergeRowsWithContacts (parseFallbackRows scenario_zip) Map.empty \<rparr> \<rparr>)))))
      = [Pending, Blocked, Blocked]"
  using status_pending_iff_contact_email
    [of "parseFallbackRows scenario_zip" scenario_contacts scenario_collab "''bills.zip''"
        "Inr scenario_zip" "scenario_start\<lparr> ui := initial_console\<lparr> rows :=
           mergeRowsWithContacts (parseFallbackRows scenario_zip) Map.empty \<rparr> \<rparr>"
        "[''PR20'']" scenario_contacts "()"]
  by (simp add: parseUploadedZip_def parse_try_def syncContactsForKeys_def scenario_defs
        parser_defs string_defs merge_defs Let_def)

subsection \<open>A manifest without a success list\<close>

lemma parseManifest_no_success:
  assumes "\<forall>xs. js_prop manifestData ''success'' \<noteq> Some (JArray xs)"
  shows "\<exists>ms. parseManifest (Some manifestData) = (manifest, [], ms)"
proof (cases manifestData)
  case (JObject kvs)
  have none: "(case map_of kvs ''success'' of
                 None \<Rightarrow> []
               | Some (JArray xs) \<Rightarrow> xs
               | Some _ \<Rightarrow> []) = []"
    using assms JObject by (auto split: option.splits json.splits)
  show ?thesis
    using JObject by (simp add: parseManifest_def Let_def none)
qed (simp_all add: parseManifest_def Let_def)


text \<open>
  C10. When the archive holds a \<open>manifest.json\<close> that parses as JSON and whose \<open>success\<close>
  member is missing or is not an array, the upload yields no rows and a summary with
  source \<open>manifest\<close> and row count 0, whatever else the archive contains: the fallback scan
  is not run.
\<close>


theorem manifest_without_success_list:
  assumes "zip_file z ''manifest.json'' = Some manifestFile"
    and "entry_data manifestFile = Inr manifestRawText"
    and "JSON_parse col manifestRawText = Some manifestData"
    and "\<forall>xs. js_prop manifestData ''success'' \<noteq> Some (JArray xs)"
  shows "rows (ui (parseUploadedZip col file_name (Inr z) s)) = []
         \<and> summary (ui (parseUploadedZip col file_name (Inr z) s))
             = Some \<lparr> zipFilename = file_name, rowCount = 0, source = manifest \<rparr>
         \<and> zipRef (ui (parseUploadedZip col file_name (Inr z) s)) = Some z
         \<and> ''No bill PDFs found'' \<in> set (messages (ui (parseUploadedZip col file_name (Inr z) s)))"
proof -
  obtain ms where "parseManifest (Some manifestData) = (manifest, [], ms)"
    using parseManifest_no_success[OF assms(4)] by blast
  then show ?thesis
    using assms(1-3)
    by (simp add: parseUploadedZip_def parse_try_def Let_def)
qed

theorem manifest_without_success_list_witness:
  "zip_file (\<lparr> entry_name = ''manifest.json'', entry_dir = False, entry_data = Inr ''{}'' \<rparr>
             # scenario_zip) ''manifest.json''
     = Some \<lparr> entry_name = ''manifest.json'', entry_dir = False, entry_data = Inr ''{}'' \<rparr>
   \<and> JSON_parse scenario_collab ''{}'' = Some (JObject [])
   \<and> length (parseFallbackRows
        (\<lparr> entry_name = ''manifest.json'', entry_dir = False, entry_data = Inr ''{}'' \<rparr>
         # scenario_zip)) = 3
   \<and> rows (ui (parseUploadedZip scenario_collab ''bills.zip''
        (Inr (\<lparr> entry_name = ''manifest.json'', entry_dir = False, entry_data = Inr ''{}'' \<rparr>
              # scenario_zip)) scenario_start)) = []
   \<and> summary (ui (parseUploadedZip scenario_collab ''bills.zip''
        (Inr (\<lparr> entry_name = ''manifest.json'', entry_dir = False, entry_data = Inr ''{}'' \<rparr>
              # scenario_zip)) scenario_start))
      = Some \<lparr> zipFilename = ''bills.zip'', rowCount = 0, source = manifest \<rparr>"
  using manifest_without_success_list
    [of "\<lparr> entry_name = ''manifest.json'', entry_dir = False, entry_data = Inr ''{}'' \<rparr>
         # scenario_zip"
        "\<lparr> entry_name = ''manifest.json'', entry_dir = False, entry_data = Inr ''{}'' \<rparr>"
        "''{}''" scenario_collab "JObject []" "''bills.zip''" scenario_start]
  by (simp add: scenario_defs parser_defs string_defs Let_def)

section \<open>Properties of the send route\<close>

lemma js_includes_single: "js_includes s [c] \<longleftrightarrow> c \<in> set s"
  by (induction s) (auto simp: startsWith_def)

lemma EMAIL_PATTERN_test_has_at:
  assumes "EMAIL_PATTERN_test s"
  shows "js_includes s ''@''"
proof -
  have "length (filter (\<lambda>c. c = CHR ''@'') s) = 1"
    using assms by (simp add: EMAIL_PATTERN_test_def Let_def)
  then have "filter (\<lambda>c. c = CHR ''@'') s \<noteq> []" by auto
  then have "CHR ''@'' \<in> set s" by (auto simp: filter_empty_conv)
  then show ?thesis by (simp add: js_includes_single)
qed

subsection \<open>Reading the request body\<close>

text \<open>
  The handler converts the seven members of the body to text before it checks any of
  them. A member that is a string converts to itself, trimmed; a missing member and
  \<open>null\<close> convert to the empty text; an object with an own \<open>toString\<close> member does not
  convert, and the handler then throws before its first check, whatever the other
  members are.
\<close>

lemma toStringOrEmpty_simps:
  "toStringOrEmpty None = Some []"
  "toStringOrEmpty (Some JNull) = Some []"
  "toStringOrEmpty (Some (JString s)) = Some (js_trim s)"
  "''toString'' \<in> fst ` set kvs \<Longrightarrow> toStringOrEmpty (Some (JObject kvs)) = None"
  by (simp_all add: toStringOrEmpty_def String_or_empty_def js_trim_def)

subsection \<open>Dry run\<close>

text \<open>
  A request from an authorized session whose seven members convert to text and pass the
  six validation checks, with a valid sender address configured and \<open>dryRun=1\<close> in the
  URL, is answered with \<open>ok: true, dryRun: true\<close>; the mail provider is not invoked and
  no send-log entry is written.
\<close>

lemma dry_run_sends_nothing:
  assumes "claims_ok (req_session request)"
    and "session_user (req_session request) = Some user"
    and "hasAdminAccess (normalizedAllowlist (req_session request)) (user_email user)
           (getProfileRole (req_session request))"
    and "req_json request = Some body" and "body \<noteq> JNull"
    and "toStringOrEmpty (js_prop body ''zip_filename'') = Some zipName"
    and "toStringOrEmpty (js_prop body ''account_key'') = Some accountKey"
    and "toStringOrEmpty (js_prop body ''trade_date'') = Some tradeDate"
    and "toStringOrEmpty (js_prop body ''to_email'') = Some toEmail"
    and "toStringOrEmpty (js_prop body ''to_name'') = Some toName"
    and "toStringOrEmpty (js_prop body ''filename'') = Some filename"
    and "toStringOrEmpty (js_prop body ''pdf_base64'') = Some pdfBase64"
    and "zipName \<noteq> []" and "accountKey \<noteq> []"
    and "EMAIL_PATTERN_test (toLowerCase toEmail)"
    and "endsWith (toLowerCase filename) ''.pdf''"
    and "pdfBase64 \<noteq> []"
    and "Buffer_from_base64 env pdfBase64 \<noteq> []"
    and "GMAIL_SENDER_EMAIL env = Some configured"
    and "js_trim configured \<noteq> []" and "EMAIL_PATTERN_test (js_trim configured)"
    and "req_dryRun request = Some ''1''"
  shows "POST env request =
           \<lparr> result = Responded \<lparr> http_status = 200, resp_ok = True, resp_error = None,
                                  resp_dryRun = True, resp_messageId = None,
                                  resp_threadId = None \<rparr>,
             effects = [] \<rparr>"
  using assms EMAIL_PATTERN_test_has_at[OF assms(15)]
  by (cases body) (simp_all add: POST_def respond_def Let_def)

text \<open>
  C9. As C9 is worded, every authorized request that passes the validation checks, with
  a valid sender configured and \<open>dryRun=1\<close>, is answered with \<open>ok: true, dryRun: true\<close>.
  The handler converts the seven members of the body to text before its first check and
  outside every \<open>try\<close>. When one of them does not convert, the handler throws: an
  authorized request with such a member gets no response, whatever its other members and
  its \<open>dryRun\<close> parameter are, and the handler has invoked no provider and written no
  send-log entry.
\<close>

theorem unreadable_member_unanswered:
  assumes "claims_ok (req_session request)"
    and "session_user (req_session request) = Some user"
    and "hasAdminAccess (normalizedAllowlist (req_session request)) (user_email user)
           (getProfileRole (req_session request))"
    and "req_json request = Some body" and "body \<noteq> JNull"
    and "nm \<in> {''zip_filename'', ''account_key'', ''trade_date'', ''to_email'', ''to_name'',
                ''filename'', ''pdf_base64''}"
    and "toStringOrEmpty (js_prop body nm) = None"
  shows "result (POST env request) = Unhandled \<and> effects (POST env request) = []"
proof -
  have "POST env request = unhandled"
  proof (rule ccontr)
    assume answered: "POST env request \<noteq> unhandled"
    have "toStringOrEmpty (js_prop body ''zip_filename'') \<noteq> None"
    proof
      assume "toStringOrEmpty (js_prop body ''zip_filename'') = None"
      then have "POST env request = unhandled"
        using assms(1-5) by (cases body) (simp_all add: POST_def Let_def)
      then show False using answered by simp
    qed
    then obtain v1 where r1: "toStringOrEmpty (js_prop body ''zip_filename'') = Some v1"
      by blast
    have "toStringOrEmpty (js_prop body ''account_key'') \<noteq> None"
    proof
      assume "toStringOrEmpty (js_prop body ''account_key'') = None"
      then have "POST env request = unhandled"
        using assms(1-5) r1 by (cases body) (simp_all add: POST_def Let_def)
      then show False using answered by simp
    qed
    then obtain v2 where r2: "toStringOrEmpty (js_prop body ''account_key'') = Some v2"
      by blast
    have "toStringOrEmpty (js_prop body ''trade_date'') \<noteq> None"
    proof
      assume "toStringOrEmpty (js_prop body ''trade_date'') = None"
      then have "POST env request = unhandled"
        using assms(1-5) r1 r2 by (cases body) (simp_all add: POST_def Let_def)
      then show False using answered by simp
    qed
    then obtain v3 where r3: "toStringOrEmpty (js_prop body ''trade_date'') = Some v3"
      by blast
    have "toStringOrEmpty (js_prop body ''to_email'') \<noteq> None"
    proof
      assume "toStringOrEmpty (js_prop body ''to_email'') = None"
      then have "POST env request = unhandled"
        using assms(1-5) r1 r2 r3 by (cases body) (simp_all add: POST_def Let_def)
      then show False using answered by simp
    qed
    then obtain v4 where r4: "toStringOrEmpty (js_prop body ''to_email'') = Some v4"
      by blast
    have "toStringOrEmpty (js_prop body ''to_name'') \<noteq> None"
    proof
      assume "toStringOrEmpty (js_prop body ''to_name'') = None"
      then have "POST env request = unhandled"
        using assms(1-5) r1 r2 r3 r4 by (cases body) (simp_all add: POST_def Let_def)
      then show False using answered by simp
    qed
    then obtain v5 where r5: "toStringOrEmpty (js_prop body ''to_name'') = Some v5"
      by blast
    have "toStringOrEmpty (js_prop body ''filename'') \<noteq> None"
    proof
      assume "toStringOrEmpty (js_prop body ''filename'') = None"
      then have "POST env request = unhandled"
        using assms(1-5) r1 r2 r3 r4 r5 by (cases body) (simp_all add: POST_def Let_def)
      then show False using answered by simp
    qed
    then obtain v6 where r6: "toStringOrEmpty (js_prop body ''filename'') = Some v6"
      by blast
    have "toStringOrEmpty (js_prop body ''pdf_base64'') \<noteq> None"
    proof
      assume "toStringOrEmpty (js_prop body ''pdf_base64'') = None"
      then have "POST env request = unhandled"
        using assms(1-5) r1 r2 r3 r4 r5 r6 by (cases body) (simp_all add: POST_def Let_def)
      then show False using answered by simp
    qed
    then obtain v7 where r7: "toStringOrEmpty (js_prop body ''pdf_base64'') = Some v7"
      by blast
    have "toStringOrEmpty (js_prop body nm) \<noteq> None"
      using assms(6) r1 r2 r3 r4 r5 r6 r7 by auto
    then show False using assms(7) by simp
  qed
  then show ?thesis by (simp add: unhandled_def)
qed

text \<open>
  The request below is the accepted dry-run request of the scenario with one change: its
  \<open>to_name\<close>, a member no check looks at, is the object \<open>{"toString": null}\<close>. Each checked
  member is as in the accepted request and the sender is valid; the handler gives no
  response. The same request with a text for \<open>to_name\<close> is answered as C9 says.
\<close>

theorem unreadable_member_unanswered_witness:
  "result (POST scenario_env
      (scenario_request (scenario_body_with ''to_name'' (JObject [(''toString'', JNull)]))
         (Some ''1''))) = Unhandled
   \<and> effects (POST scenario_env
      (scenario_request (scenario_body_with ''to_name'' (JObject [(''toString'', JNull)]))
         (Some ''1''))) = []
   \<and> map (\<lambda>nm. toStringOrEmpty
             (map_of (scenario_body_with ''to_name'' (JObject [(''toString'', JNull)])) nm))
        [''zip_filename'', ''account_key'', ''to_email'', ''filename'', ''pdf_base64'']
      = map (\<lambda>nm. toStringOrEmpty (map_of scenario_body nm))
          [''zip_filename'', ''account_key'', ''to_email'', ''filename'', ''pdf_base64'']
   \<and> POST scenario_env (scenario_request scenario_body (Some ''1''))
      = \<lparr> result = Responded \<lparr> http_status = 200, resp_ok = True, resp_error = None,
                               resp_dryRun = True, resp_messageId = None,
                               resp_threadId = None \<rparr>,
          effects = [] \<rparr>"
proof -
  let ?body = "JObject (scenario_body_with ''to_name'' (JObject [(''toString'', JNull)]))"
  let ?req = "scenario_request (scenario_body_with ''to_name'' (JObject [(''toString'', JNull)]))
                (Some ''1'')"
  let ?user = "\<lparr> user_id = ''u-1'', user_email = Some ''ops@example.com'' \<rparr>"
  have auth: "claims_ok (req_session ?req)"
    "session_user (req_session ?req) = Some ?user"
    "hasAdminAccess (normalizedAllowlist (req_session ?req)) (user_email ?user)
       (getProfileRole (req_session ?req))"
    "req_json ?req = Some ?body"
    by code_simp+
  have body: "?body \<noteq> JNull" by simp
  have nm: "''to_name'' \<in> {''zip_filename'', ''account_key'', ''trade_date'', ''to_email'',
                            ''to_name'', ''filename'', ''pdf_base64''}"
    by simp
  have thrown: "toStringOrEmpty (js_prop ?body ''to_name'') = None" by code_simp
  note t = unreadable_member_unanswered[OF auth body nm thrown, of scenario_env]
  have same: "map (\<lambda>nm. toStringOrEmpty
             (map_of (scenario_body_with ''to_name'' (JObject [(''toString'', JNull)])) nm))
        [''zip_filename'', ''account_key'', ''to_email'', ''filename'', ''pdf_base64'']
      = map (\<lambda>nm. toStringOrEmpty (map_of scenario_body nm))
          [''zip_filename'', ''account_key'', ''to_email'', ''filename'', ''pdf_base64'']"
    by code_simp
  have ok: "POST scenario_env (scenario_request scenario_body (Some ''1''))
      = \<lparr> result = Responded \<lparr> http_status = 200, resp_ok = True, resp_error = None,
                               resp_dryRun = True, resp_messageId = None,
                               resp_threadId = None \<rparr>,
          effects = [] \<rparr>"
    by code_simp
  show ?thesis using t same ok by (intro conjI) simp_all
qed

subsection \<open>Validation errors\<close>

text \<open>
  C3. For a request from an authorized session whose body is JSON and whose seven
  members convert to text, each validation error at the send route (archive filename
  missing, account key missing, recipient address missing or malformed, attachment name
  not ending in \<open>.pdf\<close>, attachment missing, attachment empty) is answered with status
  400, \<open>ok: false\<close> and the message of the first check that fails. The answer is given
  before any call to the mail provider, and the route writes no send-log entry for it.
\<close>

theorem validation_error_rejected_unlogged:
  assumes "claims_ok (req_session request)"
    and "session_user (req_session request) = Some user"
    and "hasAdminAccess (normalizedAllowlist (req_session request)) (user_email user)
           (getProfileRole (req_session request))"
    and "req_json request = Some body" and "body \<noteq> JNull"
    and "toStringOrEmpty (js_prop body ''zip_filename'') = Some zipName"
    and "toStringOrEmpty (js_prop body ''account_key'') = Some accountKey"
    and "toStringOrEmpty (js_prop body ''trade_date'') = Some tradeDate"
    and "toStringOrEmpty (js_prop body ''to_email'') = Some toEmail"
    and "toStringOrEmpty (js_prop body ''to_name'') = Some toName"
    and "toStringOrEmpty (js_prop body ''filename'') = Some filename"
    and "toStringOrEmpty (js_prop body ''pdf_base64'') = Some pdfBase64"
  shows "(zipName = [] \<longrightarrow>
            POST env request = respond (badRequest ''zip_filename is required.'') [])
       \<and> (zipName \<noteq> [] \<and> accountKey = [] \<longrightarrow>
            POST env request = respond (badRequest ''account_key is required.'') [])
       \<and> (zipName \<noteq> [] \<and> accountKey \<noteq> [] \<and> \<not> EMAIL_PATTERN_test (toLowerCase toEmail) \<longrightarrow>
            POST env request
              = respond (badRequest ''to_email must be a valid email address.'') [])
       \<and> (zipName \<noteq> [] \<and> accountKey \<noteq> [] \<and> EMAIL_PATTERN_test (toLowerCase toEmail)
            \<and> \<not> endsWith (toLowerCase filename) ''.pdf'' \<longrightarrow>
            POST env request = respond (badRequest ''filename must end with .pdf.'') [])
       \<and> (zipName \<noteq> [] \<and> accountKey \<noteq> [] \<and> EMAIL_PATTERN_test (toLowerCase toEmail)
            \<and> endsWith (toLowerCase filename) ''.pdf'' \<and> pdfBase64 = [] \<longrightarrow>
            POST env request = respond (badRequest ''pdf_base64 is required.'') [])
       \<and> (zipName \<noteq> [] \<and> accountKey \<noteq> [] \<and> EMAIL_PATTERN_test (toLowerCase toEmail)
            \<and> endsWith (toLowerCase filename) ''.pdf'' \<and> pdfBase64 \<noteq> []
            \<and> Buffer_from_base64 env pdfBase64 = [] \<longrightarrow>
            POST env request = respond (badRequest ''pdf attachment must be non-empty.'') [])
       \<and> effects (respond (badRequest message) []) = []
       \<and> result (respond (badRequest message) [])
           = Responded \<lparr> http_status = 400, resp_ok = False, resp_error = Some message,
                           resp_dryRun = False, resp_messageId = None,
                           resp_threadId = None \<rparr>"
proof -
  have at: "EMAIL_PATTERN_test (toLowerCase toEmail) \<Longrightarrow> js_includes (toLowerCase toEmail) ''@''"
    by (rule EMAIL_PATTERN_test_has_at)
  show ?thesis
    using assms at
    by (cases body) (simp_all add: POST_def respond_def badRequest_def Let_def)
qed

theorem validation_error_rejected_unlogged_witness:
  "POST scenario_env (scenario_request (scenario_body_without ''zip_filename'') None)
     = respond (badRequest ''zip_filename is required.'') []
   \<and> POST scenario_env (scenario_request (scenario_body_without ''account_key'') None)
     = respond (badRequest ''account_key is required.'') []
   \<and> POST scenario_env (scenario_request (scenario_body_with ''to_email'' (JString ''alice.example.com'')) None)
     = respond (badRequest ''to_email must be a valid email address.'') []
   \<and> POST scenario_env (scenario_request (scenario_body_with ''filename'' (JString ''Bill_PR20.txt'')) None)
     = respond (badRequest ''filename must end with .pdf.'') []
   \<and> POST scenario_env (scenario_request (scenario_body_without ''pdf_base64'') None)
     = respond (badRequest ''pdf_base64 is required.'') []
   \<and> POST (scenario_env\<lparr> Buffer_from_base64 := (\<lambda>text. []) \<rparr>) (scenario_request scenario_body None)
     = respond (badRequest ''pdf attachment must be non-empty.'') []"
proof -
  let ?user = "\<lparr> user_id = ''u-1'', user_email = Some ''ops@example.com'' \<rparr>"
  have ses: "claims_ok (req_session (scenario_request members None))"
    "session_user (req_session (scenario_request members None)) = Some ?user"
    "hasAdminAccess (normalizedAllowlist (req_session (scenario_request members None)))
       (user_email ?user) (getProfileRole (req_session (scenario_request members None)))"
    "req_json (scenario_request members None) = Some (JObject members)"
    "JObject members \<noteq> JNull" for members
    by (simp_all add: scenario_defs route_defs toLowerCase_def toLowerChar_def)
  have checks: "EMAIL_PATTERN_test (toLowerCase ''alice@example.com'')"
    "\<not> EMAIL_PATTERN_test (toLowerCase ''alice.example.com'')"
    "endsWith (toLowerCase ''Bill_PR20_2024-01-05.pdf'') ''.pdf''"
    "\<not> endsWith (toLowerCase ''Bill_PR20.txt'') ''.pdf''"
    by code_simp+
  have f1: "toStringOrEmpty (js_prop (JObject (scenario_body_without ''zip_filename'')) ''zip_filename'') = Some []"
    "toStringOrEmpty (js_prop (JObject (scenario_body_without ''zip_filename'')) ''account_key'') = Some ''PR20''"
    "toStringOrEmpty (js_prop (JObject (scenario_body_without ''zip_filename'')) ''trade_date'') = Some ''2024-01-05''"
    "toStringOrEmpty (js_prop (JObject (scenario_body_without ''zip_filename'')) ''to_email'') = Some ''alice@example.com''"
    "toStringOrEmpty (js_prop (JObject (scenario_body_without ''zip_filename'')) ''to_name'') = Some ''Alice''"
    "toStringOrEmpty (js_prop (JObject (scenario_body_without ''zip_filename'')) ''filename'') = Some ''Bill_PR20_2024-01-05.pdf''"
    "toStringOrEmpty (js_prop (JObject (scenario_body_without ''zip_filename'')) ''pdf_base64'') = Some ''JVBERi0=''"
    by code_simp+
  have c1: "POST scenario_env (scenario_request (scenario_body_without ''zip_filename'') None)
     = respond (badRequest ''zip_filename is required.'') []"
    using validation_error_rejected_unlogged
      [OF ses f1, where env="scenario_env" and message="[]"]
    by (simp add: checks)
  have f2: "toStringOrEmpty (js_prop (JObject (scenario_body_without ''account_key'')) ''zip_filename'') = Some ''bills.zip''"
    "toStringOrEmpty (js_prop (JObject (scenario_body_without ''account_key'')) ''account_key'') = Some []"
    "toStringOrEmpty (js_prop (JObject (scenario_body_without ''account_key'')) ''trade_date'') = Some ''2024-01-05''"
    "toStringOrEmpty (js_prop (JObject (scenario_body_without ''account_key'')) ''to_email'') = Some ''alice@example.com''"
    "toStringOrEmpty (js_prop (JObject (scenario_body_without ''account_key'')) ''to_name'') = Some ''Alice''"
    "toStringOrEmpty (js_prop (JObject (scenario_body_without ''account_key'')) ''filename'') = Some ''Bill_PR20_2024-01-05.pdf''"
    "toStringOrEmpty (js_prop (JObject (scenario_body_without ''account_key'')) ''pdf_base64'') = Some ''JVBERi0=''"
    by code_simp+
  have c2: "POST scenario_env (scenario_request (scenario_body_without ''account_key'') None)
     = respond (badRequest ''account_key is required.'') []"
    using validation_error_rejected_unlogged
      [OF ses f2, where env="scenario_env" and message="[]"]
    by (simp add: checks)
  have f3: "toStringOrEmpty (js_prop (JObject (scenario_body_with ''to_email'' (JString ''alice.example.com''))) ''zip_filename'') = Some ''bills.zip''"
    "toStringOrEmpty (js_prop (JObject (scenario_body_with ''to_email'' (JString ''alice.example.com''))) ''account_key'') = Some ''PR20''"
    "toStringOrEmpty (js_prop (JObject (scenario_body_with ''to_email'' (JString ''alice.example.com''))) ''trade_date'') = Some ''2024-01-05''"
    "toStringOrEmpty (js_prop (JObject (scenario_body_with ''to_email'' (JString ''alice.example.com''))) ''to_email'') = Some ''alice.example.com''"
    "toStringOrEmpty (js_prop (JObject (scenario_body_with ''to_email'' (JString ''alice.example.com''))) ''to_name'') = Some ''Alice''"
    "toStringOrEmpty (js_prop (JObject (scenario_body_with ''to_email'' (JString ''alice.example.com''))) ''filename'') = Some ''Bill_PR20_2024-01-05.pdf''"
    "toStringOrEmpty (js_prop (JObject (scenario_body_with ''to_email'' (JString ''alice.example.com''))) ''pdf_base64'') = Some ''JVBERi0=''"
    by code_simp+
  have c3: "POST scenario_env (scenario_request (scenario_body_with ''to_email'' (JString ''alice.example.com'')) None)
     = respond (badRequest ''to_email must be a valid email address.'') []"
    using validation_error_rejected_unlogged
      [OF ses f3, where env="scenario_env" and message="[]"]
    by (simp add: checks)
  have f4: "toStringOrEmpty (js_prop (JObject (scenario_body_with ''filename'' (JString ''Bill_PR20.txt''))) ''zip_filename'') = Some ''bills.zip''"
    "toStringOrEmpty (js_prop (JObject (scenario_body_with ''filename'' (JString ''Bill_PR20.txt''))) ''account_key'') = Some ''PR20''"
    "toStringOrEmpty (js_prop (JObject (scenario_body_with ''filename'' (JString ''Bill_PR20.txt''))) ''trade_date'') = Some ''2024-01-05''"
    "toStringOrEmpty (js_prop (JObject (scenario_body_with ''filename'' (JString ''Bill_PR20.txt''))) ''to_email'') = Some ''alice@example.com''"
    "toStringOrEmpty (js_prop (JObject (scenario_body_with ''filename'' (JString ''Bill_PR20.txt''))) ''to_name'') = Some ''Alice''"
    "toStringOrEmpty (js_prop (JObject (scenario_body_with ''filename'' (JString ''Bill_PR20.txt''))) ''filename'') = Some ''Bill_PR20.txt''"
    "toStringOrEmpty (js_prop (JObject (scenario_body_with ''filename'' (JString ''Bill_PR20.txt''))) ''pdf_base64'') = Some ''JVBERi0=''"
    by code_simp+
  have c4: "POST scenario_env (scenario_request (scenario_body_with ''filename'' (JString ''Bill_PR20.txt'')) None)
     = respond (badRequest ''filename must end with .pdf.'') []"
    using validation_error_rejected_unlogged
      [OF ses f4, where env="scenario_env" and message="[]"]
    by (simp add: checks)
  have f5: "toStringOrEmpty (js_prop (JObject (scenario_body_without ''pdf_base64'')) ''zip_filename'') = Some ''bills.zip''"
    "toStringOrEmpty (js_prop (JObject (scenario_body_without ''pdf_base64'')) ''account_key'') = Some ''PR20''"
    "toStringOrEmpty (js_prop (JObject (scenario_body_without ''pdf_base64'')) ''trade_date'') = Some ''2024-01-05''"
    "toStringOrEmpty (js_prop (JObject (scenario_body_without ''pdf_base64'')) ''to_email'') = Some ''alice@example.com''"
    "toStringOrEmpty (js_prop (JObject (scenario_body_without ''pdf_base64'')) ''to_name'') = Some ''Alice''"
    "toStringOrEmpty (js_prop (JObject (scenario_body_without ''pdf_base64'')) ''filename'') = Some ''Bill_PR20_2024-01-05.pdf''"
    "toStringOrEmpty (js_prop (JObject (scenario_body_without ''pdf_base64'')) ''pdf_base64'') = Some []"
    by code_simp+
  have c5: "POST scenario_env (scenario_request (scenario_body_without ''pdf_base64'') None)
     = respond (badRequest ''pdf_base64 is required.'') []"
    using validation_error_rejected_unlogged
      [OF ses f5, where env="scenario_env" and message="[]"]
    by (simp add: checks)
  have f6: "toStringOrEmpty (js_prop (JObject scenario_body) ''zip_filename'') = Some ''bills.zip''"
    "toStringOrEmpty (js_prop (JObject scenario_body) ''account_key'') = Some ''PR20''"
    "toStringOrEmpty (js_prop (JObject scenario_body) ''trade_date'') = Some ''2024-01-05''"
    "toStringOrEmpty (js_prop (JObject scenario_body) ''to_email'') = Some ''alice@example.com''"
    "toStringOrEmpty (js_prop (JObject scenario_body) ''to_name'') = Some ''Alice''"
    "toStringOrEmpty (js_prop (JObject scenario_body) ''filename'') = Some ''Bill_PR20_2024-01-05.pdf''"
    "toStringOrEmpty (js_prop (JObject scenario_body) ''pdf_base64'') = Some ''JVBERi0=''"
    by code_simp+
  have c6: "POST (scenario_env\<lparr> Buffer_from_base64 := (\<lambda>text. []) \<rparr>) (scenario_request scenario_body None)
     = respond (badRequest ''pdf attachment must be non-empty.'') []"
    using validation_error_rejected_unlogged
      [OF ses f6, where env="scenario_env\<lparr> Buffer_from_base64 := (\<lambda>text. []) \<rparr>" and message="[]"]
    by (simp add: checks)
  show ?thesis using c1 c2 c3 c4 c5 c6 by simp
qed

text \<open>
  As C3 is worded, a validation error is also logged to the audit trail. A request without
  a recipient address is rejected with its message and the route writes no send-log
  entry; the only effects of the route are provider calls and send-log writes. A request
  without an archive filename whose \<open>trade_date\<close> is the object \<open>{"toString": null}\<close> gets
  no answer from the handler at all, and no send-log entry either.
\<close>

theorem validation_error_not_logged_counterexample:
  "result (POST scenario_env (scenario_request (scenario_body_without ''to_email'') None))
     = Responded (badRequest ''to_email must be a valid email address.'')
   \<and> effects (POST scenario_env (scenario_request (scenario_body_without ''to_email'') None))
     = []
   \<and> POST scenario_env
       (scenario_request
          ((''trade_date'', JObject [(''toString'', JNull)])
           # scenario_body_without ''zip_filename'') None)
     = \<lparr> result = Unhandled, effects = [] \<rparr>"
  by code_simp

subsection \<open>Transport errors\<close>

lemma try_lengths_SomeD:
  "try_lengths k lo hi = Some e \<Longrightarrow> \<exists>j. lo \<le> j \<and> j \<le> hi \<and> k j = Some e"
proof (induction hi)
  case 0
  then show ?case by (auto split: if_splits)
next
  case (Suc h)
  show ?case
  proof (cases "Suc h < lo")
    case True
    then show ?thesis using Suc.prems by simp
  next
    case False
    show ?thesis
    proof (cases "k (Suc h)")
      case None
      then have "try_lengths k lo h = Some e" using Suc.prems False by simp
      then obtain j where "lo \<le> j" "j \<le> h" "k j = Some e" using Suc.IH by blast
      then show ?thesis by (intro exI[of _ j]) simp
    next
      case (Some e')
      then have "e' = e" using Suc.prems False by simp
      then show ?thesis using Some False by (intro exI[of _ "Suc h"]) simp
    qed
  qed
qed

lemma class_run:
  assumes "j \<le> length (takeWhile P (drop i s))" and "1 \<le> j"
  shows "i + j \<le> length s \<and> list_all P (take j (drop i s))"
proof -
  have "length (takeWhile P (drop i s)) \<le> length (drop i s)" by (rule length_takeWhile_le)
  then have a: "j \<le> length s - i" using assms by simp
  then have len: "i + j \<le> length s" using assms(2) by arith
  have "take j (drop i s) = take j (takeWhile P (drop i s))"
    using assms(1) by (metis takeWhile_eq_take take_take min.absorb1)
  moreover have "list_all P (takeWhile P (drop i s))"
    by (simp add: list_all_iff) (meson set_takeWhileD)
  ultimately have "list_all P (take j (drop i s))"
    by (metis list_all_iff in_set_takeD)
  then show ?thesis using len by simp
qed

lemma take_Suc_drop:
  assumes "k < length s"
  shows "take (Suc n) (drop k s) = s ! k # take n (drop (Suc k) s)"
  using assms by (metis Cons_nth_drop_Suc take_Suc_Cons)

lemma take_add_drop: "take (a + b) (drop k s) = take a (drop k s) @ take b (drop (k + a) s)"
  by (simp add: take_add add.commute)

text \<open>The shape of a text the pattern matches.\<close>

lemma pattern_match_shape:
  assumes "match_items EMAIL_IN_TEXT_PATTERN s i = Some e"
  shows "\<exists>l d t. take (e - i) (drop i s) = l @ ''@'' @ d @ ''.'' @ t
           \<and> l \<noteq> [] \<and> list_all isLocalChar l
           \<and> d \<noteq> [] \<and> list_all isDomainChar d
           \<and> 2 \<le> length t \<and> list_all isAsciiLetter t
           \<and> i < e \<and> e \<le> length s"
proof -
  let ?r1 = "[Chr CHR ''@'', ClassRepeat isDomainChar 1, Chr CHR ''.'',
              ClassRepeat isAsciiLetter 2, WordBoundary]"
  let ?r2 = "[ClassRepeat isDomainChar 1, Chr CHR ''.'', ClassRepeat isAsciiLetter 2, WordBoundary]"
  let ?r3 = "[Chr CHR ''.'', ClassRepeat isAsciiLetter 2, WordBoundary]"
  let ?r4 = "[ClassRepeat isAsciiLetter 2, WordBoundary]"
  have "try_lengths (\<lambda>j. match_items ?r1 s (i + j)) 1
          (length (takeWhile isLocalChar (drop i s))) = Some e"
    using assms by (simp add: EMAIL_IN_TEXT_PATTERN_def split: if_splits)
  then obtain j1 where j1: "1 \<le> j1" "j1 \<le> length (takeWhile isLocalChar (drop i s))"
    "match_items ?r1 s (i + j1) = Some e"
    using try_lengths_SomeD by blast
  have at: "i + j1 < length s" "s ! (i + j1) = CHR ''@''"
    and m2: "match_items ?r2 s (i + j1 + 1) = Some e"
    using j1(3) by (auto split: if_splits)
  have "try_lengths (\<lambda>j. match_items ?r3 s (i + j1 + 1 + j)) 1
          (length (takeWhile isDomainChar (drop (i + j1 + 1) s))) = Some e"
    using m2 by simp
  then obtain j2 where j2: "1 \<le> j2"
    "j2 \<le> length (takeWhile isDomainChar (drop (i + j1 + 1) s))"
    "match_items ?r3 s (i + j1 + 1 + j2) = Some e"
    using try_lengths_SomeD by blast
  have dot: "i + j1 + 1 + j2 < length s" "s ! (i + j1 + 1 + j2) = CHR ''.''"
    and m4: "match_items ?r4 s (i + j1 + 1 + j2 + 1) = Some e"
    using j2(3) by (auto split: if_splits)
  have "try_lengths (\<lambda>j. match_items [WordBoundary] s (i + j1 + 1 + j2 + 1 + j)) 2
          (length (takeWhile isAsciiLetter (drop (i + j1 + 1 + j2 + 1) s))) = Some e"
    using m4 by simp
  then obtain j3 where j3: "2 \<le> j3"
    "j3 \<le> length (takeWhile isAsciiLetter (drop (i + j1 + 1 + j2 + 1) s))"
    "match_items [WordBoundary] s (i + j1 + 1 + j2 + 1 + j3) = Some e"
    using try_lengths_SomeD by blast
  have e: "e = i + j1 + 1 + j2 + 1 + j3" using j3(3) by (auto split: if_splits)
  define l where "l = take j1 (drop i s)"
  define d where "d = take j2 (drop (i + j1 + 1) s)"
  define t where "t = take j3 (drop (i + j1 + 1 + j2 + 1) s)"
  have c1: "i + j1 \<le> length s \<and> list_all isLocalChar l"
    unfolding l_def using class_run[OF j1(2) j1(1)] .
  have c2: "i + j1 + 1 + j2 \<le> length s \<and> list_all isDomainChar d"
    unfolding d_def using class_run[OF j2(2) j2(1)] .
  have "1 \<le> j3" using j3(1) by simp
  then have c3: "i + j1 + 1 + j2 + 1 + j3 \<le> length s \<and> list_all isAsciiLetter t"
    unfolding t_def using class_run[OF j3(2)] by simp
  have ll: "length l = j1" "length d = j2" "length t = j3"
    using c3 by (auto simp: l_def d_def t_def)
  have "e - i = j1 + (Suc (j2 + (Suc j3)))" using e by simp
  then have "take (e - i) (drop i s)
      = take j1 (drop i s) @ take (Suc (j2 + Suc j3)) (drop (i + j1) s)"
    by (simp only: take_add_drop)
  also have "take (Suc (j2 + Suc j3)) (drop (i + j1) s)
      = CHR ''@'' # take (j2 + Suc j3) (drop (Suc (i + j1)) s)"
    using take_Suc_drop[OF at(1)] at(2) by simp
  also have "take (j2 + Suc j3) (drop (Suc (i + j1)) s)
      = take j2 (drop (Suc (i + j1)) s) @ take (Suc j3) (drop (Suc (i + j1) + j2) s)"
    by (simp only: take_add_drop)
  also have "take (Suc j3) (drop (Suc (i + j1) + j2) s)
      = CHR ''.'' # take j3 (drop (Suc (Suc (i + j1) + j2)) s)"
    using take_Suc_drop[of "Suc (i + j1) + j2" s j3] dot by simp
  finally have "take (e - i) (drop i s) = l @ ''@'' @ d @ ''.'' @ t"
    by (simp add: l_def d_def t_def)
  moreover have "l \<noteq> []" "d \<noteq> []" "2 \<le> length t"
    using ll j1(1) j2(1) j3(1) by auto
  moreover have "i < e" "e \<le> length s" using e c3 by simp_all
  ultimately show ?thesis using c1 c2 c3 by blast
qed


subsection \<open>The mask of a matched address\<close>

lemma char_codes:
  "(of_char CHR ''@'' :: nat) = 64" "(of_char CHR ''*'' :: nat) = 42"
  "(of_char CHR ''.'' :: nat) = 46" "(of_char CHR ''_'' :: nat) = 95"
  "(of_char CHR ''%'' :: nat) = 37" "(of_char CHR ''+'' :: nat) = 43"
  "(of_char CHR ''-'' :: nat) = 45"
  by simp_all

lemma isWhiteSpace_code:
  assumes "isWhiteSpace c"
  shows "(of_char c :: nat) \<in> {9, 10, 11, 12, 13, 32, 160}"
proof -
  from assms consider "c = CHR 0x09" | "c = CHR 0x0A" | "c = CHR 0x0B" | "c = CHR 0x0C"
    | "c = CHR 0x0D" | "c = CHR 0x20" | "c = CHR 0xA0"
    unfolding isWhiteSpace_def by blast
  then show ?thesis by cases simp_all
qed

lemma code_not:
  assumes "(of_char c :: nat) \<notin> {9, 10, 11, 12, 13, 32, 160, 64, 42}"
  shows "c \<noteq> CHR ''@'' \<and> c \<noteq> CHR ''*'' \<and> \<not> isWhiteSpace c"
proof (intro conjI notI)
  assume "c = CHR ''@''"
  then show False using assms by simp
next
  assume "c = CHR ''*''"
  then show False using assms by simp
next
  assume "isWhiteSpace c"
  then show False using isWhiteSpace_code[of c] assms by auto
qed

lemma class_chars:
  "isAsciiLetter c \<Longrightarrow> c \<noteq> CHR ''@'' \<and> c \<noteq> CHR ''*'' \<and> \<not> isWhiteSpace c"
  "isAsciiDigit c \<Longrightarrow> c \<noteq> CHR ''@'' \<and> c \<noteq> CHR ''*'' \<and> \<not> isWhiteSpace c"
proof -
  assume "isAsciiLetter c"
  then have "(of_char c :: nat) \<notin> {9, 10, 11, 12, 13, 32, 160, 64, 42}"
    unfolding isAsciiLetter_def Let_def by auto
  then show "c \<noteq> CHR ''@'' \<and> c \<noteq> CHR ''*'' \<and> \<not> isWhiteSpace c" by (rule code_not)
next
  assume "isAsciiDigit c"
  then have "(of_char c :: nat) \<notin> {9, 10, 11, 12, 13, 32, 160, 64, 42}"
    unfolding isAsciiDigit_def Let_def by auto
  then show "c \<noteq> CHR ''@'' \<and> c \<noteq> CHR ''*'' \<and> \<not> isWhiteSpace c" by (rule code_not)
qed

lemma isLocalChar_not:
  assumes "isLocalChar c"
  shows "c \<noteq> CHR ''@'' \<and> c \<noteq> CHR ''*'' \<and> \<not> isWhiteSpace c"
proof -
  from assms consider "isAsciiLetter c" | "isAsciiDigit c" | "c = CHR ''.''" | "c = CHR ''_''"
    | "c = CHR ''%''" | "c = CHR ''+''" | "c = CHR ''-''"
    unfolding isLocalChar_def by blast
  then show ?thesis
  proof cases
    case 1
    then show ?thesis by (rule class_chars(1))
  next
    case 2
    then show ?thesis by (rule class_chars(2))
  qed (rule code_not, simp)+
qed

lemma isDomainChar_not:
  assumes "isDomainChar c"
  shows "c \<noteq> CHR ''@''"
proof -
  from assms consider "isAsciiLetter c" | "isAsciiDigit c" | "c = CHR ''.''" | "c = CHR ''-''"
    unfolding isDomainChar_def by blast
  then show ?thesis
  proof cases
    case 1
    then show ?thesis using class_chars(1) by blast
  next
    case 2
    then show ?thesis using class_chars(2) by blast
  qed simp_all
qed

lemma of_char_toLowerChar:
  "(of_char (toLowerChar c) :: nat) =
     (if (65 \<le> (of_char c :: nat) \<and> (of_char c :: nat) \<le> 90)
         \<or> (192 \<le> (of_char c :: nat) \<and> (of_char c :: nat) \<le> 222 \<and> (of_char c :: nat) \<noteq> 215)
      then of_char c + 32 else of_char c)"
  by (auto simp: toLowerChar_def Let_def)

lemma toLowerChar_at: "toLowerChar c = CHR ''@'' \<longleftrightarrow> c = CHR ''@''"
proof -
  have "toLowerChar c = CHR ''@'' \<longleftrightarrow> (of_char (toLowerChar c) :: nat) = of_char CHR ''@''"
    by (simp only: of_char_eq_iff)
  also have "\<dots> \<longleftrightarrow> (of_char c :: nat) = of_char CHR ''@''"
    by (auto simp: of_char_toLowerChar)
  also have "\<dots> \<longleftrightarrow> c = CHR ''@''" by (simp only: of_char_eq_iff)
  finally show ?thesis .
qed

lemma toLowerCase_no_at: "CHR ''@'' \<in> set (toLowerCase s) \<longleftrightarrow> CHR ''@'' \<in> set s"
proof (induction s)
  case Nil
  then show ?case by (simp add: toLowerCase_def)
next
  case (Cons c cs)
  have "CHR ''@'' = toLowerChar c \<longleftrightarrow> CHR ''@'' = c" using toLowerChar_at[of c] by auto
  then show ?case using Cons by (simp add: toLowerCase_def)
qed

lemma js_trim_id:
  assumes "s \<noteq> []" and "\<not> isWhiteSpace (hd s)" and "\<not> isWhiteSpace (last s)"
  shows "js_trim s = s"
proof -
  have a: "dropWhile isWhiteSpace s = s" using assms(1,2) by (cases s) auto
  have "rev s \<noteq> []" "\<not> isWhiteSpace (hd (rev s))" using assms(1,3) by (simp_all add: hd_rev)
  then have "dropWhile isWhiteSpace (rev s) = rev s" by (cases "rev s") auto
  then show ?thesis by (simp add: js_trim_def a)
qed

lemma split_on_append:
  "d \<notin> set x \<Longrightarrow> split_on d (x @ d # y) = x # split_on d y"
  by (induction x) auto

lemma js_includes_iff: "js_includes s p \<longleftrightarrow> (\<exists>pre post. s = pre @ p @ post)"
proof (induction s)
  case Nil
  then show ?case by auto
next
  case (Cons c cs)
  have sw: "startsWith (c # cs) p \<longleftrightarrow> (\<exists>post. c # cs = p @ post)"
    unfolding startsWith_def by (metis append_eq_conv_conj)
  show ?case
  proof
    assume "js_includes (c # cs) p"
    then consider "startsWith (c # cs) p" | "js_includes cs p" by auto
    then show "\<exists>pre post. c # cs = pre @ p @ post"
    proof cases
      case 1
      then obtain post where "c # cs = p @ post" using sw by blast
      then show ?thesis by (intro exI[of _ "[]"] exI[of _ post]) simp
    next
      case 2
      then obtain pre post where "cs = pre @ p @ post" using Cons.IH by blast
      then show ?thesis by (intro exI[of _ "c # pre"] exI[of _ post]) simp
    qed
  next
    assume "\<exists>pre post. c # cs = pre @ p @ post"
    then obtain pre post where e: "c # cs = pre @ p @ post" by blast
    show "js_includes (c # cs) p"
    proof (cases pre)
      case Nil
      then have "startsWith (c # cs) p" using e sw by auto
      then show ?thesis by simp
    next
      case (Cons a pre')
      then have "cs = pre' @ p @ post" using e by simp
      then show ?thesis using Cons.IH by auto
    qed
  qed
qed

text \<open>
  A text in which the only \<open>@\<close> is preceded by \<open>*\<close> does not contain an address whose
  local part ends in a character of the local class.
\<close>

lemma unique_at_split:
  assumes "xs @ CHR ''@'' # ys = xs' @ CHR ''@'' # ys'"
    and "CHR ''@'' \<notin> set xs" and "CHR ''@'' \<notin> set xs'"
  shows "xs = xs'"
proof -
  have tw: "takeWhile (\<lambda>c. c \<noteq> CHR ''@'') (zs @ CHR ''@'' # ws) = zs"
    if "CHR ''@'' \<notin> set zs" for zs ws
    using that by (induction zs) auto
  show ?thesis using tw[OF assms(2), of ys] tw[OF assms(3), of ys'] assms(1) by simp
qed

lemma starred_text_excludes_address:
  assumes out: "out = before @ ''*@'' @ after"
    and b: "CHR ''@'' \<notin> set before" and a: "CHR ''@'' \<notin> set after"
    and m: "m = l @ ''@'' @ dd" and l: "l \<noteq> []" "list_all isLocalChar l"
  shows "\<not> js_includes out m"
proof
  assume "js_includes out m"
  then obtain pre post where e: "out = pre @ m @ post" using js_includes_iff by blast
  have cnt: "count_list out CHR ''@'' = 1"
    using out b a by (simp add: count_list_0_iff)
  have "count_list out CHR ''@''
          = count_list pre CHR ''@'' + count_list l CHR ''@'' + 1
            + count_list dd CHR ''@'' + count_list post CHR ''@''"
    using e m by simp
  then have "count_list pre CHR ''@'' = 0" using cnt by simp
  then have pre: "CHR ''@'' \<notin> set pre" by (simp add: count_list_0_iff)
  have ll: "CHR ''@'' \<notin> set l" using l(2) isLocalChar_not by (auto simp: list_all_iff)
  have "(pre @ l) @ CHR ''@'' # (dd @ post) = (before @ ''*'') @ CHR ''@'' # after"
    using e m out by simp
  then have "pre @ l = before @ ''*''"
    using unique_at_split[of "pre @ l" "dd @ post" "before @ ''*''" after] pre ll b by simp
  then have "last (pre @ l) = CHR ''*''" by simp
  then have "last l = CHR ''*''" using l(1) by simp
  moreover have "isLocalChar (last l)" using l by (simp add: list_all_iff)
  ultimately show False using isLocalChar_not by auto
qed

lemma maskEmail_of_match:
  assumes m: "m = l @ ''@'' @ d @ ''.'' @ t"
    and l: "l \<noteq> []" "list_all isLocalChar l"
    and d: "list_all isDomainChar d"
    and t: "t \<noteq> []" "list_all isAsciiLetter t"
  shows "maskEmail m = take (if length l \<le> 2 then 1 else 2) (toLowerCase l) @ ''***@''
                         @ toLowerCase (d @ ''.'' @ t)"
proof -
  have hd: "\<not> isWhiteSpace (hd m)"
    using m l isLocalChar_not[of "hd l"] by (cases l) (auto simp: list_all_iff)
  have "last m = last t" using m t(1) by simp
  moreover have "isAsciiLetter (last t)" using t by (simp add: list_all_iff)
  ultimately have la: "\<not> isWhiteSpace (last m)" using class_chars(1) by auto
  have tr: "js_trim m = m" using js_trim_id[OF _ hd la] m by simp
  have low: "toLowerCase m = toLowerCase l @ CHR ''@'' # toLowerCase (d @ ''.'' @ t)"
    using m by (simp add: toLowerCase_def toLowerChar_def)
  have nl: "CHR ''@'' \<notin> set (toLowerCase l)"
    using l(2) isLocalChar_not by (auto simp: toLowerCase_no_at list_all_iff)
  have "CHR ''@'' \<notin> set (d @ ''.'' @ t)"
    using d t(2) isDomainChar_not class_chars(1) by (auto simp: list_all_iff)
  then have nd: "CHR ''@'' \<notin> set (toLowerCase (d @ ''.'' @ t))"
    by (simp only: toLowerCase_no_at) simp
  have sp: "split_on CHR ''@'' (toLowerCase m) = [toLowerCase l, toLowerCase (d @ ''.'' @ t)]"
    unfolding low using split_on_append[OF nl] split_on_no_delim[OF nd] by simp
  have ne: "toLowerCase l \<noteq> []" "toLowerCase (d @ ''.'' @ t) \<noteq> []"
    using l(1) by (simp_all add: toLowerCase_def)
  have len: "length (toLowerCase l) = length l" by (simp add: toLowerCase_def)
  show ?thesis
    using ne len by (simp add: maskEmail_def tr sp js_slice_def Let_def)
qed

lemma maskEmail_excludes_match:
  assumes m: "m = l @ ''@'' @ d @ ''.'' @ t"
    and l: "l \<noteq> []" "list_all isLocalChar l"
    and d: "list_all isDomainChar d"
    and t: "t \<noteq> []" "list_all isAsciiLetter t"
    and b: "CHR ''@'' \<notin> set before" and a: "CHR ''@'' \<notin> set after"
  shows "\<not> js_includes (before @ maskEmail m @ after) m"
proof -
  let ?p = "take (if length l \<le> 2 then 1 else 2) (toLowerCase l)"
  let ?r = "toLowerCase (d @ ''.'' @ t)"
  have mk: "maskEmail m = ?p @ ''***@'' @ ?r" using maskEmail_of_match[OF assms(1-6)] .
  have nl: "CHR ''@'' \<notin> set (toLowerCase l)"
    using l(2) isLocalChar_not by (auto simp: toLowerCase_no_at list_all_iff)
  then have np: "CHR ''@'' \<notin> set ?p" by (meson in_set_takeD)
  have "CHR ''@'' \<notin> set (d @ ''.'' @ t)"
    using d t(2) isDomainChar_not class_chars(1) by (auto simp: list_all_iff)
  then have nd: "CHR ''@'' \<notin> set ?r" by (simp only: toLowerCase_no_at) simp
  have out: "before @ maskEmail m @ after = (before @ ?p @ ''**'') @ ''*@'' @ (?r @ after)"
    by (simp add: mk)
  have nb: "CHR ''@'' \<notin> set (before @ ?p @ ''**'')" using b np by simp
  have na: "CHR ''@'' \<notin> set (?r @ after)" using a nd by simp
  have mm: "m = l @ ''@'' @ (d @ ''.'' @ t)" using m by simp
  show ?thesis
    using starred_text_excludes_address[OF out nb na mm l(1) l(2)] .
qed

subsection \<open>The scan over a message\<close>

lemma replace_scan_skip:
  assumes "\<forall>j\<in>set js. j < li \<or> match_items pat s j = None"
  shows "replace_scan pat f s (js @ ks) li np = replace_scan pat f s ks li np"
  using assms by (induction js) auto

lemma pattern_match_needs_at:
  assumes "match_items EMAIL_IN_TEXT_PATTERN s j = Some e"
  shows "CHR ''@'' \<in> set (drop j s)"
proof -
  obtain l d t where "take (e - j) (drop j s) = l @ ''@'' @ d @ ''.'' @ t"
    using pattern_match_shape[OF assms] by blast
  then have "CHR ''@'' \<in> set (take (e - j) (drop j s))" by simp
  then show ?thesis by (meson in_set_takeD)
qed

lemma no_match_after:
  assumes "CHR ''@'' \<notin> set (drop e s)" and "e \<le> j"
  shows "match_items EMAIL_IN_TEXT_PATTERN s j = None"
proof (cases "match_items EMAIL_IN_TEXT_PATTERN s j")
  case None
  then show ?thesis .
next
  case (Some e')
  have "drop j s = drop (j - e) (drop e s)" using assms(2) by simp
  then have "set (drop j s) \<subseteq> set (drop e s)" by (metis set_drop_subset)
  then show ?thesis using pattern_match_needs_at[OF Some] assms(1) by blast
qed

text \<open>
  A message whose first match of the pattern is the text from \<open>i\<close> to \<open>e\<close>, with no \<open>@\<close>
  after it: the match is replaced by its mask and the rest is kept.
\<close>

lemma sanitize_first_match:
  assumes m: "match_items EMAIL_IN_TEXT_PATTERN message i = Some e"
    and first: "\<forall>j<i. match_items EMAIL_IN_TEXT_PATTERN message j = None"
    and after: "CHR ''@'' \<notin> set (drop e message)"
  shows "sanitizeErrorMessage message
           = take i message @ maskEmail (take (e - i) (drop i message)) @ drop e message"
proof -
  have ie: "i < e" "e \<le> length message" using pattern_match_shape[OF m] by auto
  let ?n = "length message"
  have "[0..<i + (Suc ?n - i)] = [0..<i] @ [i..<i + (Suc ?n - i)]"
    by (rule upt_add_eq_append) simp
  moreover have "i + (Suc ?n - i) = Suc ?n" using ie by simp
  moreover have "[i..<Suc ?n] = i # [Suc i..<Suc ?n]" using ie by (intro upt_conv_Cons) simp
  ultimately have split: "[0..<Suc ?n] = [0..<i] @ i # [Suc i..<Suc ?n]" by simp
  have a: "\<forall>j\<in>set [0..<i]. j < 0 \<or> match_items EMAIL_IN_TEXT_PATTERN message j = None"
    using first by simp
  have b: "\<forall>j\<in>set [Suc i..<Suc ?n]. j < e \<or> match_items EMAIL_IN_TEXT_PATTERN message j = None"
    using no_match_after[OF after] by (meson not_le_imp_less)
  have rest: "replace_scan EMAIL_IN_TEXT_PATTERN maskEmail message [Suc i..<Suc ?n] e e
                = drop e message"
    using replace_scan_skip[OF b, of maskEmail "[]" e] by simp
  have "sanitizeErrorMessage message
          = replace_scan EMAIL_IN_TEXT_PATTERN maskEmail message (i # [Suc i..<Suc ?n]) 0 0"
    unfolding sanitizeErrorMessage_def replace_global_def split
    using replace_scan_skip[OF a] by simp
  also have "\<dots> = take i message @ maskEmail (take (e - i) (drop i message))
                      @ replace_scan EMAIL_IN_TEXT_PATTERN maskEmail message
                          [Suc i..<Suc ?n] e e"
    using m ie by simp
  finally show ?thesis using rest by simp
qed

lemma sanitize_excludes_first_match:
  assumes m: "match_items EMAIL_IN_TEXT_PATTERN message i = Some e"
    and first: "\<forall>j<i. match_items EMAIL_IN_TEXT_PATTERN message j = None"
    and before: "CHR ''@'' \<notin> set (take i message)"
    and after: "CHR ''@'' \<notin> set (drop e message)"
  shows "\<not> js_includes (sanitizeErrorMessage message) (take (e - i) (drop i message))"
proof -
  obtain l d t where sh: "take (e - i) (drop i message) = l @ ''@'' @ d @ ''.'' @ t"
    "l \<noteq> []" "list_all isLocalChar l" "list_all isDomainChar d"
    "2 \<le> length t" "list_all isAsciiLetter t"
    using pattern_match_shape[OF m] by blast
  have t: "t \<noteq> []" using sh(5) by auto
  show ?thesis
    unfolding sanitize_first_match[OF m first after]
    using maskEmail_excludes_match[OF sh(1-4) t sh(6) before after] .
qed

text \<open>
  The replacement in general: whatever the matches of the pattern in a message are, the
  result is the message with each of them replaced by its mask, and every message has
  such a list of matches.
\<close>

lemma upt_split_match:
  assumes "p \<le> i" and "i < e" and "e \<le> n"
  shows "[p..<Suc n] = [p..<i] @ i # [Suc i..<e] @ [e..<Suc n]"
proof -
  have "[p..<i + (Suc n - i)] = [p..<i] @ [i..<i + (Suc n - i)]"
    using assms(1) by (rule upt_add_eq_append)
  moreover have "i + (Suc n - i) = Suc n" using assms by simp
  moreover have "[i..<Suc n] = i # [Suc i..<Suc n]" using assms by (intro upt_conv_Cons) simp
  moreover have "[Suc i..<e + (Suc n - e)] = [Suc i..<e] @ [e..<e + (Suc n - e)]"
    using assms(2) by (intro upt_add_eq_append) simp
  moreover have "e + (Suc n - e) = Suc n" using assms by simp
  ultimately show ?thesis by simp
qed

lemma replace_scan_matches:
  assumes "leftmost_matches EMAIL_IN_TEXT_PATTERN s p ms"
  shows "replace_scan EMAIL_IN_TEXT_PATTERN f s [p..<Suc (length s)] p p
           = replace_matches f s p ms"
  using assms
proof (induction ms arbitrary: p)
  case Nil
  then have "\<forall>j\<in>set [p..<Suc (length s)]. j < p \<or> match_items EMAIL_IN_TEXT_PATTERN s j = None"
    by simp
  from replace_scan_skip[OF this, of f "[]" p] show ?case by simp
next
  case (Cons m ms)
  obtain i e where m: "m = (i, e)" by (cases m)
  have pi: "p \<le> i" and mt: "match_items EMAIL_IN_TEXT_PATTERN s i = Some e"
    and before: "\<forall>j\<in>set [p..<i]. match_items EMAIL_IN_TEXT_PATTERN s j = None"
    and rest: "leftmost_matches EMAIL_IN_TEXT_PATTERN s e ms"
    using Cons.prems m by simp_all
  have ie: "i < e" "e \<le> length s" using pattern_match_shape[OF mt] by auto
  have a: "\<forall>j\<in>set [p..<i]. j < p \<or> match_items EMAIL_IN_TEXT_PATTERN s j = None"
    using before by simp
  have b: "\<forall>j\<in>set [Suc i..<e]. j < e \<or> match_items EMAIL_IN_TEXT_PATTERN s j = None"
    by simp
  have "replace_scan EMAIL_IN_TEXT_PATTERN f s [p..<Suc (length s)] p p
          = replace_scan EMAIL_IN_TEXT_PATTERN f s
              (i # [Suc i..<e] @ [e..<Suc (length s)]) p p"
    unfolding upt_split_match[OF pi ie] using replace_scan_skip[OF a] by simp
  also have "\<dots> = take (i - p) (drop p s) @ f (take (e - i) (drop i s))
                    @ replace_scan EMAIL_IN_TEXT_PATTERN f s
                        ([Suc i..<e] @ [e..<Suc (length s)]) e e"
    using pi mt ie by simp
  also have "replace_scan EMAIL_IN_TEXT_PATTERN f s ([Suc i..<e] @ [e..<Suc (length s)]) e e
               = replace_scan EMAIL_IN_TEXT_PATTERN f s [e..<Suc (length s)] e e"
    using replace_scan_skip[OF b] by simp
  also have "\<dots> = replace_matches f s e ms" using Cons.IH[OF rest] .
  finally show ?case unfolding m by simp
qed

lemma sanitize_all_matches:
  assumes "leftmost_matches EMAIL_IN_TEXT_PATTERN message 0 ms"
  shows "sanitizeErrorMessage message = replace_matches maskEmail message 0 ms"
  unfolding sanitizeErrorMessage_def replace_global_def
  using replace_scan_matches[OF assms] .

lemma leftmost_matches_exist: "\<exists>ms. leftmost_matches EMAIL_IN_TEXT_PATTERN s p ms"
proof (induction "Suc (length s) - p" arbitrary: p rule: less_induct)
  case less
  show ?case
  proof (cases "\<forall>j\<in>set [p..<Suc (length s)]. match_items EMAIL_IN_TEXT_PATTERN s j = None")
    case True
    then have "leftmost_matches EMAIL_IN_TEXT_PATTERN s p []" by simp
    then show ?thesis by blast
  next
    case False
    define hit where "hit j = (p \<le> j \<and> match_items EMAIL_IN_TEXT_PATTERN s j \<noteq> None)" for j
    from False have "\<exists>j. hit j" unfolding hit_def by auto
    then obtain i where i: "hit i" "\<And>j. j < i \<Longrightarrow> \<not> hit j"
      using exists_least_iff[of hit] by blast
    from i(1) obtain e where e: "p \<le> i" "match_items EMAIL_IN_TEXT_PATTERN s i = Some e"
      unfolding hit_def by blast
    have ie: "i < e" "e \<le> length s" using pattern_match_shape[OF e(2)] by auto
    have before: "\<forall>j\<in>set [p..<i]. match_items EMAIL_IN_TEXT_PATTERN s j = None"
      using i(2) unfolding hit_def by auto
    have "Suc (length s) - e < Suc (length s) - p" using e(1) ie by simp
    from less[OF this] obtain ms where "leftmost_matches EMAIL_IN_TEXT_PATTERN s e ms" by blast
    then have "leftmost_matches EMAIL_IN_TEXT_PATTERN s p ((i, e) # ms)"
      using e before by simp
    then show ?thesis by blast
  qed
qed

text \<open>
  The mask of a match: the match is a local part, \<open>@\<close> and a domain; the mask keeps the
  first character of a local part of one or two characters and the first two of a longer
  one, in lower case, and the domain in lower case. It does not contain the match.
\<close>

lemma mask_of_pattern_match:
  assumes mt: "match_items EMAIL_IN_TEXT_PATTERN s i = Some e"
    and a: "a = take (e - i) (drop i s)"
    and l: "l = takeWhile (\<lambda>c. c \<noteq> CHR ''@'') a"
  shows "maskEmail a = take (if length l \<le> 2 then 1 else 2) (toLowerCase l) @ ''***@''
                         @ toLowerCase (drop (Suc (length l)) a)
         \<and> \<not> js_includes (maskEmail a) a"
proof -
  obtain l' d t where sh: "a = l' @ ''@'' @ d @ ''.'' @ t"
    "l' \<noteq> []" "list_all isLocalChar l'" "list_all isDomainChar d"
    "2 \<le> length t" "list_all isAsciiLetter t"
    using pattern_match_shape[OF mt] a by blast
  have t: "t \<noteq> []" using sh(5) by auto
  have "\<forall>c\<in>set l'. c \<noteq> CHR ''@''"
    using sh(3) isLocalChar_not by (auto simp: list_all_iff)
  then have "takeWhile (\<lambda>c. c \<noteq> CHR ''@'') (l' @ ''@'' @ d @ ''.'' @ t) = l'"
    by (simp add: takeWhile_append2)
  then have ll: "l = l'" using l sh(1) by simp
  have dd: "drop (Suc (length l')) a = d @ ''.'' @ t" unfolding sh(1) by simp
  have ex: "\<not> js_includes ([] @ maskEmail a @ []) a"
    by (rule maskEmail_excludes_match[OF sh(1-4) t sh(6)]) simp_all
  show ?thesis
    using maskEmail_of_match[OF sh(1-4) t sh(6)] ex unfolding ll dd by simp
qed

lemma log_writes_append: "log_writes (xs @ ys) = log_writes xs @ log_writes ys"
  by (induction xs rule: log_writes.induct) auto

text \<open>
  C5. When the call to the mail provider throws during a send (the client cannot be
  built, or \<open>messages.send\<close> throws), the attempt is recorded with status \<open>failed\<close>, and
  the error stored in the send log and the error returned to the operator are the same
  text: the thrown message (or \<open>Failed to send email.\<close> when there is none) in which the
  matches of the address pattern are replaced by their masks. For every message: it has
  its matches, found from left to right, and whatever they are the text is the message
  with each of them replaced by its mask. A mask is the first one or two characters of
  the lower-cased local part, then \<open>***@\<close> and the lower-cased domain, as in
  \<open>jo***@example.com\<close>, and it does not contain the address it masks. When the message
  has no \<open>@\<close> outside its first match, the whole text is the message with that match
  replaced by its mask, and it does not contain the matched address.
\<close>

theorem transport_error_masked_and_failed:
  assumes "claims_ok (req_session request)"
    and "session_user (req_session request) = Some user"
    and "hasAdminAccess (normalizedAllowlist (req_session request)) (user_email user)
           (getProfileRole (req_session request))"
    and "req_json request = Some body" and "body \<noteq> JNull"
    and "toStringOrEmpty (js_prop body ''zip_filename'') = Some zipName"
    and "toStringOrEmpty (js_prop body ''account_key'') = Some accountKey"
    and "toStringOrEmpty (js_prop body ''trade_date'') = Some tradeDate"
    and "toStringOrEmpty (js_prop body ''to_email'') = Some toEmail"
    and "toStringOrEmpty (js_prop body ''to_name'') = Some toName"
    and "toStringOrEmpty (js_prop body ''filename'') = Some filename"
    and "toStringOrEmpty (js_prop body ''pdf_base64'') = Some pdfBase64"
    and "zipName \<noteq> []" and "accountKey \<noteq> []"
    and "EMAIL_PATTERN_test (toLowerCase toEmail)"
    and "endsWith (toLowerCase filename) ''.pdf''"
    and "pdfBase64 \<noteq> []"
    and "Buffer_from_base64 env pdfBase64 \<noteq> []"
    and "GMAIL_SENDER_EMAIL env = Some configured"
    and "js_trim configured \<noteq> []" and "EMAIL_PATTERN_test (js_trim configured)"
    and "req_dryRun request \<noteq> Some ''1''"
    and "getGmailClient env = Some err
         \<or> (getGmailClient env = None \<and> (\<forall>params. gmail_send env params = ProviderThrew err))"
  shows "result (POST env request)
           = Responded (serverError (sanitizeErrorMessage (thrown_message err)))
       \<and> map log_status (log_writes (effects (POST env request))) = [LogFailed]
       \<and> map log_error (log_writes (effects (POST env request)))
           = [Some (sanitizeErrorMessage (thrown_message err))]
       \<and> (\<exists>found. leftmost_matches EMAIL_IN_TEXT_PATTERN message 0 found)
       \<and> (leftmost_matches EMAIL_IN_TEXT_PATTERN message 0 ms
          \<longrightarrow> sanitizeErrorMessage message = replace_matches maskEmail message 0 ms)
       \<and> (match_items EMAIL_IN_TEXT_PATTERN message i = Some e
          \<longrightarrow> maskEmail (take (e - i) (drop i message))
                = take (if length (takeWhile (\<lambda>c. c \<noteq> CHR ''@'') (take (e - i) (drop i message)))
                           \<le> 2 then 1 else 2)
                    (toLowerCase (takeWhile (\<lambda>c. c \<noteq> CHR ''@'') (take (e - i) (drop i message))))
                  @ ''***@''
                  @ toLowerCase
                      (drop (Suc (length (takeWhile (\<lambda>c. c \<noteq> CHR ''@'')
                                           (take (e - i) (drop i message)))))
                         (take (e - i) (drop i message)))
              \<and> \<not> js_includes (maskEmail (take (e - i) (drop i message)))
                     (take (e - i) (drop i message)))
       \<and> (match_items EMAIL_IN_TEXT_PATTERN message i = Some e
            \<and> (\<forall>j<i. match_items EMAIL_IN_TEXT_PATTERN message j = None)
            \<and> CHR ''@'' \<notin> set (take i message) \<and> CHR ''@'' \<notin> set (drop e message)
          \<longrightarrow> sanitizeErrorMessage message
                = take i message @ maskEmail (take (e - i) (drop i message)) @ drop e message
              \<and> \<not> js_includes (sanitizeErrorMessage message) (take (e - i) (drop i message)))"
proof -
  have at: "js_includes (toLowerCase toEmail) ''@''"
    using EMAIL_PATTERN_test_has_at[OF assms(15)] .
  have msg: "(case err of
                Error m \<Rightarrow> if js_trim m \<noteq> [] then m else ''Failed to send email.''
              | NonError \<Rightarrow> ''Failed to send email.'') = thrown_message err"
    by (simp add: thrown_message_def)
  have route: "result (POST env request)
           = Responded (serverError (sanitizeErrorMessage (thrown_message err)))
       \<and> map log_status (log_writes (effects (POST env request))) = [LogFailed]
       \<and> map log_error (log_writes (effects (POST env request)))
           = [Some (sanitizeErrorMessage (thrown_message err))]"
    using assms(23)
  proof
    assume "getGmailClient env = Some err"
    then show ?thesis
      using assms(1-22) at
      by (cases body) (simp_all add: POST_def respond_def Let_def msg)
  next
    assume "getGmailClient env = None \<and> (\<forall>params. gmail_send env params = ProviderThrew err)"
    then show ?thesis
      using assms(1-22) at
      by (cases body) (simp_all add: POST_def respond_def Let_def msg)
  qed
  show ?thesis
    using route leftmost_matches_exist[of message 0] sanitize_all_matches[of message ms]
      mask_of_pattern_match[of message i e, OF _ refl refl]
      sanitize_first_match[of message i e]
      sanitize_excludes_first_match[of message i e]
    by blast
qed

theorem transport_error_masked_and_failed_witness:
  "result (POST (scenario_env_throwing ''Rejected joe@example.com and A.Smith@Mail.Example.org'')
             (scenario_request scenario_body None))
     = Responded (serverError ''Rejected jo***@example.com and a.***@mail.example.org'')
   \<and> map log_status (log_writes (effects
         (POST (scenario_env_throwing ''Rejected joe@example.com and A.Smith@Mail.Example.org'')
            (scenario_request scenario_body None)))) = [LogFailed]
   \<and> map log_error (log_writes (effects
         (POST (scenario_env_throwing ''Rejected joe@example.com and A.Smith@Mail.Example.org'')
            (scenario_request scenario_body None))))
       = [Some ''Rejected jo***@example.com and a.***@mail.example.org'']
   \<and> leftmost_matches EMAIL_IN_TEXT_PATTERN
         ''Rejected joe@example.com and A.Smith@Mail.Example.org'' 0 [(9, 24), (29, 53)]
   \<and> sanitizeErrorMessage ''Rejected joe@example.com and A.Smith@Mail.Example.org''
       = ''Rejected jo***@example.com and a.***@mail.example.org''
   \<and> maskEmail ''A.Smith@Mail.Example.org'' = ''a.***@mail.example.org''
   \<and> \<not> js_includes (maskEmail ''A.Smith@Mail.Example.org'') ''A.Smith@Mail.Example.org''
   \<and> sanitizeErrorMessage ''Invalid recipient joe@example.com rejected''
       = ''Invalid recipient jo***@example.com rejected''
   \<and> \<not> js_includes (sanitizeErrorMessage ''Invalid recipient joe@example.com rejected'')
          ''joe@example.com''"
proof -
  let ?m = "''Rejected joe@example.com and A.Smith@Mail.Example.org''"
  let ?n = "''Invalid recipient joe@example.com rejected''"
  let ?env = "scenario_env_throwing ?m"
  let ?req = "scenario_request scenario_body None"
  let ?user = "\<lparr> user_id = ''u-1'', user_email = Some ''ops@example.com'' \<rparr>"
  let ?body = "JObject scenario_body"
  have auth: "claims_ok (req_session ?req)"
    "session_user (req_session ?req) = Some ?user"
    "hasAdminAccess (normalizedAllowlist (req_session ?req)) (user_email ?user)
       (getProfileRole (req_session ?req))"
    "req_json ?req = Some ?body"
    by code_simp+
  have body: "?body \<noteq> JNull" by simp
  have members: "toStringOrEmpty (js_prop ?body ''zip_filename'') = Some ''bills.zip''"
    "toStringOrEmpty (js_prop ?body ''account_key'') = Some ''PR20''"
    "toStringOrEmpty (js_prop ?body ''trade_date'') = Some ''2024-01-05''"
    "toStringOrEmpty (js_prop ?body ''to_email'') = Some ''alice@example.com''"
    "toStringOrEmpty (js_prop ?body ''to_name'') = Some ''Alice''"
    "toStringOrEmpty (js_prop ?body ''filename'') = Some ''Bill_PR20_2024-01-05.pdf''"
    "toStringOrEmpty (js_prop ?body ''pdf_base64'') = Some ''JVBERi0=''"
    by code_simp+
  have checks: "''bills.zip'' \<noteq> []" "''PR20'' \<noteq> []"
    "EMAIL_PATTERN_test (toLowerCase ''alice@example.com'')"
    "endsWith (toLowerCase ''Bill_PR20_2024-01-05.pdf'') ''.pdf''"
    "''JVBERi0='' \<noteq> []"
    "Buffer_from_base64 ?env ''JVBERi0='' \<noteq> []"
    by code_simp+
  have sender: "GMAIL_SENDER_EMAIL ?env = Some ''billing@example.com''"
    by (simp add: scenario_env_throwing_def scenario_env_def)
  have sender_ok: "js_trim ''billing@example.com'' \<noteq> []"
    "EMAIL_PATTERN_test (js_trim ''billing@example.com'')"
    "req_dryRun ?req \<noteq> Some ''1''"
    by code_simp+
  have throws: "getGmailClient ?env = Some (Error ?m)
         \<or> (getGmailClient ?env = None
             \<and> (\<forall>params. gmail_send ?env params = ProviderThrew (Error ?m)))"
    by (simp add: scenario_env_throwing_def scenario_env_def)
  note run = transport_error_masked_and_failed
      [OF auth body members checks sender sender_ok throws]
  have tm: "thrown_message (Error ?m) = ?m" by code_simp
  have lm: "leftmost_matches EMAIL_IN_TEXT_PATTERN ?m 0 [(9, 24), (29, 53)]" by code_simp
  have rm: "replace_matches maskEmail ?m 0 [(9, 24), (29, 53)]
              = ''Rejected jo***@example.com and a.***@mail.example.org''" by code_simp
  have m2: "match_items EMAIL_IN_TEXT_PATTERN ?m 29 = Some 53" by code_simp
  have a2: "take (53 - 29) (drop 29 ?m) = ''A.Smith@Mail.Example.org''" by code_simp
  have s2: "take (if length (takeWhile (\<lambda>c. c \<noteq> CHR ''@'') ''A.Smith@Mail.Example.org'')
                       \<le> 2 then 1 else 2)
                (toLowerCase (takeWhile (\<lambda>c. c \<noteq> CHR ''@'') ''A.Smith@Mail.Example.org''))
              @ ''***@''
              @ toLowerCase
                  (drop (Suc (length (takeWhile (\<lambda>c. c \<noteq> CHR ''@'')
                                        ''A.Smith@Mail.Example.org'')))
                     ''A.Smith@Mail.Example.org'')
            = ''a.***@mail.example.org''" by code_simp
  note t2 = run[where message="?m" and ms="[(9, 24), (29, 53)]" and i=29 and e=53]
  have all: "sanitizeErrorMessage ?m = ''Rejected jo***@example.com and a.***@mail.example.org''"
    using t2[THEN conjunct2, THEN conjunct2, THEN conjunct2, THEN conjunct2, THEN conjunct1,
             THEN mp, OF lm] rm
    by (rule trans)
  note k = t2[THEN conjunct2, THEN conjunct2, THEN conjunct2, THEN conjunct2, THEN conjunct2,
              THEN conjunct1, THEN mp, OF m2]
  have mask: "maskEmail ''A.Smith@Mail.Example.org'' = ''a.***@mail.example.org''"
    "\<not> js_includes (maskEmail ''A.Smith@Mail.Example.org'') ''A.Smith@Mail.Example.org''"
    using k unfolding a2 s2 by blast+
  have n1: "match_items EMAIL_IN_TEXT_PATTERN ?n 18 = Some 33" by code_simp
  have n2: "\<forall>j\<in>set [0..<18]. match_items EMAIL_IN_TEXT_PATTERN ?n j = None" by code_simp
  have n3: "\<forall>j<18. match_items EMAIL_IN_TEXT_PATTERN ?n j = None" using n2 by simp
  have n4: "CHR ''@'' \<notin> set (take 18 ?n)" "CHR ''@'' \<notin> set (drop 33 ?n)" by code_simp+
  have n5: "take 18 ?n @ maskEmail (take (33 - 18) (drop 18 ?n)) @ drop 33 ?n
              = ''Invalid recipient jo***@example.com rejected''" by code_simp
  have n6: "take (33 - 18) (drop 18 ?n) = ''joe@example.com''" by code_simp
  note t1 = run[where message="?n" and i=18 and e=33]
  from t1 n1 n3 n4 have s: "sanitizeErrorMessage ?n
                = take 18 ?n @ maskEmail (take (33 - 18) (drop 18 ?n)) @ drop 33 ?n"
    and n: "\<not> js_includes (sanitizeErrorMessage ?n) (take (33 - 18) (drop 18 ?n))"
    by blast+
  have s': "sanitizeErrorMessage ?n = ''Invalid recipient jo***@example.com rejected''"
    using s n5 by (rule trans)
  have n': "\<not> js_includes (sanitizeErrorMessage ?n) ''joe@example.com''"
    using n unfolding n6 .
  from t2 have r: "result (POST ?env ?req)
           = Responded (serverError (sanitizeErrorMessage (thrown_message (Error ?m))))"
    and l1: "map log_status (log_writes (effects (POST ?env ?req))) = [LogFailed]"
    and l2: "map log_error (log_writes (effects (POST ?env ?req)))
           = [Some (sanitizeErrorMessage (thrown_message (Error ?m)))]"
    by blast+
  show ?thesis
    using r l1 l2 all lm mask s' n' unfolding tm by (intro conjI) simp_all
qed

text \<open>
  As C5 is worded, every address embedded in the message is masked. The pattern asks for
  a domain that ends in a dot and two or more letters, so an address with another domain
  stays as it is. \<open>joe@10.0.0.1\<close> is one: the route accepts it as a recipient, and when
  the provider's error quotes it, the error stored and returned still contains it.
\<close>

theorem transport_error_unmasked_address_counterexample:
  "EMAIL_PATTERN_test ''joe@10.0.0.1''
   \<and> result (POST (scenario_env_throwing ''Recipient address rejected: joe@10.0.0.1'')
               (scenario_request (scenario_body_with ''to_email'' (JString ''joe@10.0.0.1''))
                  None))
       = Responded (serverError ''Recipient address rejected: joe@10.0.0.1'')
   \<and> map log_error (log_writes (effects
         (POST (scenario_env_throwing ''Recipient address rejected: joe@10.0.0.1'')
            (scenario_request (scenario_body_with ''to_email'' (JString ''joe@10.0.0.1''))
               None))))
       = [Some ''Recipient address rejected: joe@10.0.0.1'']
   \<and> js_includes (sanitizeErrorMessage ''Recipient address rejected: joe@10.0.0.1'')
        ''joe@10.0.0.1''"
  by code_simp

section \<open>Properties of the audit-log query\<close>

lemma normalizeAccountKey_of_string:
  "normalizeAccountKey (Some (JString s)) = Some (normalizeAccountKey_string s)"
  by (simp add: normalizeAccountKey_def normalizeAccountKey_string_def String_or_empty_def)

lemma row_key_of_string:
  "row_account_key r = JString s \<Longrightarrow> row_key r = Some (js_trim s)"
  by (simp add: row_key_def normalizeAccountKey_def String_or_empty_def)

lemma reducer_lookup:
  assumes "k \<noteq> []" and "k \<notin> set inherited_names" and "row_key r \<noteq> None"
  shows "\<exists>next. lastStatus_reducer acc r = Some next
           \<and> next k = (case acc k of
                         Some v \<Rightarrow> Some v
                       | None \<Rightarrow> if row_key r = Some k then Some (lastStatus_of_row r) else None)"
  using assms
  by (auto simp: lastStatus_reducer_def has_truthy_member_def split: option.splits)

lemma reduce_rows_lookup:
  assumes "k \<noteq> []" and "k \<notin> set inherited_names"
    and "list_all (\<lambda>r. row_key r \<noteq> None) rs"
  shows "\<exists>m. reduce_rows acc rs = Some m
           \<and> m k = (case acc k of
                      Some v \<Rightarrow> Some v
                    | None \<Rightarrow> map_option lastStatus_of_row (find (\<lambda>r. row_key r = Some k) rs))"
  using assms(3)
proof (induction rs arbitrary: acc)
  case Nil
  then show ?case by (simp split: option.splits)
next
  case (Cons r rs)
  have r: "row_key r \<noteq> None" and rs: "list_all (\<lambda>r. row_key r \<noteq> None) rs"
    using Cons.prems by simp_all
  obtain nxt where one: "lastStatus_reducer acc r = Some nxt"
    "nxt k = (case acc k of
                Some v \<Rightarrow> Some v
              | None \<Rightarrow> if row_key r = Some k then Some (lastStatus_of_row r) else None)"
    using reducer_lookup[OF assms(1,2) r, of acc] by blast
  obtain m where m: "reduce_rows nxt rs = Some m"
    "m k = (case nxt k of
              Some v \<Rightarrow> Some v
            | None \<Rightarrow> map_option lastStatus_of_row (find (\<lambda>r. row_key r = Some k) rs))"
    using Cons.IH[OF rs, of nxt] by blast
  have "reduce_rows acc (r # rs) = Some m" using one(1) m(1) by simp
  moreover have "m k = (case acc k of
                      Some v \<Rightarrow> Some v
                    | None \<Rightarrow> map_option lastStatus_of_row
                                 (find (\<lambda>r. row_key r = Some k) (r # rs)))"
    unfolding m(2) one(2) by (auto split: option.splits)
  ultimately show ?case by blast
qed

lemma reduce_rows_throws:
  assumes "\<not> list_all (\<lambda>r. row_key r \<noteq> None) rs"
  shows "reduce_rows acc rs = None"
  using assms
proof (induction rs arbitrary: acc)
  case Nil
  then show ?case by simp
next
  case (Cons r rs)
  show ?case
  proof (cases "row_key r")
    case None
    then show ?thesis by (simp add: lastStatus_reducer_def)
  next
    case (Some key)
    then have "\<not> list_all (\<lambda>r. row_key r \<noteq> None) rs" using Cons.prems by simp
    from Cons.IH[OF this] show ?thesis
      by (simp add: lastStatus_reducer_def Some split: option.splits)
  qed
qed

lemma foldl_keep_best:
  assumes "\<forall>x\<in>set rs. sent_at_text x \<le> sent_at_text r"
  shows "foldl (\<lambda>best x. if sent_at_text best < sent_at_text x then x else best) r rs = r"
  using assms by (induction rs) (auto simp: not_less)

lemma find_filter_hd:
  "find P xs = (case filter P xs of [] \<Rightarrow> None | y # ys \<Rightarrow> Some y)"
  by (induction xs) auto

lemma spec_most_recent_sorted:
  assumes "sorted_wrt (\<lambda>a b. sent_at_text b \<le> sent_at_text a) returned"
  shows "spec_most_recent returned k
           = map_option lastStatus_of_row (find (\<lambda>r. row_key r = Some k) returned)"
proof (cases "filter (\<lambda>row. row_key row = Some k) returned")
  case Nil
  then show ?thesis by (simp add: spec_most_recent_def find_filter_hd)
next
  case (Cons r rs)
  have "sorted_wrt (\<lambda>a b. sent_at_text b \<le> sent_at_text a)
          (filter (\<lambda>row. row_key row = Some k) returned)"
    using assms by (rule sorted_wrt_filter)
  then have "\<forall>x\<in>set rs. sent_at_text x \<le> sent_at_text r"
    using Cons by simp
  then show ?thesis
    using Cons by (simp add: spec_most_recent_def find_filter_hd foldl_keep_best)
qed

lemma find_None_iff_key: "find P xs = None \<longleftrightarrow> (\<forall>x\<in>set xs. \<not> P x)"
  by (induction xs) auto

text \<open>
  C2. For an admin session, a non-empty archive filename and a non-empty key set, and for
  every key that is not empty and is not a name every object inherits: the query returns
  for the key the status and \<open>sent_at\<close> of the first entry of that key in the order in
  which the store returned the entries, and the key is absent from the result exactly
  when the store returned no entry for it. When the store returned the entries in the
  requested order, latest \<open>sent_at\<close> first, that first entry is the most recent one: the
  result then agrees with the maximum the specification describes. The query computes no
  maximum of its own. This is so when the account key of every returned entry converts
  to text, as the keys of the store do, which are texts; were one of them an object that
  does not convert, the call would reject.
\<close>

theorem last_status_is_first_returned:
  assumes "isAdminSession ses"
    and "normalizeZipFilename zip_filename \<noteq> []"
    and "normalizeAccountKeys accountKeys \<noteq> []"
    and "select (normalizeZipFilename zip_filename) (normalizeAccountKeys accountKeys)
           = QueryData (Some returned)"
    and "k \<noteq> []" and "k \<notin> set inherited_names"
  shows "(list_all (\<lambda>r. row_key r \<noteq> None) returned \<longrightarrow>
            status_for (getLastSendStatusForZip ses select zip_filename accountKeys) k
              = Some (map_option lastStatus_of_row (find (\<lambda>r. row_key r = Some k) returned))
          \<and> (sorted_wrt (\<lambda>a b. sent_at_text b \<le> sent_at_text a) returned \<longrightarrow>
               status_for (getLastSendStatusForZip ses select zip_filename accountKeys) k
                 = Some (spec_most_recent returned k))
          \<and> ((status_for (getLastSendStatusForZip ses select zip_filename accountKeys) k
                 = Some None)
               = (\<forall>r\<in>set returned. row_key r \<noteq> Some k)))
       \<and> (\<not> list_all (\<lambda>r. row_key r \<noteq> None) returned \<longrightarrow>
            getLastSendStatusForZip ses select zip_filename accountKeys = None)"
proof -
  have call: "getLastSendStatusForZip ses select zip_filename accountKeys
                = reduce_rows Map.empty returned"
    using assms(1-4) by (simp add: getLastSendStatusForZip_def Let_def)
  have r: "status_for (getLastSendStatusForZip ses select zip_filename accountKeys) k
             = Some (map_option lastStatus_of_row (find (\<lambda>r. row_key r = Some k) returned))"
    if "list_all (\<lambda>r. row_key r \<noteq> None) returned"
    using reduce_rows_lookup[OF assms(5,6) that, of Map.empty]
    unfolding call by (auto simp: status_for_def)
  show ?thesis
    using r spec_most_recent_sorted[of returned k] reduce_rows_throws[of returned Map.empty]
    unfolding call[symmetric]
    by (simp add: find_None_iff_key)
qed

theorem last_status_is_first_returned_witness:
  "list_all (\<lambda>r. row_key r \<noteq> None) (rev scenario_log_rows)
   \<and> status_for (getLastSendStatusForZip scenario_session
         (\<lambda>z ks. QueryData (Some (rev scenario_log_rows))) ''bills.zip'' [''PR20'', ''PR21''])
       ''PR20''
     = Some (Some \<lparr> last_status = Some LogSent,
                     last_sent_at = Some ''2026-02-23T10:05:00+00:00'' \<rparr>)
   \<and> spec_most_recent (rev scenario_log_rows) ''PR20''
     = Some \<lparr> last_status = Some LogSent, last_sent_at = Some ''2026-02-23T10:05:00+00:00'' \<rparr>
   \<and> status_for (getLastSendStatusForZip scenario_session
         (\<lambda>z ks. QueryData (Some (rev scenario_log_rows))) ''bills.zip'' [''PR20'', ''PR21''])
       ''PR21''
     = Some None
   \<and> getLastSendStatusForZip scenario_session
        (\<lambda>z ks. QueryData (Some [\<lparr> row_account_key = JObject [(''toString'', JNull)],
                                    row_status = JString ''sent'',
                                    row_sent_at = JString ''2026-02-23T10:05:00+00:00'' \<rparr>]))
        ''bills.zip'' [''PR20'', ''PR21'']
     = None"
proof -
  let ?bad = "[\<lparr> row_account_key = JObject [(''toString'', JNull)],
                 row_status = JString ''sent'',
                 row_sent_at = JString ''2026-02-23T10:05:00+00:00'' \<rparr>]"
  have pre: "isAdminSession scenario_session"
    "normalizeZipFilename ''bills.zip'' \<noteq> []"
    "normalizeAccountKeys [''PR20'', ''PR21''] \<noteq> []"
    by code_simp+
  have sel: "(\<lambda>z ks. QueryData (Some rs))
       (normalizeZipFilename ''bills.zip'') (normalizeAccountKeys [''PR20'', ''PR21''])
       = QueryData (Some rs)" for rs :: "send_log_row list"
    by simp
  have k20: "''PR20'' \<noteq> []" "''PR20'' \<notin> set inherited_names"
    and k21: "''PR21'' \<noteq> []" "''PR21'' \<notin> set inherited_names"
    by (simp_all add: inherited_names_def)
  have conv: "list_all (\<lambda>r. row_key r \<noteq> None) (rev scenario_log_rows)" by code_simp
  have nconv: "\<not> list_all (\<lambda>r. row_key r \<noteq> None) ?bad" by code_simp
  have srt: "sorted_wrt (\<lambda>a b. sent_at_text b \<le> sent_at_text a) (rev scenario_log_rows)"
    by (simp add: scenario_log_rows_def sent_at_text_def)
  note t20 = last_status_is_first_returned[OF pre sel k20, THEN conjunct1, THEN mp, OF conv]
  note t21 = last_status_is_first_returned[OF pre sel k21, THEN conjunct1, THEN mp, OF conv]
  note tbad = last_status_is_first_returned[OF pre sel k20, THEN conjunct2, THEN mp, OF nconv]
  have b: "spec_most_recent (rev scenario_log_rows) ''PR20''
     = Some \<lparr> last_status = Some LogSent, last_sent_at = Some ''2026-02-23T10:05:00+00:00'' \<rparr>"
    by code_simp
  have a: "status_for (getLastSendStatusForZip scenario_session
         (\<lambda>z ks. QueryData (Some (rev scenario_log_rows))) ''bills.zip'' [''PR20'', ''PR21''])
       ''PR20''
     = Some (Some \<lparr> last_status = Some LogSent,
                     last_sent_at = Some ''2026-02-23T10:05:00+00:00'' \<rparr>)"
    using t20[THEN conjunct2, THEN conjunct1, THEN mp, OF srt] unfolding b .
  have none: "\<forall>r\<in>set (rev scenario_log_rows). row_key r \<noteq> Some ''PR21''" by code_simp
  have c: "status_for (getLastSendStatusForZip scenario_session
         (\<lambda>z ks. QueryData (Some (rev scenario_log_rows))) ''bills.zip'' [''PR20'', ''PR21''])
       ''PR21''
     = Some None"
    using t21[THEN conjunct2, THEN conjunct2] none by blast
  show ?thesis using conv a b c tbad by (intro conjI)
qed

text \<open>
  As C2 is worded, the result is a maximum taken over the returned entries whatever their
  order. When the store returns the two attempts for \<open>PR20\<close> with the older one first, the
  query reports the older, failed attempt; the maximum by \<open>sent_at\<close> is the later, sent one.
\<close>

theorem last_status_unordered_counterexample:
  "status_for (getLastSendStatusForZip scenario_session
       (\<lambda>z ks. QueryData (Some scenario_log_rows)) ''bills.zip'' [''PR20''])
     ''PR20''
     = Some (Some \<lparr> last_status = Some LogFailed,
                     last_sent_at = Some ''2026-02-23T10:00:00+00:00'' \<rparr>)
   \<and> spec_most_recent scenario_log_rows ''PR20''
     = Some \<lparr> last_status = Some LogSent, last_sent_at = Some ''2026-02-23T10:05:00+00:00'' \<rparr>"
  by code_simp

section \<open>Properties of the send console\<close>

subsection \<open>What a send adds to the trace\<close>

lemma fetch_bodies_append: "fetch_bodies (xs @ ys) = fetch_bodies xs @ fetch_bodies ys"
  by (induction xs rule: fetch_bodies.induct) auto

lemma snapshots_append: "snapshots (xs @ ys) = snapshots xs @ snapshots ys"
  by (induction xs rule: snapshots.induct) auto

lemma rejections_append: "rejections (xs @ ys) = rejections xs @ rejections ys"
  by (induction xs rule: rejections.induct) auto

lemma setRowSendState_simps:
  "trace (setRowSendState i st err s)
     = trace s @ [RowStateSet i
         ((rowSendStates (ui s))(i \<mapsto> \<lparr> send_state = st, send_error = err \<rparr>))]"
  "rowSendStates (ui (setRowSendState i st err s))
     = (rowSendStates (ui s))(i \<mapsto> \<lparr> send_state = st, send_error = err \<rparr>)"
  "world (setRowSendState i st err s) = world s"
  "zipRef (ui (setRowSendState i st err s)) = zipRef (ui s)"
  "rows (ui (setRowSendState i st err s)) = rows (ui s)"
  by (simp_all add: setRowSendState_def Let_def)

lemma isSendingIn_upd:
  "isSendingIn (m(i \<mapsto> \<lparr> send_state = st, send_error = err \<rparr>)) j
     = (if j = i then st = sending else isSendingIn m j)"
  by (simp add: isSendingIn_def)

lemma send_try_run:
  assumes "send_try col snap row s = (r, s')"
  shows "((trace s' = trace s @ [RowStateSet (getRowId row) (rowSendStates (ui s'))]
           \<and> sendStateOf (ui s') (getRowId row) = Some failed)
          \<or> (\<exists>p. trace s' = trace s @ [Fetch (send_request_body snap row p),
                                         RowStateSet (getRowId row) (rowSendStates (ui s'))]
                \<and> (sendStateOf (ui s') (getRowId row) = Some sent
                     \<or> sendStateOf (ui s') (getRowId row) = Some failed)))
         \<and> (\<forall>i. isSendingIn (rowSendStates (ui s')) i
                 = (i \<noteq> getRowId row \<and> isSendingIn (rowSendStates (ui s)) i))
         \<and> rows (ui s') = rows (ui s)"
  using assms
  by (auto simp: send_try_def send_catch_def setRowSendState_simps isSendingIn_upd Let_def
        sendStateOf_def
      split: option.splits sum.splits prod.splits fetch_result.splits if_splits)

lemma refresh_run:
  assumes "refreshLastLogStatusForKeys col snap [k] s = (u, s')"
    and "consoleZipFilename snap \<noteq> []"
  shows "(if uniqueAccountKeys [k] = [] then trace s' = trace s \<and> u = Inr ()
          else trace s' = trace s @ [AuditQuery (consoleZipFilename snap)
                                       (uniqueAccountKeys [k]) (rejection u)])
         \<and> rowSendStates (ui s') = rowSendStates (ui s)
         \<and> rows (ui s') = rows (ui s)"
  using assms
  by (auto simp: refreshLastLogStatusForKeys_def rejection_def Let_def
      split: if_splits prod.splits sum.splits)

lemma list_ex_upt: "list_ex P [0..<Suc k] \<longleftrightarrow> (\<exists>n\<le>k. P n)"
  unfolding list_ex_iff set_upt by (auto simp: less_Suc_eq_le)

lemma sets_row_simps:
  "sets_row i st (RowStateSet j m) = (j = i \<and> map_option send_state (m i) = Some st)"
  "\<not> sets_row i st (Fetch b)"
  "\<not> sets_row i st (AuditQuery z ks out)"
  by (simp_all add: sets_row_def)

lemma row_attempt_iff:
  "row_attempt snap row evs \<longleftrightarrow>
     (\<exists>e. evs = [e] \<and> sets_row (getRowId row) failed e)
     \<or> (\<exists>b e. evs = [Fetch b, e] \<and> b = send_request_body snap row (body_pdf_base64 b)
            \<and> (sets_row (getRowId row) sent e \<or> sets_row (getRowId row) failed e))"
proof (cases evs)
  case Nil
  then show ?thesis by (simp add: row_attempt_def)
next
  case (Cons e1 r1)
  show ?thesis
  proof (cases r1)
    case Nil
    then show ?thesis using Cons by (cases e1) (simp_all add: row_attempt_def)
  next
    case (Cons e2 r2)
    show ?thesis
    proof (cases r2)
      case Nil
      then show ?thesis
        using \<open>evs = e1 # r1\<close> \<open>r1 = e2 # r2\<close>
        by (cases e1) (simp_all add: row_attempt_def)
    next
      case (Cons e3 r3)
      then show ?thesis
        using \<open>evs = e1 # r1\<close> \<open>r1 = e2 # r2\<close>
        by (cases e1) (simp_all add: row_attempt_def)
    qed
  qed
qed

lemma row_query_iff:
  "row_query snap row q \<longleftrightarrow>
     (if uniqueAccountKeys [account_key row] = [] then q = []
      else \<exists>out. q = [AuditQuery (consoleZipFilename snap)
                        (uniqueAccountKeys [account_key row]) out])"
proof (cases q)
  case Nil
  then show ?thesis by (simp add: row_query_def)
next
  case (Cons e1 r1)
  show ?thesis
  proof (cases r1)
    case Nil
    then show ?thesis
      using Cons by (cases e1) (auto simp: row_query_def)
  next
    case (Cons e2 r2)
    then show ?thesis
      using \<open>q = e1 # r1\<close> by (cases e1) (simp_all add: row_query_def)
  qed
qed

lemma row_block_iff:
  "row_block snap row evs \<longleftrightarrow>
     (if sendStateOf snap (getRowId row) = Some sending then evs = []
      else if contact_email row = None \<or> contact_email row = Some []
              \<or> consoleZipFilename snap = []
      then \<exists>e. evs = [e] \<and> sets_row (getRowId row) failed e
      else \<exists>e att q. evs = e # att @ q \<and> sets_row (getRowId row) sending e
             \<and> row_attempt snap row att \<and> row_query snap row q)"
proof -
  have one: "(case evs of [e] \<Rightarrow> sets_row (getRowId row) failed e | _ \<Rightarrow> False)
        \<longleftrightarrow> (\<exists>e. evs = [e] \<and> sets_row (getRowId row) failed e)"
    by (cases evs; cases "tl evs") auto
  have many: "(case evs of
                 [] \<Rightarrow> False
               | e # rest \<Rightarrow>
                   sets_row (getRowId row) sending e
                   \<and> list_ex (\<lambda>n. row_attempt snap row (take n rest)
                                   \<and> row_query snap row (drop n rest))
                        [0..<Suc (length rest)])
        \<longleftrightarrow> (\<exists>e att q. evs = e # att @ q \<and> sets_row (getRowId row) sending e
               \<and> row_attempt snap row att \<and> row_query snap row q)"
  proof (cases evs)
    case Nil
    then show ?thesis by simp
  next
    case (Cons e rest)
    have "(\<exists>n\<le>length rest. row_attempt snap row (take n rest)
                \<and> row_query snap row (drop n rest))
          \<longleftrightarrow> (\<exists>att q. rest = att @ q \<and> row_attempt snap row att \<and> row_query snap row q)"
    proof
      assume "\<exists>n\<le>length rest. row_attempt snap row (take n rest)
                \<and> row_query snap row (drop n rest)"
      then obtain n where "row_attempt snap row (take n rest)" "row_query snap row (drop n rest)"
        by blast
      moreover have "rest = take n rest @ drop n rest" by simp
      ultimately show "\<exists>att q. rest = att @ q \<and> row_attempt snap row att
                         \<and> row_query snap row q"
        by blast
    next
      assume "\<exists>att q. rest = att @ q \<and> row_attempt snap row att \<and> row_query snap row q"
      then obtain att q where "rest = att @ q" "row_attempt snap row att" "row_query snap row q"
        by blast
      then have "length att \<le> length rest \<and> row_attempt snap row (take (length att) rest)
                   \<and> row_query snap row (drop (length att) rest)"
        by simp
      then show "\<exists>n\<le>length rest. row_attempt snap row (take n rest)
                   \<and> row_query snap row (drop n rest)"
        by blast
    qed
    then show ?thesis using Cons by (simp add: list_ex_upt del: upt_Suc) blast
  qed
  show ?thesis unfolding row_block_def one many by simp
qed

lemma ended_by_append:
  assumes "rejections xs = []" and "ended_by r ys"
  shows "ended_by r (xs @ ys)"
proof (cases r)
  case None
  then show ?thesis using assms by (simp add: ended_by_def rejections_append)
next
  case (Some err)
  then have ne: "ys \<noteq> []" using assms(2) by (simp add: ended_by_def)
  then show ?thesis
    using assms Some by (simp add: ended_by_def rejections_append butlast_append)
qed

text \<open>The events of one call, and what the call does to the send states.\<close>

lemma sendEmailForRow_run:
  assumes "sendEmailForRow col snap row s = (u, s')"
  shows "\<exists>evs. trace s' = trace s @ evs \<and> row_block snap row evs
           \<and> ended_by (rejection u) evs
           \<and> (\<forall>m\<in>set (snapshots evs). \<forall>i. isSendingIn m i \<longrightarrow>
                 i = getRowId row \<or> isSendingIn (rowSendStates (ui s)) i)
           \<and> (\<forall>i. isSendingIn (rowSendStates (ui s')) i
                 \<longrightarrow> isSendingIn (rowSendStates (ui s)) i)
           \<and> rows (ui s') = rows (ui s)"
proof -
  let ?id = "getRowId row"
  consider (busy) "sendStateOf snap ?id = Some sending"
    | (refused) "sendStateOf snap ?id \<noteq> Some sending"
        "contact_email row = None \<or> contact_email row = Some [] \<or> consoleZipFilename snap = []"
    | (go) "sendStateOf snap ?id \<noteq> Some sending"
        "\<not> (contact_email row = None \<or> contact_email row = Some [])"
        "consoleZipFilename snap \<noteq> []"
    by blast
  then show ?thesis
  proof cases
    case busy
    then have "s' = s" "u = Inr False"
      using assms by (simp_all add: sendEmailForRow_def Let_def)
    then show ?thesis
      using busy
      by (intro exI[of _ "[]"]) (simp add: row_block_iff ended_by_def rejection_def)
  next
    case refused
    have cur: "(case sendStateOf snap ?id of None \<Rightarrow> idle | Some st \<Rightarrow> st) \<noteq> sending"
      using refused(1) by (cases "sendStateOf snap ?id") auto
    obtain msg where e: "s' = setRowSendState ?id failed (Some msg) s" "u = Inr False"
      using assms refused(2) cur
      by (auto simp: sendEmailForRow_def Let_def split: if_splits)
    let ?m = "(rowSendStates (ui s))(?id \<mapsto> \<lparr> send_state = failed, send_error = Some msg \<rparr>)"
    have blk: "row_block snap row [RowStateSet ?id ?m]"
      using refused by (simp add: row_block_iff sets_row_simps)
    show ?thesis
      unfolding e
      using blk
      by (intro exI[of _ "[RowStateSet ?id ?m]"])
         (simp add: setRowSendState_simps isSendingIn_upd ended_by_def rejection_def)
  next
    case go
    have cur: "(case sendStateOf snap ?id of None \<Rightarrow> idle | Some st \<Rightarrow> st) \<noteq> sending"
      using go(1) by (cases "sendStateOf snap ?id") auto
    let ?s2 = "setRowSendState ?id sending None (s\<lparr> ui := (ui s)\<lparr> actionError := [] \<rparr> \<rparr>)"
    obtain b s3 where t: "send_try col snap row ?s2 = (b, s3)"
      by (cases "send_try col snap row ?s2")
    obtain v s4 where f: "refreshLastLogStatusForKeys col snap [account_key row] s3 = (v, s4)"
      by (cases "refreshLastLogStatusForKeys col snap [account_key row] s3")
    have s4: "s' = s4" and u: "rejection u = rejection v"
      using assms go(2,3) cur t f
      by (auto simp: sendEmailForRow_def rejection_def Let_def split: sum.splits)
    let ?m2 = "(rowSendStates (ui s))(?id \<mapsto> \<lparr> send_state = sending, send_error = None \<rparr>)"
    let ?e1 = "RowStateSet ?id ?m2"
    let ?e3 = "RowStateSet ?id (rowSendStates (ui s3))"
    have tr2: "trace ?s2 = trace s @ [?e1]" "rowSendStates (ui ?s2) = ?m2"
      "rows (ui ?s2) = rows (ui s)"
      by (simp_all add: setRowSendState_simps)
    note T = send_try_run[OF t] and F = refresh_run[OF f go(3)]
    have fin: "\<forall>i. isSendingIn (rowSendStates (ui s4)) i
                 = (i \<noteq> ?id \<and> isSendingIn (rowSendStates (ui s)) i)"
      using T F tr2 by (auto simp: isSendingIn_upd split: if_splits)
    have rws: "rows (ui s4) = rows (ui s)" using T F tr2 by simp
    obtain att where att: "trace s3 = trace ?s2 @ att" "row_attempt snap row att"
      "snapshots att = [rowSendStates (ui s3)]" "rejections att = []"
    proof -
      from T consider
        (quiet) "trace s3 = trace ?s2 @ [?e3]" "sendStateOf (ui s3) ?id = Some failed"
        | (sent) p where "trace s3 = trace ?s2 @ [Fetch (send_request_body snap row p), ?e3]"
            "sendStateOf (ui s3) ?id = Some sent \<or> sendStateOf (ui s3) ?id = Some failed"
        by blast
      then show ?thesis
      proof cases
        case quiet
        show ?thesis
          using quiet
          by (intro that[of "[?e3]"])
             (simp_all add: row_attempt_iff sets_row_simps sendStateOf_def)
      next
        case sent
        have body: "send_request_body snap row p
              = send_request_body snap row (body_pdf_base64 (send_request_body snap row p))"
          by (simp add: send_request_body_def)
        show ?thesis
          using sent body
          by (intro that[of "[Fetch (send_request_body snap row p), ?e3]"])
             (simp_all add: row_attempt_iff sets_row_simps sendStateOf_def)
      qed
    qed
    obtain q where q: "trace s4 = trace s3 @ q" "row_query snap row q" "snapshots q = []"
      "ended_by (rejection v) q"
    proof (cases "uniqueAccountKeys [account_key row] = []")
      case True
      then have "trace s4 = trace s3" "v = Inr ()" using F by simp_all
      then show ?thesis
        using True
        by (intro that[of "[]"]) (simp_all add: row_query_iff ended_by_def rejection_def)
    next
      case False
      let ?q = "AuditQuery (consoleZipFilename snap) (uniqueAccountKeys [account_key row])
                  (rejection v)"
      have "trace s4 = trace s3 @ [?q]" using F False by simp
      moreover have "ended_by (rejection v) [?q]"
        by (cases "rejection v") (simp_all add: ended_by_def)
      ultimately show ?thesis
        using False by (intro that[of "[?q]"]) (simp_all add: row_query_iff)
    qed
    define evs where "evs = ?e1 # att @ q"
    have tr: "trace s4 = trace s @ evs"
      using att(1) q(1) tr2(1) by (simp add: evs_def)
    have "sets_row ?id sending ?e1" by (simp add: sets_row_simps)
    then have blk: "row_block snap row evs"
      using go att(2) q(2) unfolding evs_def row_block_iff by auto
    have "rejections (?e1 # att) = []" using att(4) by simp
    then have en: "ended_by (rejection u) evs"
      unfolding evs_def u using ended_by_append[of "?e1 # att" "rejection v" q] q(4) by simp
    have sn: "set (snapshots evs) \<subseteq> {?m2, rowSendStates (ui s3)}"
      using att(3) q(3) by (auto simp: evs_def snapshots_append)
    have m3: "\<forall>i. isSendingIn (rowSendStates (ui s3)) i \<longrightarrow> isSendingIn (rowSendStates (ui s)) i"
      using T tr2 by (auto simp: isSendingIn_upd split: if_splits)
    have m2: "\<forall>i. isSendingIn ?m2 i \<longrightarrow> i = ?id \<or> isSendingIn (rowSendStates (ui s)) i"
      by (auto simp: isSendingIn_upd split: if_splits)
    show ?thesis
      unfolding s4
      using tr blk en sn fin rws m2 m3
      by (intro exI[of _ evs]) auto
  qed
qed

lemma rows_run_silent:
  assumes "trace s' = trace s" and "rowSendStates (ui s') = rowSendStates (ui s)"
    and "rows (ui s') = rows (ui s)" and "complete \<longrightarrow> rs = []"
  shows "rows_run complete None rs snap s s'"
  unfolding rows_run_def using assms by (intro exI[of _ "[]"]) (auto simp: ended_by_def)

lemma rows_run_Cons:
  assumes one: "trace s1 = trace s @ evs" "row_block snap row evs"
      "\<forall>m\<in>set (snapshots evs). \<forall>i. isSendingIn m i \<longrightarrow>
          i = getRowId row \<or> isSendingIn (rowSendStates (ui s)) i"
      "\<forall>i. isSendingIn (rowSendStates (ui s1)) i \<longrightarrow> isSendingIn (rowSendStates (ui s)) i"
      "rows (ui s1) = rows (ui s)"
    and quiet: "rejections evs = []"
    and rest: "rows_run c r rs snap s1 s2"
  shows "rows_run c r (row # rs) snap s s2"
proof -
  obtain blocks where b: "trace s2 = trace s1 @ concat blocks"
    "length blocks \<le> length rs"
    "c \<longrightarrow> length blocks = length rs"
    "list_all2 (row_block snap) (take (length blocks) rs) blocks"
    "\<forall>m\<in>set (snapshots (concat blocks)). \<exists>r\<in>set rs. \<forall>i. isSendingIn m i \<longrightarrow>
        i = getRowId r \<or> isSendingIn (rowSendStates (ui s1)) i"
    "\<forall>i. isSendingIn (rowSendStates (ui s2)) i \<longrightarrow> isSendingIn (rowSendStates (ui s1)) i"
    "rows (ui s2) = rows (ui s1)"
    and en: "ended_by r (concat blocks)"
    using rest unfolding rows_run_def by auto
  have snap2: "\<forall>m\<in>set (snapshots (concat blocks)). \<exists>r\<in>set rs. \<forall>i. isSendingIn m i \<longrightarrow>
        i = getRowId r \<or> isSendingIn (rowSendStates (ui s)) i"
    using b(5) one(4) by blast
  have en2: "ended_by r (concat (evs # blocks))"
    using ended_by_append[OF quiet en] by simp
  show ?thesis
    unfolding rows_run_def
    apply (intro exI[of _ "evs # blocks"])
    using one b snap2 en2
    by (auto simp: snapshots_append)
qed

lemma rows_run_rejected:
  assumes one: "trace s1 = trace s @ evs" "row_block snap row evs"
      "\<forall>m\<in>set (snapshots evs). \<forall>i. isSendingIn m i \<longrightarrow>
          i = getRowId row \<or> isSendingIn (rowSendStates (ui s)) i"
      "\<forall>i. isSendingIn (rowSendStates (ui s1)) i \<longrightarrow> isSendingIn (rowSendStates (ui s)) i"
      "rows (ui s1) = rows (ui s)"
    and en: "ended_by (Some err) evs"
  shows "rows_run False (Some err) (row # rs) snap s s1"
  unfolding rows_run_def
  apply (intro exI[of _ "[evs]"])
  using one en
  by auto

lemma send_rows_run:
  "send_rows col snap rs s = (r, s') \<Longrightarrow> rows_run (r = None) r rs snap s s'"
proof (induction rs arbitrary: s)
  case Nil
  then show ?case by (simp add: rows_run_silent)
next
  case (Cons row rs)
  obtain u s1 where h: "sendEmailForRow col snap row s = (u, s1)"
    by (cases "sendEmailForRow col snap row s")
  obtain evs where one: "trace s1 = trace s @ evs" "row_block snap row evs"
      "\<forall>m\<in>set (snapshots evs). \<forall>i. isSendingIn m i \<longrightarrow>
          i = getRowId row \<or> isSendingIn (rowSendStates (ui s)) i"
      "\<forall>i. isSendingIn (rowSendStates (ui s1)) i \<longrightarrow> isSendingIn (rowSendStates (ui s)) i"
      "rows (ui s1) = rows (ui s)"
    and en: "ended_by (rejection u) evs"
    using sendEmailForRow_run[OF h] by blast
  show ?case
  proof (cases u)
    case (Inl err)
    then have e: "s' = s1" "r = Some err" using Cons.prems h by simp_all
    have "ended_by (Some err) evs" using en Inl by (simp add: rejection_def)
    from rows_run_rejected[OF one this] show ?thesis using e by simp
  next
    case (Inr b)
    then have "send_rows col snap rs s1 = (r, s')" using Cons.prems h by simp
    moreover have "rejections evs = []" using en Inr by (simp add: rejection_def ended_by_def)
    ultimately show ?thesis using rows_run_Cons[OF one _ Cons.IH] by blast
  qed
qed

lemma rows_run_frame:
  assumes "rows_run c r rs snap s1 s2"
    and "trace s1 = trace s" "rowSendStates (ui s1) = rowSendStates (ui s)"
        "rows (ui s1) = rows (ui s)"
    and "trace s' = trace s2" "rowSendStates (ui s') = rowSendStates (ui s2)"
        "rows (ui s') = rows (ui s2)"
    and "c' \<longrightarrow> c"
  shows "rows_run c' r rs snap s s'"
  using assms unfolding rows_run_def by auto

lemma set_simps_ui:
  "trace (setIsSendingAll b s) = trace s"
  "rowSendStates (ui (setIsSendingAll b s)) = rowSendStates (ui s)"
  "rows (ui (setIsSendingAll b s)) = rows (ui s)"
  "trace (setActionError m s) = trace s"
  "rowSendStates (ui (setActionError m s)) = rowSendStates (ui s)"
  "rows (ui (setActionError m s)) = rows (ui s)"
  by (simp_all add: setIsSendingAll_def setActionError_def)

text \<open>
  A bulk run is complete when it was not refused at its start and no call was rejected.
\<close>

lemma bulk_run_rows_run:
  "rows_run (\<not> isSendingAll snap \<and> consoleZipFilename snap \<noteq> []
             \<and> fst (bulk_run mode col snap s) = None)
     (fst (bulk_run mode col snap s))
     (bulk_rows mode snap) snap s (snd (bulk_run mode col snap s))"
proof -
  let ?s1 = "setIsSendingAll True (setActionError [] s)"
  let ?rs = "bulk_rows mode snap"
  obtain r s2 where h: "send_rows col snap ?rs ?s1 = (r, s2)"
    by (cases "send_rows col snap ?rs ?s1")
  have run: "rows_run (r = None) r ?rs snap s (setIsSendingAll False s2)"
    by (rule rows_run_frame[OF send_rows_run[OF h]]) (simp_all add: set_simps_ui)
  have quiet: "rows_run False None ?rs snap s s"
    "rows_run False None ?rs snap s (setActionError m s)" for m
    by (simp_all add: rows_run_silent set_simps_ui)
  have empty: "rows_run c None [] snap s (setActionError m s)" for c m
    by (simp add: rows_run_silent set_simps_ui)
  show ?thesis
  proof (cases mode)
    case SendAllPending
    then show ?thesis
      using run h quiet by (auto simp: sendPending_def Let_def)
  next
    case SendSelected
    then show ?thesis
      using run h quiet empty by (auto simp: sendSelectedPendingRows_def Let_def)
  next
    case RetryFailed
    then show ?thesis
      using run h quiet empty by (auto simp: retryAllFailed_def Let_def)
  qed
qed

lemma fetch_bodies_set: "b \<in> set (fetch_bodies evs) \<longleftrightarrow> Fetch b \<in> set evs"
  by (induction evs rule: fetch_bodies.induct) auto

lemma row_block_fetch:
  assumes "row_block snap row evs" and "b \<in> set (fetch_bodies evs)"
  shows "b = send_request_body snap row (body_pdf_base64 b)"
proof -
  have f: "Fetch b \<in> set evs" using assms(2) by (simp add: fetch_bodies_set)
  consider (busy) "evs = []"
    | (refused) e where "evs = [e]" "sets_row (getRowId row) failed e"
    | (go) e att q where "evs = e # att @ q" "sets_row (getRowId row) sending e"
        "row_attempt snap row att" "row_query snap row q"
    using assms(1) unfolding row_block_iff by (auto split: if_splits)
  then show ?thesis
  proof cases
    case busy
    then show ?thesis using f by simp
  next
    case refused
    then show ?thesis using f by (auto simp: sets_row_def)
  next
    case go
    have "e \<noteq> Fetch b" using go(2) by (auto simp: sets_row_def)
    moreover have "Fetch b \<notin> set q"
      using go(4) unfolding row_query_iff by (auto split: if_splits)
    ultimately have "Fetch b \<in> set att" using f go(1) by simp
    then show ?thesis
      using go(3) unfolding row_attempt_iff by (auto simp: sets_row_def)
  qed
qed

lemma blocks_fetch:
  assumes "list_all2 (row_block snap) xs blocks" and "b \<in> set (fetch_bodies (concat blocks))"
  shows "\<exists>row\<in>set xs. b = send_request_body snap row (body_pdf_base64 b)"
  using assms
proof (induction xs blocks rule: list_all2_induct)
  case Nil
  then show ?case by simp
next
  case (Cons x xs blk blocks)
  then show ?case
    using row_block_fetch[of snap x blk b] by (auto simp: fetch_bodies_append)
qed

lemma rows_run_events:
  assumes "rows_run c r rs snap s s'"
  shows "(\<exists>blocks. events_since s s' = concat blocks \<and> length blocks \<le> length rs
           \<and> (c \<longrightarrow> length blocks = length rs)
           \<and> list_all2 (row_block snap) (take (length blocks) rs) blocks)
         \<and> ended_by r (events_since s s')"
  using assms unfolding rows_run_def events_since_def by auto

lemma rows_run_fetch:
  assumes "rows_run c r rs snap s s'" and "b \<in> set (fetch_bodies (events_since s s'))"
  shows "\<exists>row\<in>set rs. b = send_request_body snap row (body_pdf_base64 b)"
proof -
  obtain blocks where b: "events_since s s' = concat blocks"
    "list_all2 (row_block snap) (take (length blocks) rs) blocks"
    using rows_run_events[OF assms(1)] by blast
  have "\<exists>row\<in>set (take (length blocks) rs). b = send_request_body snap row (body_pdf_base64 b)"
    using blocks_fetch[OF b(2)] assms(2) b(1) by simp
  then obtain row where "row \<in> set (take (length blocks) rs)"
    "b = send_request_body snap row (body_pdf_base64 b)" by blast
  then show ?thesis using in_set_takeD[of row "length blocks" rs] by blast
qed

lemma length_remdups_le_one:
  assumes "set xs \<subseteq> {a}"
  shows "length (remdups xs) \<le> 1"
proof -
  have "length (remdups xs) = card (set xs)" by (simp add: length_remdups_card_conv)
  also have "\<dots> \<le> card {a}" using assms by (intro card_mono) auto
  finally show ?thesis by simp
qed

lemma sendingRowIds_empty_iff:
  "sendingRowIds m rs = [] \<longleftrightarrow> (\<forall>r\<in>set rs. \<not> isSendingIn m (getRowId r))"
  by (auto simp: sendingRowIds_def filter_empty_conv)

lemma rows_run_one_sending:
  assumes run: "rows_run c r rs snap s s'"
    and start: "sendingRowIds (rowSendStates (ui s)) all = []"
  shows "(\<forall>m\<in>set (snapshots (events_since s s')). length (sendingRowIds m all) \<le> 1)
         \<and> sendingRowIds (rowSendStates (ui s')) all = []"
proof -
  from run obtain blocks where tr: "trace s' = trace s @ concat blocks"
    and sn: "\<forall>m\<in>set (snapshots (concat blocks)). \<exists>row\<in>set rs. \<forall>i. isSendingIn m i \<longrightarrow>
        i = getRowId row \<or> isSendingIn (rowSendStates (ui s)) i"
    and fin: "\<forall>i. isSendingIn (rowSendStates (ui s')) i \<longrightarrow> isSendingIn (rowSendStates (ui s)) i"
    unfolding rows_run_def by blast
  have ev: "events_since s s' = concat blocks" using tr by (simp add: events_since_def)
  have none: "\<And>r. r \<in> set all \<Longrightarrow> \<not> isSendingIn (rowSendStates (ui s)) (getRowId r)"
    using start by (simp add: sendingRowIds_empty_iff)
  have one: "length (sendingRowIds m all) \<le> 1" if "m \<in> set (snapshots (concat blocks))" for m
  proof -
    from sn that obtain row where row: "\<And>i. isSendingIn m i \<Longrightarrow>
        i = getRowId row \<or> isSendingIn (rowSendStates (ui s)) i"
      by blast
    have "x = getRowId row" if "x \<in> set (filter (isSendingIn m) (map getRowId all))" for x
    proof -
      from that obtain r where r: "r \<in> set all" "x = getRowId r" "isSendingIn m x" by auto
      show ?thesis using row[OF r(3)] none[OF r(1)] r(2) by blast
    qed
    then have "set (filter (isSendingIn m) (map getRowId all)) \<subseteq> {getRowId row}" by blast
    then show ?thesis unfolding sendingRowIds_def by (rule length_remdups_le_one)
  qed
  have "\<And>r. r \<in> set all \<Longrightarrow> \<not> isSendingIn (rowSendStates (ui s')) (getRowId r)"
    using fin none by blast
  then have "sendingRowIds (rowSendStates (ui s')) all = []"
    by (simp add: sendingRowIds_empty_iff)
  then show ?thesis using one ev by simp
qed

subsection \<open>Refused transitions into sending\<close>

text \<open>
  C4. A transition of a row into \<open>sending\<close> is refused in three cases, tested in this
  order against the render the call belongs to: the row is already \<open>sending\<close>, the row has
  no contact email, the archive filename is unavailable. In each case the call returns
  \<open>false\<close>, the row does not enter \<open>sending\<close> and no request is sent. In the first case
  nothing changes; in the other two the row is set to \<open>failed\<close> with a message naming the
  reason.
\<close>

theorem send_refused_cases:
  "(sendStateOf snap (getRowId row) = Some sending \<longrightarrow>
      sendEmailForRow col snap row s = (Inr False, s))
   \<and> (sendStateOf snap (getRowId row) \<noteq> Some sending
        \<and> (contact_email row = None \<or> contact_email row = Some []) \<longrightarrow>
      sendEmailForRow col snap row s
        = (Inr False,
           setRowSendState (getRowId row) failed (Some ''No contact email available.'') s))
   \<and> (sendStateOf snap (getRowId row) \<noteq> Some sending
        \<and> contact_email row \<noteq> None \<and> contact_email row \<noteq> Some []
        \<and> consoleZipFilename snap = [] \<longrightarrow>
      sendEmailForRow col snap row s
        = (Inr False,
           setRowSendState (getRowId row) failed
             (Some ''ZIP filename is unavailable. Re-upload the file.'') s))
   \<and> rowSendStates (ui (setRowSendState rowId failed err s)) rowId
       = Some \<lparr> send_state = failed, send_error = err \<rparr>
   \<and> events_since s (setRowSendState rowId failed err s)
       = [RowStateSet rowId (rowSendStates (ui (setRowSendState rowId failed err s)))]
   \<and> world (setRowSendState rowId failed err s) = world s"
  by (auto simp: sendEmailForRow_def sendStateOf_def setRowSendState_simps events_since_def
        Let_def split: option.splits)

theorem send_refused_cases_witness:
  "sendStateOf (ui scenario_row_in_flight) (getRowId (scenario_row ''PR20'')) = Some sending
   \<and> sendEmailForRow scenario_collab (ui scenario_row_in_flight) (scenario_row ''PR20'')
        scenario_row_in_flight = (Inr False, scenario_row_in_flight)
   \<and> contact_email (scenario_row ''ZZ9'') = None
   \<and> fst (sendEmailForRow scenario_collab (ui scenario_uploaded) (scenario_row ''ZZ9'')
        scenario_uploaded) = Inr False
   \<and> rowSendStates (ui (snd (sendEmailForRow scenario_collab (ui scenario_uploaded)
        (scenario_row ''ZZ9'') scenario_uploaded))) (getRowId (scenario_row ''ZZ9''))
       = Some \<lparr> send_state = failed, send_error = Some ''No contact email available.'' \<rparr>
   \<and> consoleZipFilename initial_console = []
   \<and> rowSendStates (ui (snd (sendEmailForRow scenario_collab initial_console
        (scenario_row ''PR21'') scenario_uploaded))) (getRowId (scenario_row ''PR21''))
       = Some \<lparr> send_state = failed,
                 send_error = Some ''ZIP filename is unavailable. Re-upload the file.'' \<rparr>"
proof -
  have a: "sendStateOf (ui scenario_row_in_flight) (getRowId (scenario_row ''PR20''))
             = Some sending"
    by code_simp
  have b: "sendStateOf (ui scenario_uploaded) (getRowId (scenario_row ''ZZ9'')) \<noteq> Some sending"
    "contact_email (scenario_row ''ZZ9'') = None"
    by code_simp+
  have c: "sendStateOf initial_console (getRowId (scenario_row ''PR21'')) \<noteq> Some sending"
    "contact_email (scenario_row ''PR21'') \<noteq> None"
    "contact_email (scenario_row ''PR21'') \<noteq> Some []"
    "consoleZipFilename initial_console = []"
    by code_simp+
  note t1 = send_refused_cases
    [of "ui scenario_row_in_flight" "scenario_row ''PR20''" scenario_collab
        scenario_row_in_flight]
  note t2 = send_refused_cases
    [of "ui scenario_uploaded" "scenario_row ''ZZ9''" scenario_collab scenario_uploaded
        "getRowId (scenario_row ''ZZ9'')" "Some ''No contact email available.''"]
  note t3 = send_refused_cases
    [of initial_console "scenario_row ''PR21''" scenario_collab scenario_uploaded
        "getRowId (scenario_row ''PR21'')"
        "Some ''ZIP filename is unavailable. Re-upload the file.''"]
  show ?thesis
    using a b c t1 t2 t3 by simp
qed

text \<open>
  As C4 is worded, the refusal leaves the row's send state and error unchanged in all
  three cases. A row without a contact email that was idle is \<open>failed\<close> with a message
  after the refused call.
\<close>

theorem send_refused_not_noop_counterexample:
  "rowSendStates (ui scenario_uploaded) (getRowId (scenario_row ''ZZ9'')) = None
   \<and> contact_email (scenario_row ''ZZ9'') = None
   \<and> rowSendStates (ui (snd (sendEmailForRow scenario_collab (ui scenario_uploaded)
        (scenario_row ''ZZ9'') scenario_uploaded))) (getRowId (scenario_row ''ZZ9''))
       = Some \<lparr> send_state = failed, send_error = Some ''No contact email available.'' \<rparr>"
  by code_simp

subsection \<open>Send all pending skips rows sent earlier\<close>

text \<open>
  What \<open>sendPending\<close> skips is decided by the statuses the console holds,
  \<open>lastLogStatusByKey\<close>, in the render the run belongs to. With the toggle
  \<open>skipAlreadySent\<close> enabled, which is its initial value, every row whose held status is
  \<open>sent\<close> is left out of the rows to send and no request of the run carries its account
  key; the rows to send are \<open>Pending\<close> rows of the console that are not \<open>sent\<close> in this
  session, and every request of the run is built from one of them.
\<close>

lemma sendPending_skips_cached_sent:
  assumes "skipAlreadySent snap"
  shows "(\<forall>row\<in>set (rows snap). lastLogStatusOf snap (account_key row) = Some LogSent \<longrightarrow>
            row \<notin> set (sendPending_rowsToSend snap)
            \<and> (\<forall>b\<in>set (fetch_bodies (events_since s (snd (sendPending col snap s)))).
                  body_account_key b \<noteq> account_key row))
       \<and> (\<forall>row\<in>set (sendPending_rowsToSend snap).
            row \<in> set (rows snap) \<and> status row = Pending
            \<and> sendStateOf snap (getRowId row) \<noteq> Some sent)
       \<and> (\<forall>b\<in>set (fetch_bodies (events_since s (snd (sendPending col snap s)))).
            \<exists>row\<in>set (sendPending_rowsToSend snap).
              b = send_request_body snap row (body_pdf_base64 b))
       \<and> skipAlreadySent initial_console"
proof -
  let ?evs = "events_since s (snd (sendPending col snap s))"
  have run: "rows_run (\<not> isSendingAll snap \<and> consoleZipFilename snap \<noteq> []
                \<and> fst (sendPending col snap s) = None)
               (fst (sendPending col snap s))
               (sendPending_rowsToSend snap) snap s (snd (sendPending col snap s))"
    using bulk_run_rows_run[of snap SendAllPending col s] by simp
  have from_row: "\<exists>row\<in>set (sendPending_rowsToSend snap).
              b = send_request_body snap row (body_pdf_base64 b)"
    if "b \<in> set (fetch_bodies ?evs)" for b
    using rows_run_fetch[OF run that] .
  have elig: "row \<in> set (rows snap) \<and> status row = Pending
            \<and> sendStateOf snap (getRowId row) \<noteq> Some sent
            \<and> lastLogStatusOf snap (account_key row) \<noteq> Some LogSent"
    if "row \<in> set (sendPending_rowsToSend snap)" for row
    using that assms
    by (auto simp: sendPending_rowsToSend_def shouldSkipRowBecauseSentEarlier_def
          split: if_splits)
  have skipped: "row \<notin> set (sendPending_rowsToSend snap)
            \<and> (\<forall>b\<in>set (fetch_bodies ?evs). body_account_key b \<noteq> account_key row)"
    if "lastLogStatusOf snap (account_key row) = Some LogSent" for row
  proof
    show "row \<notin> set (sendPending_rowsToSend snap)" using elig[of row] that by auto
    show "\<forall>b\<in>set (fetch_bodies ?evs). body_account_key b \<noteq> account_key row"
    proof
      fix b assume "b \<in> set (fetch_bodies ?evs)"
      then obtain r where r: "r \<in> set (sendPending_rowsToSend snap)"
        "b = send_request_body snap r (body_pdf_base64 b)"
        using from_row by blast
      have "body_account_key b = account_key r"
        using r(2) by (metis SendEmailRequestBody.select_convs(2) send_request_body_def)
      then show "body_account_key b \<noteq> account_key row"
        using elig[OF r(1)] that by auto
    qed
  qed
  show ?thesis
    using skipped elig from_row by (simp add: initial_console_def)
qed


text \<open>
  C1. As C1 is worded, the row of \<open>PR20\<close> is left out of the run when the audit log
  holds \<open>sent\<close> for \<open>PR20\<close> under the filename of the current archive. The statuses the
  console holds are kept by account key alone, and the follow-up query of a send asks
  for the filename of the render the send was made in. In the scenario \<open>bills.zip\<close> is the
  current archive, the audit log holds \<open>sent\<close> for \<open>PR20\<close> under it, and the toggle is
  enabled. Right after the upload the console holds \<open>sent\<close> for \<open>PR20\<close> and a run would
  send \<open>PR21\<close> only. After the send that was awaited during the upload has gone on, the
  console holds the status of \<open>PR20\<close> under \<open>earlier.zip\<close>, which is \<open>failed\<close>, and the run
  sends \<open>PR20\<close> for \<open>bills.zip\<close> again.
\<close>

theorem sendPending_resends_after_stale_refresh:
  "consoleZipFilename (ui scenario_bills_uploaded) = ''bills.zip''
   \<and> lastLogStatusOf (ui scenario_bills_uploaded) ''PR20'' = Some LogSent
   \<and> map body_account_key (fetch_bodies (events_since scenario_bills_uploaded
        (snd (sendPending scenario_collab_two_archives (ui scenario_bills_uploaded)
                scenario_bills_uploaded))))
      = [''PR21'']
   \<and> consoleZipFilename (ui scenario_send_resumed) = ''bills.zip''
   \<and> skipAlreadySent (ui scenario_send_resumed)
   \<and> map_option last_status
        (case fst (last_send_status_for_zip scenario_collab_two_archives ''bills.zip''
                     [''PR20''] ()) of
           Inl err \<Rightarrow> None
         | Inr latest \<Rightarrow> latest ''PR20'')
      = Some (Some LogSent)
   \<and> lastLogStatusOf (ui scenario_send_resumed) ''PR20'' = Some LogFailed
   \<and> map (\<lambda>b. (body_zip_filename b, body_account_key b))
        (fetch_bodies (events_since scenario_send_resumed
           (snd (sendPending scenario_collab_two_archives (ui scenario_send_resumed)
                   scenario_send_resumed))))
      = [(''bills.zip'', ''PR20''), (''bills.zip'', ''PR21'')]"
  by code_simp

subsection \<open>Bulk runs are sequential\<close>

text \<open>
  C8. In each of the three bulk modes the events of a run fall into consecutive blocks,
  one per eligible row in the order of the rows. The block of a row that is sent sets the
  row to \<open>sending\<close>, makes the attempt (one request at most, built from that row), sets
  the row to \<open>sent\<close> or \<open>failed\<close>, and ends with the audit-log query for the row's key; the
  next row's block begins only after it. Every eligible row has its block when the run
  was not refused at its start and no query was rejected. A rejected query ends the run:
  it is the last event of the run, the run is left with its error, and no query before
  it was rejected. In a run that starts while no row of the console is \<open>sending\<close>, at no
  point are two rows \<open>sending\<close>, and none is at the end.
\<close>

theorem bulk_run_sequential:
  "(\<exists>blocks. events_since s (snd (bulk_run mode col snap s)) = concat blocks
       \<and> length blocks \<le> length (bulk_rows mode snap)
       \<and> (\<not> isSendingAll snap \<and> consoleZipFilename snap \<noteq> []
            \<and> fst (bulk_run mode col snap s) = None
          \<longrightarrow> length blocks = length (bulk_rows mode snap))
       \<and> list_all2 (row_block snap) (take (length blocks) (bulk_rows mode snap)) blocks)
   \<and> ended_by (fst (bulk_run mode col snap s)) (events_since s (snd (bulk_run mode col snap s)))
   \<and> (sendingRowIds (rowSendStates (ui s)) (rows snap) = [] \<longrightarrow>
        (\<forall>m\<in>set (snapshots (events_since s (snd (bulk_run mode col snap s)))).
           length (sendingRowIds m (rows snap)) \<le> 1)
        \<and> sendingRowIds (rowSendStates (ui (snd (bulk_run mode col snap s)))) (rows snap) = [])"
  using rows_run_events[OF bulk_run_rows_run[of snap mode col s]]
    rows_run_one_sending[OF bulk_run_rows_run[of snap mode col s], of "rows snap"]
  by blast

theorem bulk_run_sequential_witness:
  "sendingRowIds (rowSendStates (ui scenario_uploaded)) (rows (ui scenario_uploaded)) = []
   \<and> bulk_rows SendAllPending (ui scenario_uploaded) = map scenario_row [''PR20'', ''PR21'']
   \<and> fst (bulk_run SendAllPending scenario_collab (ui scenario_uploaded) scenario_uploaded) = None
   \<and> map body_account_key (fetch_bodies (events_since scenario_uploaded
        (snd (bulk_run SendAllPending scenario_collab (ui scenario_uploaded) scenario_uploaded))))
      = [''PR20'', ''PR21'']
   \<and> map (\<lambda>m. sendingRowIds m (rows (ui scenario_uploaded)))
        (snapshots (events_since scenario_uploaded
          (snd (bulk_run SendAllPending scenario_collab (ui scenario_uploaded) scenario_uploaded))))
      = [[getRowId (scenario_row ''PR20'')], [], [getRowId (scenario_row ''PR21'')], []]
   \<and> audit_queries (events_since scenario_uploaded
        (snd (bulk_run SendAllPending scenario_collab (ui scenario_uploaded) scenario_uploaded)))
      = [(''bills.zip'', [''PR20''], None), (''bills.zip'', [''PR21''], None)]
   \<and> fst (bulk_run SendAllPending scenario_collab_rejecting (ui scenario_uploaded)
            scenario_uploaded)
      = Some (Error ''audit log unavailable'')
   \<and> map body_account_key (fetch_bodies (events_since scenario_uploaded
        (snd (bulk_run SendAllPending scenario_collab_rejecting (ui scenario_uploaded)
                scenario_uploaded))))
      = [''PR20'']
   \<and> audit_queries (events_since scenario_uploaded
        (snd (bulk_run SendAllPending scenario_collab_rejecting (ui scenario_uploaded)
                scenario_uploaded)))
      = [(''bills.zip'', [''PR20''], Some (Error ''audit log unavailable''))]
   \<and> ended_by (Some (Error ''audit log unavailable''))
        (events_since scenario_uploaded
          (snd (bulk_run SendAllPending scenario_collab_rejecting (ui scenario_uploaded)
                  scenario_uploaded)))"
proof -
  let ?run = "bulk_run SendAllPending scenario_collab (ui scenario_uploaded) scenario_uploaded"
  let ?rej = "bulk_run SendAllPending scenario_collab_rejecting (ui scenario_uploaded)
                scenario_uploaded"
  have a: "sendingRowIds (rowSendStates (ui scenario_uploaded)) (rows (ui scenario_uploaded)) = []"
    by code_simp
  have b: "bulk_rows SendAllPending (ui scenario_uploaded) = map scenario_row [''PR20'', ''PR21'']"
    by code_simp
  have c: "fst ?run = None"
    by code_simp
  have d: "map body_account_key (fetch_bodies (events_since scenario_uploaded (snd ?run)))
      = [''PR20'', ''PR21'']"
    by code_simp
  have e: "map (\<lambda>m. sendingRowIds m (rows (ui scenario_uploaded)))
        (snapshots (events_since scenario_uploaded (snd ?run)))
      = [[getRowId (scenario_row ''PR20'')], [], [getRowId (scenario_row ''PR21'')], []]"
    by code_simp
  have f: "audit_queries (events_since scenario_uploaded (snd ?run))
      = [(''bills.zip'', [''PR20''], None), (''bills.zip'', [''PR21''], None)]"
    by code_simp
  have g: "fst ?rej = Some (Error ''audit log unavailable'')"
    by code_simp
  have h: "map body_account_key (fetch_bodies (events_since scenario_uploaded (snd ?rej)))
      = [''PR20'']"
    by code_simp
  have i: "audit_queries (events_since scenario_uploaded (snd ?rej))
      = [(''bills.zip'', [''PR20''], Some (Error ''audit log unavailable''))]"
    by code_simp
  note t = bulk_run_sequential
    [of scenario_uploaded SendAllPending scenario_collab "ui scenario_uploaded"]
  note r = bulk_run_sequential
    [of scenario_uploaded SendAllPending scenario_collab_rejecting "ui scenario_uploaded",
     THEN conjunct2, THEN conjunct1]
  have j: "ended_by (Some (Error ''audit log unavailable''))
             (events_since scenario_uploaded (snd ?rej))"
    using r unfolding g .
  show ?thesis using a b c d e f g h i j t by simp
qed

text \<open>
  As C8 is worded, two rows are never \<open>sending\<close> at once during a bulk run. The bulk
  actions are available while a single-row send is in flight: when \<open>PR20\<close> is \<open>sending\<close>
  and "send pending" starts, the call for \<open>PR20\<close> returns at once and \<open>PR21\<close> enters
  \<open>sending\<close> while \<open>PR20\<close> still is.
\<close>

theorem bulk_run_during_row_send_counterexample:
  "isSendingAll (ui scenario_row_in_flight) = False
   \<and> sendingRowIds (rowSendStates (ui scenario_row_in_flight)) (rows (ui scenario_row_in_flight))
       = [''PR20::Bill_PR20_2024-01-05.pdf::Bill_PR20_2024-01-05.pdf'']
   \<and> map (\<lambda>m. sendingRowIds m (rows (ui scenario_row_in_flight)))
        (snapshots (events_since scenario_row_in_flight
          (snd (sendPending scenario_collab (ui scenario_row_in_flight) scenario_row_in_flight))))
      = [[''PR20::Bill_PR20_2024-01-05.pdf::Bill_PR20_2024-01-05.pdf'',
          ''PR21::Bill_PR21_2024-01-05.pdf::Bill_PR21_2024-01-05.pdf''],
         [''PR20::Bill_PR20_2024-01-05.pdf::Bill_PR20_2024-01-05.pdf'']]"
  by code_simp

end
